theory Spec2Isabelle
  imports Complex_Main "HOL-Library.Sublist" "HOL-Library.Word"
begin

unbundle bit_operations_syntax

section \<open>Python strings\<close>

text \<open>
  A Python \<^verbatim>\<open>str\<close> is modelled as a \<^typ>\<open>string\<close> whose characters are the code points
  below 256 (Latin-1).  The helpers below follow the behaviour of the built-in string
  methods on such strings.
\<close>

definition py_isspace :: "char \<Rightarrow> bool" where
  "py_isspace c =
     (let n = (of_char c :: nat)
      in (9 \<le> n \<and> n \<le> 13) \<or> (28 \<le> n \<and> n \<le> 32) \<or> n = 133 \<or> n = 160)"

text \<open>\<^verbatim>\<open>s.strip()\<close>\<close>

definition py_strip :: "string \<Rightarrow> string" where
  "py_strip s = rev (dropWhile py_isspace (rev (dropWhile py_isspace s)))"

text \<open>\<^verbatim>\<open>s.rstrip(chars)\<close>\<close>

definition py_rstrip :: "string \<Rightarrow> string \<Rightarrow> string" where
  "py_rstrip chars s = rev (dropWhile (\<lambda>c. c \<in> set chars) (rev s))"

definition lower_char :: "char \<Rightarrow> char" where
  "lower_char c =
     (let n = (of_char c :: nat)
      in if (65 \<le> n \<and> n \<le> 90) \<or> (192 \<le> n \<and> n \<le> 222 \<and> n \<noteq> 215)
         then char_of (n + 32) else c)"

text \<open>\<^verbatim>\<open>s.lower()\<close>\<close>

definition py_lower :: "string \<Rightarrow> string" where
  "py_lower s = map lower_char s"

text \<open>\<^verbatim>\<open>k in s\<close> for strings: \<open>k\<close> occurs in \<open>s\<close> as a contiguous substring.\<close>

fun py_in :: "string \<Rightarrow> string \<Rightarrow> bool" where
  "py_in k [] = (k = [])"
| "py_in k (c # cs) = (prefix k (c # cs) \<or> py_in k cs)"

text \<open>\<^verbatim>\<open>s.partition(c)\<close> and \<^verbatim>\<open>s.rpartition(c)\<close> for a one-character separator;
  the middle component says whether the separator was found.\<close>

definition py_partition :: "char \<Rightarrow> string \<Rightarrow> string \<times> bool \<times> string" where
  "py_partition c s =
     (if c \<in> set s
      then (takeWhile (\<lambda>x. x \<noteq> c) s, True, tl (dropWhile (\<lambda>x. x \<noteq> c) s))
      else (s, False, []))"

definition py_rpartition :: "char \<Rightarrow> string \<Rightarrow> string \<times> bool \<times> string" where
  "py_rpartition c s =
     (if c \<in> set s
      then (rev (tl (dropWhile (\<lambda>x. x \<noteq> c) (rev s))), True,
            rev (takeWhile (\<lambda>x. x \<noteq> c) (rev s)))
      else ([], False, s))"

text \<open>\<^verbatim>\<open>s.split(c)\<close>\<close>

fun py_split :: "char \<Rightarrow> string \<Rightarrow> string list" where
  "py_split c [] = [[]]"
| "py_split c (x # xs) =
     (if x = c then [] # py_split c xs
      else (case py_split c xs of p # ps \<Rightarrow> (x # p) # ps | [] \<Rightarrow> [[x]]))"

definition ascii_alpha :: "char \<Rightarrow> bool" where
  "ascii_alpha c =
     (let n = (of_char c :: nat) in (65 \<le> n \<and> n \<le> 90) \<or> (97 \<le> n \<and> n \<le> 122))"

definition ascii_digit :: "char \<Rightarrow> bool" where
  "ascii_digit c = (let n = (of_char c :: nat) in 48 \<le> n \<and> n \<le> 57)"

definition hex_digit :: "char \<Rightarrow> bool" where
  "hex_digit c = (c \<in> set ''0123456789ABCDEFabcdef'')"

text \<open>Exceptions: the class, and the text of \<^verbatim>\<open>str(e)\<close> where the program reads it.\<close>

datatype exn =
    ValueError
  | RuntimeError string
  | TimeoutError
  | ClientError string
  | Exception string

fun str_of :: "exn \<Rightarrow> string" where
  "str_of ValueError = []"
| "str_of (RuntimeError m) = m"
| "str_of TimeoutError = []"
| "str_of (ClientError m) = m"
| "str_of (Exception m) = m"

section \<open>The standard library's URL parser (\<^verbatim>\<open>urllib.parse\<close>, CPython 3.11)\<close>

definition scheme_chars :: string where
  "scheme_chars = ''abcdefghijklmnopqrstuvwxyzABCDEFGHIJKLMNOPQRSTUVWXYZ0123456789+-.''"

definition uses_netloc :: "string list" where
  "uses_netloc = ['''', ''ftp'', ''http'', ''gopher'', ''nntp'', ''telnet'',
     ''imap'', ''wais'', ''file'', ''mms'', ''https'', ''shttp'',
     ''snews'', ''prospero'', ''rtsp'', ''rtsps'', ''rtspu'', ''rsync'',
     ''svn'', ''svn+ssh'', ''sftp'', ''nfs'', ''git'', ''git+ssh'',
     ''ws'', ''wss'']"

definition uses_params :: "string list" where
  "uses_params = ['''', ''ftp'', ''hdl'', ''prospero'', ''http'', ''imap'',
     ''https'', ''shttp'', ''rtsp'', ''rtsps'', ''rtspu'', ''sip'',
     ''sips'', ''mms'', ''sftp'', ''tel'']"

text \<open>The characters of \<^verbatim>\<open>_WHATWG_C0_CONTROL_OR_SPACE\<close> and of
  \<^verbatim>\<open>_UNSAFE_URL_BYTES_TO_REMOVE\<close>.\<close>

definition c0_control_or_space :: "char \<Rightarrow> bool" where
  "c0_control_or_space c = ((of_char c :: nat) \<le> 32)"

definition unsafe_url_byte :: "char \<Rightarrow> bool" where
  "unsafe_url_byte c = ((of_char c :: nat) \<in> {9, 10, 13})"

text \<open>The scheme test of \<^verbatim>\<open>urlsplit\<close>: a colon not at position 0, an ASCII letter first,
  scheme characters up to the colon.\<close>

definition split_scheme :: "string \<Rightarrow> string \<times> string" where
  "split_scheme url =
     (let pre = takeWhile (\<lambda>c. c \<noteq> CHR '':'') url
      in if CHR '':'' \<in> set url \<and> pre \<noteq> [] \<and> ascii_alpha (hd url)
            \<and> list_all (\<lambda>c. c \<in> set scheme_chars) pre
         then (py_lower pre, tl (dropWhile (\<lambda>c. c \<noteq> CHR '':'') url))
         else ([], url))"

text \<open>\<^verbatim>\<open>_splitnetloc(url, 2)\<close>\<close>

definition splitnetloc :: "string \<Rightarrow> string \<times> string" where
  "splitnetloc url =
     (takeWhile (\<lambda>c. c \<notin> set ''/?#'') (drop 2 url),
      dropWhile (\<lambda>c. c \<notin> set ''/?#'') (drop 2 url))"

subsection \<open>Bracketed hosts (\<^verbatim>\<open>_check_bracketed_host\<close>, \<^verbatim>\<open>ipaddress\<close>)\<close>

definition dec_value :: "string \<Rightarrow> nat" where
  "dec_value s = foldl (\<lambda>a c. 10 * a + (of_char c - 48)) 0 s"

definition valid_octet :: "string \<Rightarrow> bool" where
  "valid_octet s =
     (if s = [] then False
      else if \<not> list_all ascii_digit s then False
      else if length s > 3 then False
      else if s \<noteq> ''0'' \<and> hd s = CHR ''0'' then False
      else dec_value s \<le> 255)"

definition valid_ipv4 :: "string \<Rightarrow> bool" where
  "valid_ipv4 s =
     (CHR ''/'' \<notin> set s \<and> s \<noteq> [] \<and> length (py_split CHR ''.'' s) = 4
      \<and> list_all valid_octet (py_split CHR ''.'' s))"

definition valid_hextet :: "string \<Rightarrow> bool" where
  "valid_hextet h = (list_all hex_digit h \<and> length h \<le> 4 \<and> h \<noteq> [])"

text \<open>\<^verbatim>\<open>_ip_int_from_string\<close> of \<^verbatim>\<open>IPv6Address\<close>, as far as it accepts or rejects: an
  embedded IPv4 tail is replaced by two hextets, then at most one \<^verbatim>\<open>::\<close> is allowed.\<close>

definition valid_ipv6_parts :: "string list \<Rightarrow> bool" where
  "valid_ipv6_parts parts =
     (let n = length parts;
          skips = filter (\<lambda>i. parts ! i = []) [1 ..< n - 1]
      in if n > 9 then False
         else (case skips of
             [] \<Rightarrow> n = 8 \<and> list_all valid_hextet parts
           | [k] \<Rightarrow>
               (let hi = (if hd parts = [] then k - 1 else k);
                    lo = (if last parts = [] then n - k - 1 - 1 else n - k - 1)
                in if hd parts = [] \<and> hi \<noteq> 0 then False
                   else if last parts = [] \<and> lo \<noteq> 0 then False
                   else if hi + lo > 7 then False
                   else list_all valid_hextet (take hi parts)
                        \<and> list_all valid_hextet (drop (n - lo) parts))
           | _ \<Rightarrow> False))"

definition valid_ipv6_addr :: "string \<Rightarrow> bool" where
  "valid_ipv6_addr s =
     (let parts = py_split CHR '':'' s
      in if s = [] then False
         else if length parts < 3 then False
         else if CHR ''.'' \<in> set (last parts)
         then valid_ipv4 (last parts) \<and> valid_ipv6_parts (butlast parts @ [''0'', ''0''])
         else valid_ipv6_parts parts)"

definition valid_ipv6 :: "string \<Rightarrow> bool" where
  "valid_ipv6 s =
     (case py_partition CHR ''%'' s of (addr, sep, scope_id) \<Rightarrow>
        if CHR ''/'' \<in> set s then False
        else if sep \<and> (scope_id = [] \<or> CHR ''%'' \<in> set scope_id) then False
        else valid_ipv6_addr addr)"

text \<open>True when \<^verbatim>\<open>_check_bracketed_host\<close> returns, False when it raises \<^verbatim>\<open>ValueError\<close>.\<close>

definition check_bracketed_host :: "string \<Rightarrow> bool" where
  "check_bracketed_host hostname =
     (if prefix ''v'' hostname
      then (let hx = takeWhile hex_digit (tl hostname);
                rest = dropWhile hex_digit (tl hostname)
            in hx \<noteq> [] \<and> prefix ''.'' rest \<and> length rest \<ge> 2)
      else \<not> valid_ipv4 hostname \<and> valid_ipv6 hostname)"

subsection \<open>\<^verbatim>\<open>urlsplit\<close>, \<^verbatim>\<open>urlparse\<close>, \<^verbatim>\<open>hostname\<close>, \<^verbatim>\<open>urlunparse\<close>\<close>

text \<open>
  \<^verbatim>\<open>urlsplit(url)\<close> with the default scheme \<^verbatim>\<open>''\<close>: the five components, or \<^verbatim>\<open>ValueError\<close>.
  \<^verbatim>\<open>_checknetloc\<close> rejects only compatibility characters beyond Latin-1, so it never
  raises on the strings modelled here.
\<close>

definition urlsplit :: "string \<Rightarrow> exn + (string \<times> string \<times> string \<times> string \<times> string)" where
  "urlsplit url0 =
     (let url1 = dropWhile c0_control_or_space url0;
          url2 = filter (\<lambda>c. \<not> unsafe_url_byte c) url1;
          (scheme, url3) = split_scheme url2;
          has_netloc = (take 2 url3 = ''//'');
          (netloc, url4) = (if has_netloc then splitnetloc url3 else ([], url3));
          lb = (CHR ''['' \<in> set netloc);
          rb = (CHR '']'' \<in> set netloc)
      in if has_netloc \<and> ((lb \<and> \<not> rb) \<or> (rb \<and> \<not> lb)) then Inl ValueError
         else if has_netloc \<and> lb \<and> rb \<and>
                 \<not> check_bracketed_host
                     (fst (py_partition CHR '']'' (snd (snd (py_partition CHR ''['' netloc)))))
         then Inl ValueError
         else
           (let (url5, fragment) =
                  (if CHR ''#'' \<in> set url4
                   then (takeWhile (\<lambda>c. c \<noteq> CHR ''#'') url4, tl (dropWhile (\<lambda>c. c \<noteq> CHR ''#'') url4))
                   else (url4, []));
                (url6, query) =
                  (if CHR ''?'' \<in> set url5
                   then (takeWhile (\<lambda>c. c \<noteq> CHR ''?'') url5, tl (dropWhile (\<lambda>c. c \<noteq> CHR ''?'') url5))
                   else (url5, []))
            in Inr (scheme, netloc, url6, query, fragment)))"

text \<open>\<^verbatim>\<open>_splitparams\<close>: the parameters are cut from the last path segment only.\<close>

definition splitparams :: "string \<Rightarrow> string \<times> string" where
  "splitparams url =
     (let last_seg = rev (takeWhile (\<lambda>c. c \<noteq> CHR ''/'') (rev url));
          front = take (length url - length last_seg) url
      in if CHR ''/'' \<in> set url
         then (if CHR '';'' \<in> set last_seg
               then (front @ takeWhile (\<lambda>c. c \<noteq> CHR '';'') last_seg,
                     tl (dropWhile (\<lambda>c. c \<noteq> CHR '';'') last_seg))
               else (url, []))
         else (takeWhile (\<lambda>c. c \<noteq> CHR '';'') url, tl (dropWhile (\<lambda>c. c \<noteq> CHR '';'') url)))"

record parse_result =
  pr_scheme :: string
  pr_netloc :: string
  pr_path :: string
  pr_params :: string
  pr_query :: string
  pr_fragment :: string

definition urlparse :: "string \<Rightarrow> exn + parse_result" where
  "urlparse url =
     (case urlsplit url of
        Inl e \<Rightarrow> Inl e
      | Inr (scheme, netloc, path, query, fragment) \<Rightarrow>
          (let (path', params) =
                 (if scheme \<in> set uses_params \<and> CHR '';'' \<in> set path
                  then splitparams path else (path, []))
           in Inr \<lparr>pr_scheme = scheme, pr_netloc = netloc, pr_path = path',
                   pr_params = params, pr_query = query, pr_fragment = fragment\<rparr>))"

text \<open>The \<^verbatim>\<open>hostname\<close> property; \<open>None\<close> is Python's \<^verbatim>\<open>None\<close>.\<close>

definition hostname :: "parse_result \<Rightarrow> string option" where
  "hostname p =
     (let hostinfo = snd (snd (py_rpartition CHR ''@'' (pr_netloc p)));
          (u, have_open_br, bracketed) = py_partition CHR ''['' hostinfo;
          h = (if have_open_br then fst (py_partition CHR '']'' bracketed)
               else fst (py_partition CHR '':'' hostinfo))
      in if h = [] then None
         else (case py_partition CHR ''%'' h of (a, percent, zone) \<Rightarrow>
                 Some (py_lower a @ (if percent then ''%'' else []) @ zone)))"

text \<open>\<^verbatim>\<open>urlunparse((scheme, netloc, url, params, query, fragment))\<close>\<close>

definition urlunparse :: "string \<times> string \<times> string \<times> string \<times> string \<times> string \<Rightarrow> string" where
  "urlunparse comps =
     (case comps of (scheme, netloc, path, params, query, fragment) \<Rightarrow>
        (let url = (if params \<noteq> [] then path @ '';'' @ params else path);
             url1 = (if netloc \<noteq> [] \<or> (scheme \<noteq> [] \<and> scheme \<in> set uses_netloc) \<or> take 2 url = ''//''
                     then ''//'' @ netloc @ (if url \<noteq> [] \<and> take 1 url \<noteq> ''/'' then ''/'' @ url else url)
                     else url);
             url2 = (if scheme \<noteq> [] then scheme @ '':'' @ url1 else url1);
             url3 = (if query \<noteq> [] then url2 @ ''?'' @ query else url2)
         in if fragment \<noteq> [] then url3 @ ''#'' @ fragment else url3))"

section \<open>URL hashing (\<^verbatim>\<open>db.py\<close>)\<close>

definition normalize_url :: "string \<Rightarrow> exn + string" where
  "normalize_url url =
     (case urlparse (py_strip url) of
        Inl e \<Rightarrow> Inl e
      | Inr parsed \<Rightarrow>
          (let scheme = py_lower (if pr_scheme parsed \<noteq> [] then pr_scheme parsed else ''https'');
               host = py_lower (case hostname parsed of Some h \<Rightarrow> h | None \<Rightarrow> []);
               host' = (if prefix ''www.'' host then drop 4 host else host);
               path = py_rstrip ''/'' (pr_path parsed)
           in Inr (urlunparse (scheme, host', path, [], [], []))))"


subsection \<open>SHA-256 (\<^verbatim>\<open>hashlib.sha256\<close>, FIPS 180-4)\<close>

text \<open>32-bit words are integers reduced modulo \<open>2\<^sup>3\<^sup>2\<close> wherever an addition may wrap.\<close>

definition m32 :: "int \<Rightarrow> int" where
  "m32 x = x mod 4294967296"

definition rotr :: "nat \<Rightarrow> int \<Rightarrow> int" where
  "rotr n x = x div 2 ^ n + (x mod 2 ^ n) * 2 ^ (32 - n)"

definition sha_K :: "int list" where
  "sha_K = [
   1116352408, 1899447441, 3049323471, 3921009573, 961987163, 1508970993, 2453635748, 2870763221,
   3624381080, 310598401, 607225278, 1426881987, 1925078388, 2162078206, 2614888103, 3248222580,
   3835390401, 4022224774, 264347078, 604807628, 770255983, 1249150122, 1555081692, 1996064986,
   2554220882, 2821834349, 2952996808, 3210313671, 3336571891, 3584528711, 113926993, 338241895,
   666307205, 773529912, 1294757372, 1396182291, 1695183700, 1986661051, 2177026350, 2456956037,
   2730485921, 2820302411, 3259730800, 3345764771, 3516065817, 3600352804, 4094571909, 275423344,
   430227734, 506948616, 659060556, 883997877, 958139571, 1322822218, 1537002063, 1747873779,
   1955562222, 2024104815, 2227730452, 2361852424, 2428436474, 2756734187, 3204031479, 3329325298]"

definition sha_H0 :: "int list" where
  "sha_H0 = [1779033703, 3144134277, 1013904242, 2773480762,
             1359893119, 2600822924, 528734635, 1541459225]"

definition ssig0 :: "int \<Rightarrow> int" where
  "ssig0 x = rotr 7 x XOR rotr 18 x XOR (x div 2 ^ 3)"

definition ssig1 :: "int \<Rightarrow> int" where
  "ssig1 x = rotr 17 x XOR rotr 19 x XOR (x div 2 ^ 10)"

definition bsig0 :: "int \<Rightarrow> int" where
  "bsig0 x = rotr 2 x XOR rotr 13 x XOR rotr 22 x"

definition bsig1 :: "int \<Rightarrow> int" where
  "bsig1 x = rotr 6 x XOR rotr 11 x XOR rotr 25 x"

definition ch :: "int \<Rightarrow> int \<Rightarrow> int \<Rightarrow> int" where
  "ch x y z = (x AND y) XOR ((4294967295 - x) AND z)"

definition maj :: "int \<Rightarrow> int \<Rightarrow> int \<Rightarrow> int" where
  "maj x y z = (x AND y) XOR (x AND z) XOR (y AND z)"

text \<open>The message schedule is kept newest word first; the first argument only counts
  the words still to be added.\<close>

fun extend :: "'a list \<Rightarrow> int list \<Rightarrow> int list" where
  "extend [] ws = ws"
| "extend (u # us) ws =
     extend us (m32 (ssig1 (ws ! 1) + ws ! 6 + ssig0 (ws ! 14) + ws ! 15) # ws)"

fun rounds ::
  "int list \<Rightarrow> int list \<Rightarrow> int \<times> int \<times> int \<times> int \<times> int \<times> int \<times> int \<times> int \<Rightarrow> int list" where
  "rounds [] ws (a, b, c, d, e, f, g, h) = [a, b, c, d, e, f, g, h]"
| "rounds (k # ks) [] (a, b, c, d, e, f, g, h) = [a, b, c, d, e, f, g, h]"
| "rounds (k # ks) (w # ws) (a, b, c, d, e, f, g, h) =
     rounds ks ws
       (m32 (h + bsig1 e + ch e f g + k + w + bsig0 a + maj a b c), a, b, c,
        m32 (d + h + bsig1 e + ch e f g + k + w), e, f, g)"

definition tup8 :: "int list \<Rightarrow> int \<times> int \<times> int \<times> int \<times> int \<times> int \<times> int \<times> int" where
  "tup8 st = (st ! 0, st ! 1, st ! 2, st ! 3, st ! 4, st ! 5, st ! 6, st ! 7)"

fun be32 :: "int list \<Rightarrow> int list" where
  "be32 (a # b # c # d # r) = (((a * 256 + b) * 256 + c) * 256 + d) # be32 r"
| "be32 _ = []"

definition compress :: "int list \<Rightarrow> int list \<Rightarrow> int list" where
  "compress st blk =
     map m32 (map2 (+) st
       (rounds sha_K (rev (extend (drop 16 sha_K) (rev (be32 blk)))) (tup8 st)))"

function sha_blocks :: "int list \<Rightarrow> int list \<Rightarrow> int list" where
  "sha_blocks st bs =
     (if length bs < 64 then st else sha_blocks (compress st (take 64 bs)) (drop 64 bs))"
  by pat_completeness auto
termination
  by (relation "measure (\<lambda>(st, bs). length bs)") auto

definition be64 :: "int \<Rightarrow> int list" where
  "be64 n = map (\<lambda>i. (n div 256 ^ i) mod 256) [7, 6, 5, 4, 3, 2, 1, 0::nat]"

definition sha_pad :: "int list \<Rightarrow> int list" where
  "sha_pad bs =
     bs @ [128] @ replicate ((64 - (length bs + 9) mod 64) mod 64) 0 @ be64 (8 * int (length bs))"

definition hex32 :: "int \<Rightarrow> string" where
  "hex32 w = map (\<lambda>i. ''0123456789abcdef'' ! nat ((w div 16 ^ i) mod 16)) [7, 6, 5, 4, 3, 2, 1, 0::nat]"

text \<open>\<^verbatim>\<open>hashlib.sha256(bs).hexdigest()\<close>\<close>

definition sha256_hexdigest :: "int list \<Rightarrow> string" where
  "sha256_hexdigest bs = concat (map hex32 (sha_blocks sha_H0 (sha_pad bs)))"

text \<open>\<^verbatim>\<open>s.encode("utf-8")\<close> for code points below 256\<close>

definition encode_utf8 :: "string \<Rightarrow> int list" where
  "encode_utf8 s =
     concat (map (\<lambda>c. let n = (of_char c :: int)
                      in if n < 128 then [n] else [192 + n div 64, 128 + n mod 64]) s)"

definition hash_url :: "string \<Rightarrow> exn + string" where
  "hash_url url =
     (case normalize_url url of
        Inl e \<Rightarrow> Inl e
      | Inr normalized \<Rightarrow> Inr (sha256_hexdigest (encode_utf8 normalized)))"


section \<open>The store client (\<^verbatim>\<open>db.py\<close>)\<close>

datatype json =
    JNull
  | JBool bool
  | JNum int
  | JStr string
  | JArr "json list"
  | JObj "(string \<times> json) list"

text \<open>A row of the \<^verbatim>\<open>jobs\<close> table.  A column the insert leaves out is \<open>None\<close>.\<close>

record job_row =
  j_id :: nat
  j_url_hash :: string
  j_url :: string
  j_title :: string
  j_ats_source :: string
  j_first_seen :: nat
  j_last_seen :: nat
  j_is_active :: bool
  j_company_name :: "string option"
  j_company_id :: "string option"
  j_location :: "string option"
  j_description :: "string option"
  j_salary_min :: "int option"
  j_salary_max :: "int option"
  j_remote_type :: "string option"
  j_seniority :: "string option"
  j_platform :: "string option"
  j_category :: "string option"
  j_tags :: "string list option"
  j_easy_apply :: "bool option"
  j_posted_at :: "string option"
  j_raw_data :: "(string \<times> json) list option"

text \<open>A row of the \<^verbatim>\<open>companies\<close> table, as far as the scraper reads and writes it.\<close>

record company =
  c_id :: string
  c_slug :: string
  c_ats :: string
  c_api_url :: "string option"
  c_name :: "string option"
  c_verified :: bool
  c_last_scraped_at :: "nat option"
  c_job_count :: "int option"

record scrape_run =
  r_id :: nat
  r_source :: string
  r_status :: string
  r_started_at :: nat
  r_finished_at :: "nat option"
  r_total_found :: "int option"
  r_new_found :: "int option"
  r_errors :: "int option"

text \<open>
  Everything outside the process except the checkpoint file: the three tables, the module
  globals \<^verbatim>\<open>_client\<close> and \<^verbatim>\<open>_request_count\<close>, and the environment.
  \<^item> \<open>faults\<close> scripts the service: its head decides whether the next \<^verbatim>\<open>execute()\<close>
    succeeds (\<open>None\<close>) or raises an exception whose \<^verbatim>\<open>str\<close> is the given text; a
    request that raises changes no table.  An empty script means no further fault.
  \<^item> \<open>clock\<close> gives the value of each reading of \<^verbatim>\<open>datetime.now\<close>, \<open>ticks\<close> counts
    the readings so far.
  \<^item> \<open>slept\<close> records the calls of \<^verbatim>\<open>time.sleep\<close>.
\<close>

record world =
  jobs :: "job_row list"
  next_job_id :: nat
  companies :: "company list"
  runs :: "scrape_run list"
  faults :: "string option list"
  configured :: bool
  client :: "nat option"
  clients_created :: nat
  request_count :: nat
  clock :: "nat \<Rightarrow> nat"
  ticks :: nat
  slept :: "real list"

definition MAX_REQUESTS_BEFORE_RESET :: nat where
  "MAX_REQUESTS_BEFORE_RESET = 5000"

text \<open>\<^verbatim>\<open>datetime.now(timezone.utc).isoformat()\<close>\<close>

definition now :: "world \<Rightarrow> nat \<times> world" where
  "now w = (clock w (ticks w), w\<lparr>ticks := ticks w + 1\<rparr>)"

definition get_client :: "world \<Rightarrow> (exn + nat) \<times> world" where
  "get_client w =
     (if client w = None \<or> request_count w \<ge> MAX_REQUESTS_BEFORE_RESET
      then (if \<not> configured w
            then (Inl (RuntimeError
                    ''SUPABASE_URL and SUPABASE_SERVICE_KEY must be set. Create a .env file or set environment variables.''), w)
            else (Inr (clients_created w),
                  w\<lparr>client := Some (clients_created w),
                    clients_created := clients_created w + 1,
                    request_count := 1\<rparr>))
      else (case client w of
              Some c \<Rightarrow> (Inr c, w\<lparr>request_count := request_count w + 1\<rparr>)
            | None \<Rightarrow> (Inr 0, w)))"

definition connection_signatures :: "string list" where
  "connection_signatures =
     [''connectionterminated'', ''remoteprotocolerror'',
      ''connectionreset'', ''connectionrefused'', ''broken pipe'']"

definition is_connection_error :: "exn \<Rightarrow> bool" where
  "is_connection_error e = list_ex (\<lambda>k. py_in k (py_lower (str_of e))) connection_signatures"

text \<open>
  \<^verbatim>\<open>_retry(fn, retries, delay)\<close>; the loop variable \<open>attempt\<close> is an argument.  The
  result is \<open>Inr None\<close> where the Python function falls off the end of the loop.
\<close>

function retry_from ::
  "(world \<Rightarrow> (exn + 'a) \<times> world) \<Rightarrow> nat \<Rightarrow> real \<Rightarrow> nat \<Rightarrow> world \<Rightarrow> (exn + 'a option) \<times> world" where
  "retry_from fn retries delay attempt w =
     (if attempt \<ge> retries then (Inr None, w)
      else (case fn w of
              (Inr v, w') \<Rightarrow> (Inr (Some v), w')
            | (Inl e, w') \<Rightarrow>
                if is_connection_error e \<and> attempt < retries - 1
                then retry_from fn retries delay (attempt + 1)
                       (w'\<lparr>slept := slept w' @ [delay * real (attempt + 1)],
                           request_count := MAX_REQUESTS_BEFORE_RESET\<rparr>)
                else (Inl e, w')))"
  by pat_completeness auto
termination
  by (relation "measure (\<lambda>(fn, retries, delay, attempt, w). retries - attempt)") auto

definition retry :: "(world \<Rightarrow> (exn + 'a) \<times> world) \<Rightarrow> (world \<Rightarrow> (exn + 'a option) \<times> world)" where
  "retry fn = retry_from fn 3 1 0"

text \<open>One round trip to the service: \<^verbatim>\<open>get_client()\<close>, then \<^verbatim>\<open>execute()\<close> of a query whose
  effect on the tables and whose rows are given by \<open>q\<close>.\<close>

definition request :: "(world \<Rightarrow> 'a \<times> world) \<Rightarrow> world \<Rightarrow> (exn + 'a) \<times> world" where
  "request q w =
     (case get_client w of
        (Inl e, w1) \<Rightarrow> (Inl e, w1)
      | (Inr c, w1) \<Rightarrow>
          (case faults w1 of
             Some m # fs \<Rightarrow> (Inl (Exception m), w1\<lparr>faults := fs\<rparr>)
           | None # fs \<Rightarrow> (case q (w1\<lparr>faults := fs\<rparr>) of (v, w2) \<Rightarrow> (Inr v, w2))
           | [] \<Rightarrow> (case q w1 of (v, w2) \<Rightarrow> (Inr v, w2))))"

text \<open>\<^verbatim>\<open>table("jobs").select("id").eq("url_hash", url_h)\<close>\<close>

definition select_job_ids :: "string \<Rightarrow> world \<Rightarrow> nat list \<times> world" where
  "select_job_ids url_h w = (map j_id (filter (\<lambda>r. j_url_hash r = url_h) (jobs w)), w)"

text \<open>\<^verbatim>\<open>table("jobs").insert(row)\<close>: the service assigns the id and returns the new row.\<close>

definition insert_job :: "job_row \<Rightarrow> world \<Rightarrow> job_row list \<times> world" where
  "insert_job row w =
     (let r = row\<lparr>j_id := next_job_id w\<rparr>
      in ([r], w\<lparr>jobs := jobs w @ [r], next_job_id := next_job_id w + 1\<rparr>))"

text \<open>The dictionary \<^verbatim>\<open>updates\<close> of \<^verbatim>\<open>upsert_job\<close>; \<open>None\<close> is a key that is not set.\<close>

record job_updates =
  u_last_seen :: nat
  u_is_active :: bool
  u_company_id :: "string option"
  u_salary_min :: "int option"
  u_salary_max :: "int option"

definition apply_updates :: "job_updates \<Rightarrow> job_row \<Rightarrow> job_row" where
  "apply_updates u r =
     r\<lparr>j_last_seen := u_last_seen u,
       j_is_active := u_is_active u,
       j_company_id := (case u_company_id u of Some c \<Rightarrow> Some c | None \<Rightarrow> j_company_id r),
       j_salary_min := (case u_salary_min u of Some c \<Rightarrow> Some c | None \<Rightarrow> j_salary_min r),
       j_salary_max := (case u_salary_max u of Some c \<Rightarrow> Some c | None \<Rightarrow> j_salary_max r)\<rparr>"

text \<open>\<^verbatim>\<open>table("jobs").update(updates).eq("id", job_id)\<close>: returns the updated rows.\<close>

definition update_job :: "job_updates \<Rightarrow> nat \<Rightarrow> world \<Rightarrow> job_row list \<times> world" where
  "update_job u job_id w =
     (let js = map (\<lambda>r. if j_id r = job_id then apply_updates u r else r) (jobs w)
      in (filter (\<lambda>r. j_id r = job_id) js, w\<lparr>jobs := js\<rparr>))"

text \<open>The arguments of \<^verbatim>\<open>upsert_job\<close>.\<close>

record job_args =
  a_url :: string
  a_title :: string
  a_ats_source :: string
  a_company_name :: "string option"
  a_company_id :: "string option"
  a_location :: "string option"
  a_description :: "string option"
  a_salary_min :: "int option"
  a_salary_max :: "int option"
  a_remote_type :: "string option"
  a_seniority :: "string option"
  a_platform :: "string option"
  a_category :: "string option"
  a_tags :: "string list option"
  a_easy_apply :: bool
  a_posted_at :: "string option"
  a_raw_data :: "(string \<times> json) list option"

text \<open>Python truth of an optional string or list: neither \<^verbatim>\<open>None\<close> nor empty.\<close>

fun truthy :: "'a list option \<Rightarrow> 'a list option" where
  "truthy None = None"
| "truthy (Some []) = None"
| "truthy (Some (x # xs)) = Some (x # xs)"

definition new_row :: "job_args \<Rightarrow> string \<Rightarrow> nat \<Rightarrow> job_row" where
  "new_row a url_h t =
     \<lparr>j_id = 0,
      j_url_hash = url_h,
      j_url = py_strip (a_url a),
      j_title = py_strip (a_title a),
      j_ats_source = py_strip (py_lower (a_ats_source a)),
      j_first_seen = t,
      j_last_seen = t,
      j_is_active = True,
      j_company_name = map_option py_strip (truthy (a_company_name a)),
      j_company_id = truthy (a_company_id a),
      j_location = map_option py_strip (truthy (a_location a)),
      j_description = map_option (\<lambda>d. py_strip (take 500 d)) (truthy (a_description a)),
      j_salary_min = a_salary_min a,
      j_salary_max = a_salary_max a,
      j_remote_type =
        (case truthy (a_remote_type a) of
           Some r \<Rightarrow> if r \<in> set [''remote'', ''onsite'', ''hybrid'', ''unknown''] then Some r else None
         | None \<Rightarrow> None),
      j_seniority = truthy (a_seniority a),
      j_platform = truthy (a_platform a),
      j_category = truthy (a_category a),
      j_tags = truthy (a_tags a),
      j_easy_apply = (if a_easy_apply a then Some True else None),
      j_posted_at = truthy (a_posted_at a),
      j_raw_data = truthy (a_raw_data a)\<rparr>"

definition new_updates :: "job_args \<Rightarrow> nat \<Rightarrow> job_updates" where
  "new_updates a t =
     \<lparr>u_last_seen = t,
      u_is_active = True,
      u_company_id = truthy (a_company_id a),
      u_salary_min = a_salary_min a,
      u_salary_max = a_salary_max a\<rparr>"

text \<open>\<^verbatim>\<open>result.data[0] if result.data else None\<close>\<close>

definition first_row :: "'a list option \<Rightarrow> 'a option" where
  "first_row res = (case res of Some (r # rs) \<Rightarrow> Some r | _ \<Rightarrow> None)"

text \<open>
  \<^verbatim>\<open>upsert_job\<close>.  \<open>Inl\<close> is an exception that leaves the function: from \<^verbatim>\<open>hash_url\<close>, or from
  the lookup, which is outside the two \<^verbatim>\<open>try\<close> blocks.  An exception of the insert or of
  the update is caught there and becomes the result \<^verbatim>\<open>(None, False)\<close>.
\<close>

definition upsert_job :: "job_args \<Rightarrow> world \<Rightarrow> (exn + job_row option \<times> bool) \<times> world" where
  "upsert_job a w0 =
     (case hash_url (a_url a) of
        Inl e \<Rightarrow> (Inl e, w0)
      | Inr url_h \<Rightarrow>
          (case now w0 of (t, w1) \<Rightarrow>
             (case retry (request (select_job_ids url_h)) w1 of
                (Inl e, w2) \<Rightarrow> (Inl e, w2)
              | (Inr None, w2) \<Rightarrow> (Inl (Exception ''AttributeError''), w2)
              | (Inr (Some existing), w2) \<Rightarrow>
                  (case existing of
                     [] \<Rightarrow>
                       (case retry (request (insert_job (new_row a url_h t))) w2 of
                          (Inr res, w3) \<Rightarrow> (Inr (first_row res, True), w3)
                        | (Inl e, w3) \<Rightarrow> (Inr (None, False), w3))
                   | job_id # ids \<Rightarrow>
                       (case retry (request (update_job (new_updates a t) job_id)) w2 of
                          (Inr res, w3) \<Rightarrow> (Inr (first_row res, False), w3)
                        | (Inl e, w3) \<Rightarrow> (Inr (None, False), w3))))))"


text \<open>\<^verbatim>\<open>get_verified_companies(ats)\<close>; its exceptions are not caught.\<close>

definition verified_companies :: "string option \<Rightarrow> world \<Rightarrow> company list" where
  "verified_companies ats w =
     filter (\<lambda>c. c_verified c \<and> c_api_url c \<noteq> None
                 \<and> (case truthy ats of Some a \<Rightarrow> c_ats c = py_lower a | None \<Rightarrow> True))
       (companies w)"

definition get_verified_companies :: "string option \<Rightarrow> world \<Rightarrow> (exn + company list) \<times> world" where
  "get_verified_companies ats = request (\<lambda>w. (verified_companies ats w, w))"

text \<open>\<^verbatim>\<open>update_company(company_id, updates)\<close> with the three fields the scraper refreshes;
  every exception is caught and logged.\<close>

definition update_company :: "string \<Rightarrow> nat \<Rightarrow> int \<Rightarrow> world \<Rightarrow> world" where
  "update_company company_id t n w =
     snd (request (\<lambda>w'.
       ((), w'\<lparr>companies :=
                 map (\<lambda>c. if c_id c = company_id
                          then c\<lparr>c_last_scraped_at := Some t, c_job_count := Some n, c_verified := True\<rparr>
                          else c) (companies w')\<rparr>)) w)"

text \<open>\<^verbatim>\<open>get_job_count(active_only=False)\<close>; its exceptions are not caught.\<close>

definition get_job_count :: "world \<Rightarrow> (exn + nat) \<times> world" where
  "get_job_count = request (\<lambda>w. (length (jobs w), w))"

text \<open>\<^verbatim>\<open>start_scrape_run(source, config=...)\<close>: the new run's id; its exceptions are not
  caught.  The \<^verbatim>\<open>config\<close> column is left out of the model.\<close>

definition start_scrape_run :: "string \<Rightarrow> world \<Rightarrow> (exn + nat) \<times> world" where
  "start_scrape_run source w0 =
     (case now w0 of (t, w1) \<Rightarrow>
        request (\<lambda>w.
          (length (runs w),
           w\<lparr>runs := runs w @
               [\<lparr>r_id = length (runs w), r_source = source, r_status = ''running'',
                 r_started_at = t, r_finished_at = None, r_total_found = None,
                 r_new_found = None, r_errors = None\<rparr>]\<rparr>)) w1)"

text \<open>\<^verbatim>\<open>finish_scrape_run(run_id, total_found, new_found, errors, status)\<close>; every
  exception is caught and logged.\<close>

definition finish_scrape_run :: "nat \<Rightarrow> int \<Rightarrow> int \<Rightarrow> int \<Rightarrow> string \<Rightarrow> world \<Rightarrow> world" where
  "finish_scrape_run run_id total_found new_found errs status w =
     snd (request (\<lambda>w'.
       (case now w' of (t, w'') \<Rightarrow>
         ((), w''\<lparr>runs :=
                   map (\<lambda>r. if r_id r = run_id
                            then r\<lparr>r_total_found := Some total_found, r_new_found := Some new_found,
                                  r_errors := Some errs, r_status := status,
                                  r_finished_at := Some t\<rparr>
                            else r) (runs w'')\<rparr>))) w)"

section \<open>The scraper (\<^verbatim>\<open>ats_scraper.py\<close>)\<close>

subsection \<open>Checkpoint file\<close>

record checkpoint =
  ck_completed_ids :: "string set"
  ck_run_id :: "nat option"
  ck_total_jobs :: int
  ck_new_jobs :: int
  ck_errors :: int
  ck_updated_at :: nat

text \<open>
  The file is absent, holds a checkpoint, or holds something \<^verbatim>\<open>json.load\<close> rejects.
  \<open>disk_events\<close> scripts the file system: its head decides the next write or unlink.
  \<open>OpenFails\<close> is an \<^verbatim>\<open>OSError\<close> of \<^verbatim>\<open>open\<close>, which leaves the file as it was;
  \<open>WriteFails\<close> is an \<^verbatim>\<open>OSError\<close> after \<^verbatim>\<open>open(..., "w")\<close> has truncated the file.
\<close>

datatype ckfile = Absent | Unreadable | Stored checkpoint

datatype disk_event = Succeeds | OpenFails | WriteFails

record disk =
  on_disk :: ckfile
  disk_events :: "disk_event list"

text \<open>\<open>None\<close> is the empty dictionary \<^verbatim>\<open>{}\<close>.\<close>

definition load_checkpoint :: "disk \<Rightarrow> checkpoint option" where
  "load_checkpoint d = (case on_disk d of Stored c \<Rightarrow> Some c | Unreadable \<Rightarrow> None | Absent \<Rightarrow> None)"

definition save_checkpoint :: "checkpoint \<Rightarrow> disk \<Rightarrow> disk" where
  "save_checkpoint c d =
     (case disk_events d of
        [] \<Rightarrow> d\<lparr>on_disk := Stored c\<rparr>
      | Succeeds # es \<Rightarrow> \<lparr>on_disk = Stored c, disk_events = es\<rparr>
      | OpenFails # es \<Rightarrow> \<lparr>on_disk = on_disk d, disk_events = es\<rparr>
      | WriteFails # es \<Rightarrow> \<lparr>on_disk = Unreadable, disk_events = es\<rparr>)"

definition clear_checkpoint :: "disk \<Rightarrow> disk" where
  "clear_checkpoint d =
     (case disk_events d of
        [] \<Rightarrow> d\<lparr>on_disk := Absent\<rparr>
      | Succeeds # es \<Rightarrow> \<lparr>on_disk = Absent, disk_events = es\<rparr>
      | OpenFails # es \<Rightarrow> \<lparr>on_disk = on_disk d, disk_events = es\<rparr>
      | WriteFails # es \<Rightarrow> \<lparr>on_disk = on_disk d, disk_events = es\<rparr>)"

subsection \<open>Fetching one company\<close>

record parsed_job =
  pj_url :: string
  pj_title :: string
  pj_location :: "string option"
  pj_description :: "string option"
  pj_salary_min :: "int option"
  pj_salary_max :: "int option"
  pj_salary_currency :: string
  pj_remote_type :: string
  pj_seniority :: "string option"
  pj_category :: "string option"
  pj_tags :: "string list"
  pj_posted_at :: "string option"
  pj_raw_data :: "(string \<times> json) list"

definition PARSERS :: "string list" where
  "PARSERS = [''greenhouse'', ''lever'', ''ashby'', ''workable'', ''smartrecruiters'',
     ''recruitee'', ''dover'', ''breezy'', ''bamboohr'', ''teamtailor'', ''pinpoint'',
     ''rippling'', ''personio'', ''freshteam'']"

text \<open>
  What the network does with a GET: the request raises, or a response arrives with a
  status; reading its body with \<^verbatim>\<open>resp.json(content_type=None)\<close> gives the decoded
  document or raises.
\<close>

datatype body = Decoded json | BodyRaises exn

datatype get_outcome = Responds nat body | Raises exn

function str_nat :: "nat \<Rightarrow> string" where
  "str_nat n = (if n < 10 then [char_of (48 + n)] else str_nat (n div 10) @ [char_of (48 + n mod 10)])"
  by pat_completeness auto
termination
  by (relation "measure (\<lambda>n. n)") auto

text \<open>The three \<^verbatim>\<open>except\<close> clauses around the request, in their order.\<close>

fun fetch_error :: "exn \<Rightarrow> string" where
  "fetch_error TimeoutError = ''timeout''"
| "fetch_error (ClientError m) = ''connection error: '' @ m"
| "fetch_error e = ''unexpected error: '' @ str_of e"

text \<open>The tuple \<^verbatim>\<open>(company_id, slug, parsed_jobs, error_message)\<close>.\<close>

record fetched =
  f_company_id :: string
  f_slug :: string
  f_jobs :: "parsed_job list"
  f_error :: "string option"

text \<open>
  \<^verbatim>\<open>scrape_company\<close>.  \<open>net\<close> answers a GET of a URL, \<open>parse_jobs\<close> is the adapter of each
  source type (\<^verbatim>\<open>PARSERS[ats].parse_jobs\<close>).  The second component lists the URLs
  requested.
\<close>

definition scrape_company ::
  "(string \<Rightarrow> get_outcome) \<Rightarrow> (string \<Rightarrow> json \<Rightarrow> string \<Rightarrow> exn + parsed_job list) \<Rightarrow> company
     \<Rightarrow> fetched \<times> string list" where
  "scrape_company net parse_jobs company =
     (let res = (\<lambda>js err. \<lparr>f_company_id = c_id company, f_slug = c_slug company,
                           f_jobs = js, f_error = err\<rparr>)
      in case truthy (c_api_url company) of
           None \<Rightarrow> (res [] (Some ''no api_url''), [])
         | Some api_url \<Rightarrow>
             if c_ats company \<notin> set PARSERS
             then (res [] (Some (''no parser for '' @ c_ats company)), [])
             else
               (case net api_url of
                  Raises e \<Rightarrow> res [] (Some (fetch_error e))
                | Responds status b \<Rightarrow>
                    if status = 200 then
                      (case b of
                         BodyRaises e \<Rightarrow> res [] (Some (''json decode error: '' @ str_of e))
                       | Decoded data \<Rightarrow>
                           (case parse_jobs (c_ats company) data (c_slug company) of
                              Inl e \<Rightarrow> res [] (Some (fetch_error e))
                            | Inr js \<Rightarrow> res js None))
                    else if status = 404 then res [] None
                    else if status = 429 then res [] (Some ''rate limited (429)'')
                    else res [] (Some (''HTTP '' @ str_nat status)),
                [api_url]))"

subsection \<open>Applying the results\<close>

text \<open>The counters and the set that the loop of \<^verbatim>\<open>run_scraper\<close> updates.\<close>

record progress =
  completed_ids :: "string set"
  total_jobs :: int
  new_jobs :: int
  error_count :: int
  companies_with_jobs :: int

definition checkpoint_of :: "progress \<Rightarrow> nat option \<Rightarrow> nat \<Rightarrow> checkpoint" where
  "checkpoint_of p run_id t =
     \<lparr>ck_completed_ids = completed_ids p, ck_run_id = run_id, ck_total_jobs = total_jobs p,
      ck_new_jobs = new_jobs p, ck_errors = error_count p, ck_updated_at = t\<rparr>"

text \<open>The keyword arguments of the call of \<^verbatim>\<open>db.upsert_job\<close>.\<close>

definition job_args_of :: "string \<Rightarrow> string option \<Rightarrow> string \<Rightarrow> parsed_job \<Rightarrow> job_args" where
  "job_args_of ats_source company_name company_id job =
     \<lparr>a_url = pj_url job, a_title = pj_title job, a_ats_source = ats_source,
      a_company_name = company_name, a_company_id = Some company_id,
      a_location = pj_location job, a_description = pj_description job,
      a_salary_min = pj_salary_min job, a_salary_max = pj_salary_max job,
      a_remote_type = Some (pj_remote_type job), a_seniority = pj_seniority job,
      a_platform = None, a_category = pj_category job, a_tags = Some (pj_tags job),
      a_easy_apply = False, a_posted_at = pj_posted_at job,
      a_raw_data = Some (pj_raw_data job)\<rparr>"

text \<open>The inner loop over the jobs of one company: the exception that ended it, if any,
  and the value of \<^verbatim>\<open>new_jobs\<close> reached.\<close>

fun upsert_all :: "job_args list \<Rightarrow> int \<Rightarrow> world \<Rightarrow> (exn option \<times> int) \<times> world" where
  "upsert_all [] nj w = ((None, nj), w)"
| "upsert_all (a # as) nj w =
     (case upsert_job a w of
        (Inl e, w') \<Rightarrow> ((Some e, nj), w')
      | (Inr (row, is_new), w') \<Rightarrow> upsert_all as (if is_new then nj + 1 else nj) w')"

text \<open>The \<^verbatim>\<open>try\<close> block of the loop and its handler, for a company whose jobs are written.
  \<open>p1\<close> holds the counters as they stand when the block is entered.\<close>

definition write_jobs ::
  "nat option \<Rightarrow> fetched \<Rightarrow> job_args list \<Rightarrow> progress \<Rightarrow> world \<Rightarrow> disk
     \<Rightarrow> exn option \<times> progress \<times> world \<times> disk" where
  "write_jobs run_id r args p1 w d =
     (case upsert_all args (new_jobs p1) w of
        ((Some e, nj), w1) \<Rightarrow>
          (let p2 = p1\<lparr>new_jobs := nj, error_count := error_count p1 + 1\<rparr>
           in case now w1 of (t, w2) \<Rightarrow>
                (Some e, p2, w2, save_checkpoint (checkpoint_of p2 run_id t) d))
      | ((None, nj), w1) \<Rightarrow>
          (case now w1 of (t, w2) \<Rightarrow>
             (let w3 = update_company (f_company_id r) t (int (length (f_jobs r))) w2;
                  p2 = p1\<lparr>new_jobs := nj,
                          completed_ids := insert (f_company_id r) (completed_ids p1)\<rparr>
              in if card (completed_ids p2) mod 10 = 0
                 then (case now w3 of (t', w4) \<Rightarrow>
                         (None, p2, w4, save_checkpoint (checkpoint_of p2 run_id t') d))
                 else (None, p2, w3, d))))"

text \<open>The counters once a result with jobs has been taken up.\<close>

definition entered :: "progress \<Rightarrow> fetched \<Rightarrow> progress" where
  "entered p r = p\<lparr>companies_with_jobs := companies_with_jobs p + 1,
                   total_jobs := total_jobs p + int (length (f_jobs r))\<rparr>"

text \<open>One iteration of the loop over \<^verbatim>\<open>results\<close>.  The first component is the exception
  that the handler re-raises, if any.\<close>

definition apply_result ::
  "bool \<Rightarrow> company list \<Rightarrow> nat option \<Rightarrow> fetched \<Rightarrow> progress \<Rightarrow> world \<Rightarrow> disk
     \<Rightarrow> exn option \<times> progress \<times> world \<times> disk" where
  "apply_result dry_run remaining run_id r p w d =
     (if truthy (f_error r) \<noteq> None
      then (None, p\<lparr>error_count := error_count p + 1,
                    completed_ids := insert (f_company_id r) (completed_ids p)\<rparr>, w, d)
      else if f_jobs r = []
      then (None, p\<lparr>completed_ids := insert (f_company_id r) (completed_ids p)\<rparr>, w, d)
      else
        (let p1 = entered p r;
             company_info = find (\<lambda>c. c_id c = f_company_id r) remaining;
             company_name = (case company_info of Some c \<Rightarrow> c_name c | None \<Rightarrow> None);
             ats_source = (case company_info of Some c \<Rightarrow> c_ats c | None \<Rightarrow> ''unknown'')
         in if dry_run
            then (None, p1\<lparr>new_jobs := new_jobs p1 + int (length (f_jobs r)),
                           completed_ids := insert (f_company_id r) (completed_ids p1)\<rparr>, w, d)
            else write_jobs run_id r
                   (map (job_args_of ats_source company_name (f_company_id r)) (f_jobs r)) p1 w d))"

fun apply_results ::
  "bool \<Rightarrow> company list \<Rightarrow> nat option \<Rightarrow> fetched list \<Rightarrow> progress \<Rightarrow> world \<Rightarrow> disk
     \<Rightarrow> exn option \<times> progress \<times> world \<times> disk" where
  "apply_results dry_run remaining run_id [] p w d = (None, p, w, d)"
| "apply_results dry_run remaining run_id (r # rs) p w d =
     (case apply_result dry_run remaining run_id r p w d of
        (Some e, p', w', d') \<Rightarrow> (Some e, p', w', d')
      | (None, p', w', d') \<Rightarrow> apply_results dry_run remaining run_id rs p' w' d')"

subsection \<open>The run\<close>

record invocation =
  ats_filter :: "string option"
  company_filter :: "string option"
  limit :: "int option"
  dry_run :: bool
  resume :: bool
  fresh :: bool

text \<open>\<^verbatim>\<open>companies[:limit]\<close>\<close>

definition py_take :: "int \<Rightarrow> 'a list \<Rightarrow> 'a list" where
  "py_take n xs = (if n \<ge> 0 then take (nat n) xs else take (length xs - nat (- n)) xs)"

text \<open>How the coroutine ends: it returns early for want of companies, it runs to the end,
  or an exception leaves it.\<close>

datatype outcome = NothingToScrape | Finished | Raised exn

text \<open>The state in which the loop over the results starts: from the checkpoint on
  \<^verbatim>\<open>--resume\<close>, from zero otherwise and always on \<^verbatim>\<open>--fresh\<close>.\<close>

definition initial_progress :: "invocation \<Rightarrow> disk \<Rightarrow> progress \<times> nat option" where
  "initial_progress opts d =
     (case (if resume opts \<and> \<not> fresh opts then load_checkpoint d else None) of
        Some c \<Rightarrow>
          if fresh opts
          then (\<lparr>completed_ids = {}, total_jobs = 0, new_jobs = 0, error_count = 0,
                 companies_with_jobs = 0\<rparr>, None)
          else (\<lparr>completed_ids = ck_completed_ids c, total_jobs = ck_total_jobs c,
                 new_jobs = ck_new_jobs c, error_count = ck_errors c,
                 companies_with_jobs = 0\<rparr>, ck_run_id c)
      | None \<Rightarrow>
          (\<lparr>completed_ids = {}, total_jobs = 0, new_jobs = 0, error_count = 0,
            companies_with_jobs = 0\<rparr>, None))"

text \<open>The company filter and the limit applied to the companies read from the store.\<close>

definition select_companies :: "invocation \<Rightarrow> company list \<Rightarrow> company list" where
  "select_companies opts cs0 =
     (let cs1 = (case truthy (company_filter opts) of
                   Some f \<Rightarrow> filter (\<lambda>c. c_slug c = py_lower f) cs0
                 | None \<Rightarrow> cs0)
      in case limit opts of
           Some n \<Rightarrow> if n \<noteq> 0 then py_take n cs1 else cs1
         | None \<Rightarrow> cs1)"

text \<open>The run log is started unless this is a dry run or the checkpoint brought a run id.\<close>

definition open_run :: "invocation \<Rightarrow> nat option \<Rightarrow> world \<Rightarrow> (exn + nat option) \<times> world" where
  "open_run opts run_id0 w =
     (if \<not> dry_run opts \<and> run_id0 = None
      then (case start_scrape_run ''ats_scraper'' w of
              (Inl e, w') \<Rightarrow> (Inl e, w')
            | (Inr i, w') \<Rightarrow> (Inr (Some i), w'))
      else (Inr run_id0, w))"

text \<open>What follows the loop when no exception left it: the job count for the summary,
  the end of the run log, and the removal of the checkpoint.\<close>

definition close_run ::
  "invocation \<Rightarrow> nat option \<Rightarrow> progress \<Rightarrow> world \<Rightarrow> disk \<Rightarrow> outcome \<times> world \<times> disk" where
  "close_run opts run_id p w d =
     (case (if \<not> dry_run opts then get_job_count w else (Inr 0, w)) of
        (Inl e, w') \<Rightarrow> (Raised e, w', d)
      | (Inr n, w') \<Rightarrow>
          (Finished,
           (case run_id of
              Some i \<Rightarrow>
                if \<not> dry_run opts
                then finish_scrape_run i (total_jobs p) (new_jobs p) (error_count p) ''completed'' w'
                else w'
            | None \<Rightarrow> w'),
           clear_checkpoint d))"

text \<open>
  \<^verbatim>\<open>run_scraper\<close>: how it ends, the final counters, the URLs requested from the
  network, and the final world and disk.
\<close>

definition run_scraper ::
  "invocation \<Rightarrow> (string \<Rightarrow> get_outcome) \<Rightarrow> (string \<Rightarrow> json \<Rightarrow> string \<Rightarrow> exn + parsed_job list)
     \<Rightarrow> world \<Rightarrow> disk \<Rightarrow> outcome \<times> progress \<times> string list \<times> world \<times> disk" where
  "run_scraper opts net parse_jobs w0 d0 =
     (case initial_progress opts d0 of (p0, run_id0) \<Rightarrow>
      let d1 = (if fresh opts then clear_checkpoint d0 else d0)
      in case get_verified_companies (ats_filter opts) w0 of
           (Inl e, w1) \<Rightarrow> (Raised e, p0, [], w1, d1)
         | (Inr cs0, w1) \<Rightarrow>
             if select_companies opts cs0 = [] then (NothingToScrape, p0, [], w1, d1)
             else
               let remaining = filter (\<lambda>c. c_id c \<notin> completed_ids p0) (select_companies opts cs0)
               in case open_run opts run_id0 w1 of
                    (Inl e, w2) \<Rightarrow> (Raised e, p0, [], w2, d1)
                  | (Inr run_id, w2) \<Rightarrow>
                      let fetches = map (scrape_company net parse_jobs) remaining;
                          requested = concat (map snd fetches)
                      in case apply_results (dry_run opts) remaining run_id (map fst fetches) p0 w2 d1 of
                           (Some e, p, w3, d2) \<Rightarrow> (Raised e, p, requested, w3, d2)
                         | (None, p, w3, d2) \<Rightarrow>
                             (case close_run opts run_id p w3 d2 of
                                (res, w4, d3) \<Rightarrow> (res, p, requested, w4, d3)))"

text \<open>The components of the loop's result, by name.\<close>

definition raised_of :: "exn option \<times> progress \<times> world \<times> disk \<Rightarrow> exn option" where
  "raised_of x = fst x"

definition progress_of :: "exn option \<times> progress \<times> world \<times> disk \<Rightarrow> progress" where
  "progress_of x = fst (snd x)"

definition world_of :: "exn option \<times> progress \<times> world \<times> disk \<Rightarrow> world" where
  "world_of x = fst (snd (snd x))"

definition disk_of :: "exn option \<times> progress \<times> world \<times> disk \<Rightarrow> disk" where
  "disk_of x = snd (snd (snd x))"

text \<open>The components of the run's result, by name.\<close>

definition outcome_of :: "outcome \<times> progress \<times> string list \<times> world \<times> disk \<Rightarrow> outcome" where
  "outcome_of x = fst x"

definition final_progress :: "outcome \<times> progress \<times> string list \<times> world \<times> disk \<Rightarrow> progress" where
  "final_progress x = fst (snd x)"

definition requested_urls :: "outcome \<times> progress \<times> string list \<times> world \<times> disk \<Rightarrow> string list" where
  "requested_urls x = fst (snd (snd x))"

definition final_world :: "outcome \<times> progress \<times> string list \<times> world \<times> disk \<Rightarrow> world" where
  "final_world x = fst (snd (snd (snd x)))"

definition final_disk :: "outcome \<times> progress \<times> string list \<times> world \<times> disk \<Rightarrow> disk" where
  "final_disk x = snd (snd (snd (snd x)))"

text \<open>The checkpoint on disk lags behind the loop: whatever it lists as completed is
  completed, and its counters are not ahead.\<close>

definition disk_lags :: "progress \<Rightarrow> disk \<Rightarrow> bool" where
  "disk_lags p d =
     (case on_disk d of
        Stored c \<Rightarrow> ck_completed_ids c \<subseteq> completed_ids p \<and> ck_total_jobs c \<le> total_jobs p
                    \<and> ck_new_jobs c \<le> new_jobs p \<and> ck_errors c \<le> error_count p
      | Unreadable \<Rightarrow> True
      | Absent \<Rightarrow> True)"

text \<open>What a list of results adds to the counters when the loop goes through all of it:
  the jobs of the results without error, and one error for each result with one.\<close>

definition jobs_found :: "fetched list \<Rightarrow> int" where
  "jobs_found rs =
     sum_list (map (\<lambda>r. if truthy (f_error r) = None then int (length (f_jobs r)) else 0) rs)"

definition errors_found :: "fetched list \<Rightarrow> int" where
  "errors_found rs = int (length (filter (\<lambda>r. truthy (f_error r) \<noteq> None) rs))"

text \<open>The same record applied \<open>n\<close> times in a row: the results in order, and the world
  reached.\<close>

fun upsert_times :: "nat \<Rightarrow> job_args \<Rightarrow> world \<Rightarrow> (exn + job_row option \<times> bool) list \<times> world" where
  "upsert_times 0 a w = ([], w)"
| "upsert_times (Suc n) a w =
     (case upsert_job a w of
        (r, w') \<Rightarrow> (case upsert_times n a w' of (rs, w'') \<Rightarrow> (r # rs, w'')))"

text \<open>The row that the first application of \<open>a\<close> in the world \<open>w\<close> stores under the key
  \<open>k\<close>, as it stands after \<open>i\<close> further applications of \<open>a\<close>: only \<^verbatim>\<open>last_seen\<close> moves, to
  the clock reading of the latest application.\<close>

definition stored_row :: "job_args \<Rightarrow> string \<Rightarrow> world \<Rightarrow> nat \<Rightarrow> job_row" where
  "stored_row a k w i =
     (new_row a k (clock w (ticks w)))\<lparr>j_id := next_job_id w, j_last_seen := clock w (ticks w + i)\<rparr>"

text \<open>The world left by applying records in turn, whatever each application returned.\<close>

fun after_upserts :: "job_args list \<Rightarrow> world \<Rightarrow> world" where
  "after_upserts [] w = w"
| "after_upserts (a # as) w = after_upserts as (snd (upsert_job a w))"

text \<open>
  The fault script as \<^verbatim>\<open>_retry\<close> consumes it for one request with \<open>k\<close> attempts left: the
  script that remains when the request is answered, \<open>None\<close> when it fails for good (an error
  that is no connection fault, or a connection fault on the last attempt).
\<close>

fun settle_from :: "nat \<Rightarrow> string option list \<Rightarrow> string option list option" where
  "settle_from 0 fs = None"
| "settle_from (Suc k) [] = Some []"
| "settle_from (Suc k) (None # fs) = Some fs"
| "settle_from (Suc k) (Some m # fs) =
     (if is_connection_error (Exception m) then settle_from k fs else None)"

definition settle :: "string option list \<Rightarrow> string option list option" where
  "settle = settle_from 3"

text \<open>The service answers each of the next \<open>n\<close> requests within the three attempts.\<close>

fun answered :: "nat \<Rightarrow> string option list \<Rightarrow> bool" where
  "answered 0 fs = True"
| "answered (Suc n) fs = (case settle fs of None \<Rightarrow> False | Some fs' \<Rightarrow> answered n fs')"

subsection \<open>Ordinary URLs\<close>








section \<open>Example inputs\<close>

text \<open>Concrete worlds, targets and network behaviours on which the model is run below.\<close>

definition clock0 :: "nat \<Rightarrow> nat" where
  "clock0 i = 100 + i"

definition world0 :: world where
  "world0 =
     \<lparr>jobs = [], next_job_id = 1, companies = [], runs = [], faults = [], configured = True,
      client = None, clients_created = 0, request_count = 0, clock = clock0, ticks = 0,
      slept = []\<rparr>"

definition disk0 :: disk where
  "disk0 = \<lparr>on_disk = Absent, disk_events = []\<rparr>"

definition progress0 :: progress where
  "progress0 =
     \<lparr>completed_ids = {}, total_jobs = 0, new_jobs = 0, error_count = 0, companies_with_jobs = 0\<rparr>"

definition board_url :: "string \<Rightarrow> string" where
  "board_url i = ''https://boards-api.greenhouse.io/v1/boards/co-'' @ i @ ''/jobs''"

definition target :: "string \<Rightarrow> company" where
  "target i =
     \<lparr>c_id = i, c_slug = ''co-'' @ i, c_ats = ''greenhouse'', c_api_url = Some (board_url i),
      c_name = Some (''Company '' @ i), c_verified = True, c_last_scraped_at = None,
      c_job_count = None\<rparr>"

definition ten_targets :: "company list" where
  "ten_targets = map target [''c01'', ''c02'', ''c03'', ''c04'', ''c05'', ''c06'', ''c07'', ''c08'', ''c09'', ''c10'']"

definition job1 :: parsed_job where
  "job1 =
     \<lparr>pj_url = ''https://boards.greenhouse.io/co-c05/jobs/1'', pj_title = ''Engineer'',
      pj_location = Some ''Berlin'', pj_description = None, pj_salary_min = None,
      pj_salary_max = None, pj_salary_currency = ''USD'', pj_remote_type = ''unknown'',
      pj_seniority = None, pj_category = None, pj_tags = [], pj_posted_at = None,
      pj_raw_data = []\<rparr>"

definition adapter1 :: "string \<Rightarrow> json \<Rightarrow> string \<Rightarrow> exn + parsed_job list" where
  "adapter1 ats data slug = Inr [job1]"

text \<open>Every board answers 404, but the board of company 5, which answers 200.\<close>

definition net_fifth :: "string \<Rightarrow> get_outcome" where
  "net_fifth u = (if u = board_url ''c05'' then Responds 200 (Decoded (JObj [])) else Responds 404 (Decoded JNull))"

text \<open>Companies that the fetch stage cannot query: the endpoint is null, the endpoint is
  the empty string, the source type has no adapter.\<close>

definition null_endpoint :: company where
  "null_endpoint = (target ''c01'')\<lparr>c_api_url := None\<rparr>"

definition blank_endpoint :: company where
  "blank_endpoint = (target ''c02'')\<lparr>c_api_url := Some []\<rparr>"

definition no_adapter :: company where
  "no_adapter = (target ''c03'')\<lparr>c_ats := ''workday''\<rparr>"

text \<open>A board that answers 200 and then stalls until the total timeout ends the read of
  the body.\<close>

definition net_stalled :: "string \<Rightarrow> get_outcome" where
  "net_stalled u = Responds 200 (BodyRaises TimeoutError)"

text \<open>A service that drops the connection three times and would answer the fourth
  request.\<close>

definition world_flaky :: world where
  "world_flaky =
     world0\<lparr>faults := [Some ''[Errno 32] Broken pipe'', Some ''ConnectionReset by peer'',
                        Some ''[Errno 32] Broken pipe'', None]\<rparr>"

text \<open>A service that rejects one request for a reason that is no connection fault.\<close>

definition world_rejecting :: world where
  "world_rejecting = world0\<lparr>faults := [Some ''permission denied for table jobs'']\<rparr>"

text \<open>The arguments with which the loop applies \<open>job1\<close> for company \<open>c05\<close>.\<close>

definition args1 :: job_args where
  "args1 = job_args_of ''greenhouse'' (Some ''Company c05'') ''c05'' job1"

text \<open>The same posting seen again under a tracked link, with another title and a salary.\<close>

definition args1_again :: job_args where
  "args1_again =
     args1\<lparr>a_url := ''https://boards.greenhouse.io/co-c05/jobs/1/?gh_src=feed'',
            a_title := ''Senior Engineer'', a_salary_min := Some 90000\<rparr>"

text \<open>Two verified companies in the store; company \<open>c05\<close> has one job, the board of
  \<open>c06\<close> answers 404 (see \<open>net_fifth\<close>).  The service answers the first three requests
  (the company query, the start of the run log, the lookup of the job) and then drops the
  connection three times: all three attempts to insert the job fail.\<close>

definition world_lossy :: world where
  "world_lossy =
     world0\<lparr>companies := [target ''c05'', target ''c06''],
            faults := [None, None, None, Some ''[Errno 32] Broken pipe'',
                       Some ''[Errno 32] Broken pipe'', Some ''[Errno 32] Broken pipe'']\<rparr>"

definition plain_run :: invocation where
  "plain_run =
     \<lparr>ats_filter = None, company_filter = None, limit = None, dry_run = False, resume = False,
      fresh = False\<rparr>"

text \<open>The ten targets fetched over \<open>net_fifth\<close>, and the state of the loop after all ten
  results have been applied to an empty store, starting from zero.\<close>

definition ten_results :: "fetched list" where
  "ten_results = map fst (map (scrape_company net_fifth adapter1) ten_targets)"

definition after_ten :: "exn option \<times> progress \<times> world \<times> disk" where
  "after_ten = apply_results False ten_targets (Some 0) ten_results progress0 world0 disk0"

text \<open>The same with the one successful board in tenth place.\<close>

definition net_tenth :: "string \<Rightarrow> get_outcome" where
  "net_tenth u = (if u = board_url ''c10'' then Responds 200 (Decoded (JObj [])) else Responds 404 (Decoded JNull))"

definition after_ten_last :: "exn option \<times> progress \<times> world \<times> disk" where
  "after_ten_last =
     apply_results False ten_targets (Some 0)
       (map fst (map (scrape_company net_tenth adapter1) ten_targets)) progress0 world0 disk0"

text \<open>A run over the two companies of \<open>world_lossy\<close>.\<close>

definition lossy_run :: "outcome \<times> progress \<times> string list \<times> world \<times> disk" where
  "lossy_run = run_scraper plain_run net_fifth adapter1 world_lossy disk0"

text \<open>Nine targets done, as a checkpoint and as the state of the loop.\<close>

definition ck9 :: checkpoint where
  "ck9 =
     \<lparr>ck_completed_ids = set [''c01'', ''c02'', ''c03'', ''c04'', ''c05'', ''c06'', ''c07'', ''c08'', ''c09''],
      ck_run_id = Some 0, ck_total_jobs = 4, ck_new_jobs = 2, ck_errors = 1, ck_updated_at = 50\<rparr>"

definition progress9 :: progress where
  "progress9 =
     \<lparr>completed_ids = ck_completed_ids ck9, total_jobs = 4, new_jobs = 2, error_count = 1,
      companies_with_jobs = 0\<rparr>"

text \<open>A disk on which the next attempt to open the checkpoint file for writing fails.\<close>

definition disk_full :: disk where
  "disk_full = \<lparr>on_disk = Absent, disk_events = [OpenFails]\<rparr>"

text \<open>The tenth target applied after the nine, on a sound disk and on the failing one.\<close>

definition tenth_result :: fetched where
  "tenth_result = fst (scrape_company net_tenth adapter1 (target ''c10''))"

definition tenth_saved :: "exn option \<times> progress \<times> world \<times> disk" where
  "tenth_saved = apply_results False [target ''c10''] (Some 0) [tenth_result] progress9 world0 disk0"

definition tenth_unsaved :: "exn option \<times> progress \<times> world \<times> disk" where
  "tenth_unsaved = apply_results False [target ''c10''] (Some 0) [tenth_result] progress9 world0 disk_full"

text \<open>The result for company \<open>c05\<close>, applied against a service that rejects the lookup.\<close>

definition fifth_result :: fetched where
  "fifth_result = fst (scrape_company net_fifth adapter1 (target ''c05''))"

definition fifth_rejected :: "exn option \<times> progress \<times> world \<times> disk" where
  "fifth_rejected =
     apply_result False [target ''c05''] (Some 0) fifth_result progress0 world_rejecting disk0"

text \<open>A resumed run: the checkpoint of the nine is on disk, the store holds the ten
  targets and the run log of run 0.\<close>

definition disk_ck9 :: disk where
  "disk_ck9 = \<lparr>on_disk = Stored ck9, disk_events = []\<rparr>"

definition world_ten :: world where
  "world_ten =
     world0\<lparr>companies := ten_targets,
            runs := [\<lparr>r_id = 0, r_source = ''ats_scraper'', r_status = ''running'', r_started_at = 40,
                      r_finished_at = None, r_total_found = None, r_new_found = None,
                      r_errors = None\<rparr>]\<rparr>"

definition resumed :: invocation where
  "resumed = plain_run\<lparr>resume := True\<rparr>"

definition resumed_run :: "outcome \<times> progress \<times> string list \<times> world \<times> disk" where
  "resumed_run = run_scraper resumed net_fifth adapter1 world_ten disk_ck9"

text \<open>The identity key of \<open>job1\<close>: the SHA-256 digest of its normalized URL.\<close>

definition key1 :: string where
  "key1 = ''358d48dac1bb5f33f029e8a38b3f22bc030ea200d87a141bf6979d136afb2a4d''"


text \<open>Runs over a store that holds the three companies above and company \<open>c04\<close>, whose
  board answers 404, and over stores that hold one of them.\<close>

definition world_skips :: world where
  "world_skips = world0\<lparr>companies := [null_endpoint, blank_endpoint, no_adapter, target ''c04'']\<rparr>"

definition skips_run :: "outcome \<times> progress \<times> string list \<times> world \<times> disk" where
  "skips_run = run_scraper plain_run net_fifth adapter1 world_skips disk0"

definition null_run :: "outcome \<times> progress \<times> string list \<times> world \<times> disk" where
  "null_run = run_scraper plain_run net_fifth adapter1 (world0\<lparr>companies := [null_endpoint]\<rparr>) disk0"

definition blank_run :: "outcome \<times> progress \<times> string list \<times> world \<times> disk" where
  "blank_run = run_scraper plain_run net_fifth adapter1 (world0\<lparr>companies := [blank_endpoint]\<rparr>) disk0"

definition unadapted_run :: "outcome \<times> progress \<times> string list \<times> world \<times> disk" where
  "unadapted_run = run_scraper plain_run net_fifth adapter1 (world0\<lparr>companies := [no_adapter]\<rparr>) disk0"

text \<open>A second posting of company \<open>c05\<close>, the result that carries both, and a service that
  answers the lookup and the insert of the first and rejects the lookup of the second.\<close>

definition job2 :: parsed_job where
  "job2 = job1\<lparr>pj_url := ''https://boards.greenhouse.io/co-c05/jobs/2'', pj_title := ''Designer''\<rparr>"

definition two_jobs :: fetched where
  "two_jobs = \<lparr>f_company_id = ''c05'', f_slug = ''co-c05'', f_jobs = [job1, job2], f_error = None\<rparr>"

definition args2 :: job_args where
  "args2 = job_args_of ''greenhouse'' (Some ''Company c05'') ''c05'' job2"

definition world_rejecting_second :: world where
  "world_rejecting_second = world0\<lparr>faults := [None, None, Some ''permission denied for table jobs'']\<rparr>"

definition second_rejected :: "exn option \<times> progress \<times> world \<times> disk" where
  "second_rejected =
     apply_results False [target ''c05''] (Some 0) (two_jobs # ten_results) progress0
       world_rejecting_second disk0"

text \<open>A service that answers the lookup and then drops the connection on all three attempts
  to insert; and one that drops connections now and then but never three times in a row.\<close>

definition world_dropping :: world where
  "world_dropping =
     world0\<lparr>faults := [None, Some ''[Errno 32] Broken pipe'', Some ''[Errno 32] Broken pipe'',
                        Some ''[Errno 32] Broken pipe'']\<rparr>"

definition world_hiccup :: world where
  "world_hiccup =
     world0\<lparr>faults := [Some ''[Errno 32] Broken pipe'', None, None,
                        Some ''ConnectionReset by peer'', Some ''[Errno 32] Broken pipe'', None]\<rparr>"

section \<open>Properties\<close>

lemma truthy_eq_None: "truthy x = None \<longleftrightarrow> x = None \<or> x = Some []"
  by (cases x rule: truthy.cases) auto

subsection \<open>Classification of a fetch\<close>

text \<open>
  The table of \<^verbatim>\<open>scrape_company\<close>, row by row: a target without endpoint or adapter is
  answered without a request; otherwise exactly one request is made and the result follows
  from its outcome.
\<close>

lemma scrape_company_classification:
  "(truthy (c_api_url c) = None \<longrightarrow>
      scrape_company net parse_jobs c =
        (\<lparr>f_company_id = c_id c, f_slug = c_slug c, f_jobs = [], f_error = Some ''no api_url''\<rparr>, []))
 \<and> (truthy (c_api_url c) = Some u \<and> c_ats c \<notin> set PARSERS \<longrightarrow>
      scrape_company net parse_jobs c =
        (\<lparr>f_company_id = c_id c, f_slug = c_slug c, f_jobs = [],
          f_error = Some (''no parser for '' @ c_ats c)\<rparr>, []))
 \<and> (truthy (c_api_url c) = Some u \<and> c_ats c \<in> set PARSERS \<longrightarrow>
      scrape_company net parse_jobs c =
        (\<lparr>f_company_id = c_id c, f_slug = c_slug c,
          f_jobs = (case net u of
                      Responds status (Decoded data) \<Rightarrow>
                        if status = 200
                        then (case parse_jobs (c_ats c) data (c_slug c) of Inr js \<Rightarrow> js | Inl e \<Rightarrow> [])
                        else []
                    | _ \<Rightarrow> []),
          f_error = (case net u of
                       Raises TimeoutError \<Rightarrow> Some ''timeout''
                     | Raises (ClientError m) \<Rightarrow> Some (''connection error: '' @ m)
                     | Raises e \<Rightarrow> Some (''unexpected error: '' @ str_of e)
                     | Responds status b \<Rightarrow>
                         if status = 200
                         then (case b of
                                 BodyRaises e \<Rightarrow> Some (''json decode error: '' @ str_of e)
                               | Decoded data \<Rightarrow>
                                   (case parse_jobs (c_ats c) data (c_slug c) of
                                      Inr js \<Rightarrow> None
                                    | Inl e \<Rightarrow> Some (fetch_error e)))
                         else if status = 404 then None
                         else if status = 429 then Some ''rate limited (429)''
                         else Some (''HTTP '' @ str_nat status))\<rparr>, [u]))"
  by (auto simp: scrape_company_def split: get_outcome.splits body.splits sum.splits exn.splits)

text \<open>
  Claim C3.  The fetch stage classifies a response by the table of the specification; in
  particular a timeout gives the error \<^verbatim>\<open>timeout\<close>.  The code follows the table for an
  exception raised by the request itself, but the inner \<^verbatim>\<open>except Exception\<close> around
  \<^verbatim>\<open>resp.json\<close> catches a timeout that ends the reading of a 200 response's body before
  the outer \<^verbatim>\<open>except asyncio.TimeoutError\<close> can see it: the target with a registered
  adapter and an endpoint whose body stalls is reported with a decode failure.
\<close>

theorem C3_body_timeout_reported_as_decode_error:
  "scrape_company net_stalled adapter1 (target ''c01'') =
     (\<lparr>f_company_id = ''c01'', f_slug = ''co-c01'', f_jobs = [],
       f_error = Some ''json decode error: ''\<rparr>, [board_url ''c01''])"
  by (simp add: scrape_company_def net_stalled_def target_def PARSERS_def board_url_def)

subsection \<open>The retry wrapper\<close>

lemma retry_success:
  "fn w = (Inr v, w') \<Longrightarrow> retry fn w = (Inr (Some v), w')"
  by (simp add: retry_def)

text \<open>
  Claim C8, as the code has it.  \<^verbatim>\<open>_retry\<close> with its default arguments calls the operation
  at most three times in all, that is, it retries at most twice: an operation that succeeds
  returns at once; an exception whose text matches no connection-fault signature is raised
  again at once, with nothing slept and the client left alone; after the first matching
  exception the wrapper sleeps \<open>1 \<times> delay\<close>, after the second \<open>2 \<times> delay\<close>, each time
  setting the request counter to its limit; the third exception is raised again whatever it
  is.  With the counter at its limit the next \<^verbatim>\<open>get_client\<close> builds a new client.
\<close>

theorem C8_retry_policy:
  "retry fn w =
     (case fn w of
        (Inr v, w1) \<Rightarrow> (Inr (Some v), w1)
      | (Inl e1, w1) \<Rightarrow>
          if \<not> is_connection_error e1 then (Inl e1, w1)
          else (case fn (w1\<lparr>slept := slept w1 @ [1],
                            request_count := MAX_REQUESTS_BEFORE_RESET\<rparr>) of
                  (Inr v, w2) \<Rightarrow> (Inr (Some v), w2)
                | (Inl e2, w2) \<Rightarrow>
                    if \<not> is_connection_error e2 then (Inl e2, w2)
                    else (case fn (w2\<lparr>slept := slept w2 @ [2],
                                      request_count := MAX_REQUESTS_BEFORE_RESET\<rparr>) of
                            (Inr v, w3) \<Rightarrow> (Inr (Some v), w3)
                          | (Inl e3, w3) \<Rightarrow> (Inl e3, w3))))
   \<and> (configured w \<longrightarrow>
        get_client (w\<lparr>request_count := MAX_REQUESTS_BEFORE_RESET\<rparr>) =
          (Inr (clients_created w),
           w\<lparr>client := Some (clients_created w), clients_created := clients_created w + 1,
             request_count := 1\<rparr>))"
proof
  show "retry fn w =
     (case fn w of
        (Inr v, w1) \<Rightarrow> (Inr (Some v), w1)
      | (Inl e1, w1) \<Rightarrow>
          if \<not> is_connection_error e1 then (Inl e1, w1)
          else (case fn (w1\<lparr>slept := slept w1 @ [1],
                            request_count := MAX_REQUESTS_BEFORE_RESET\<rparr>) of
                  (Inr v, w2) \<Rightarrow> (Inr (Some v), w2)
                | (Inl e2, w2) \<Rightarrow>
                    if \<not> is_connection_error e2 then (Inl e2, w2)
                    else (case fn (w2\<lparr>slept := slept w2 @ [2],
                                      request_count := MAX_REQUESTS_BEFORE_RESET\<rparr>) of
                            (Inr v, w3) \<Rightarrow> (Inr (Some v), w3)
                          | (Inl e3, w3) \<Rightarrow> (Inl e3, w3))))"
    unfolding retry_def by (simp split: prod.splits sum.splits)
  show "configured w \<longrightarrow>
        get_client (w\<lparr>request_count := MAX_REQUESTS_BEFORE_RESET\<rparr>) =
          (Inr (clients_created w),
           w\<lparr>client := Some (clients_created w), clients_created := clients_created w + 1,
             request_count := 1\<rparr>)"
    by (simp add: get_client_def)
qed

theorem C8_retry_policy_witness:
  "configured world_flaky
 \<and> fst (get_client (world_flaky\<lparr>request_count := MAX_REQUESTS_BEFORE_RESET\<rparr>)) = Inr 0
 \<and> clients_created (snd (get_client (world_flaky\<lparr>request_count := MAX_REQUESTS_BEFORE_RESET\<rparr>))) = 1
 \<and> fst (retry (request (select_job_ids ''k'')) world_rejecting)
       = Inl (Exception ''permission denied for table jobs'')
 \<and> slept (snd (retry (request (select_job_ids ''k'')) world_rejecting)) = []"
proof -
  have c: "configured world_flaky"
    by (simp add: world_flaky_def world0_def)
  have n: "clients_created world_flaky = 0"
    by (simp add: world_flaky_def world0_def)
  have r: "request (select_job_ids ''k'') world_rejecting =
             (Inl (Exception ''permission denied for table jobs''),
              world0\<lparr>client := Some 0, clients_created := 1, request_count := 1, faults := []\<rparr>)"
    by (simp add: request_def get_client_def world_rejecting_def world0_def)
  have e: "\<not> is_connection_error (Exception ''permission denied for table jobs'')"
    by code_simp
  have s: "slept world0 = []"
    by (simp add: world0_def)
  from C8_retry_policy [of "request (select_job_ids ''k'')" world_flaky] c n
  have g: "fst (get_client (world_flaky\<lparr>request_count := MAX_REQUESTS_BEFORE_RESET\<rparr>)) = Inr 0
         \<and> clients_created (snd (get_client (world_flaky\<lparr>request_count := MAX_REQUESTS_BEFORE_RESET\<rparr>))) = 1"
    by simp
  from C8_retry_policy [of "request (select_job_ids ''k'')" world_rejecting] r e s
  have "fst (retry (request (select_job_ids ''k'')) world_rejecting)
          = Inl (Exception ''permission denied for table jobs'')
      \<and> slept (snd (retry (request (select_job_ids ''k'')) world_rejecting)) = []"
    by simp
  with c g show ?thesis by simp
qed

text \<open>The claim as stated fails: against a service that drops the connection three
  times, the wrapper gives up after the third attempt, having retried twice and slept
  twice; the fourth request, which would be answered, is never made.\<close>

theorem C8_gives_up_after_third_attempt:
  "fst (retry (request (select_job_ids ''k'')) world_flaky) = Inl (Exception ''[Errno 32] Broken pipe'')
 \<and> faults world_flaky = [Some ''[Errno 32] Broken pipe'', Some ''ConnectionReset by peer'',
                          Some ''[Errno 32] Broken pipe'', None]
 \<and> faults (snd (retry (request (select_job_ids ''k'')) world_flaky)) = [None]
 \<and> slept (snd (retry (request (select_job_ids ''k'')) world_flaky)) = [1, 2]"
  by code_simp


subsection \<open>Applying a record to the store\<close>

lemma get_client_frame:
  "jobs (snd (get_client w)) = jobs w" "next_job_id (snd (get_client w)) = next_job_id w"
  "companies (snd (get_client w)) = companies w" "runs (snd (get_client w)) = runs w"
  "faults (snd (get_client w)) = faults w" "configured (snd (get_client w)) = configured w"
  "clock (snd (get_client w)) = clock w" "ticks (snd (get_client w)) = ticks w"
  "slept (snd (get_client w)) = slept w"
  by (simp_all add: get_client_def split: option.splits)

lemma get_client_configured:
  "configured w \<Longrightarrow> \<exists>c. fst (get_client w) = Inr c"
  by (simp add: get_client_def split: option.splits)

text \<open>A request that the service answers within the three attempts runs its query on a
  world that differs from the one before in the client, the counters of the wrapper and the
  consumed part of the fault script only.\<close>

lemma retry_from_settled:
  "configured w \<Longrightarrow> settle_from k (faults w) = Some fs \<Longrightarrow> attempt + k = 3 \<Longrightarrow>
     \<exists>w'. retry_from (request q) 3 1 attempt w = (Inr (Some (fst (q w'))), snd (q w'))
        \<and> jobs w' = jobs w \<and> next_job_id w' = next_job_id w \<and> configured w' \<and> faults w' = fs
        \<and> clock w' = clock w \<and> ticks w' = ticks w"
proof (induction k arbitrary: w attempt)
  case 0
  then show ?case by simp
next
  case (Suc k)
  obtain r w1 where g: "get_client w = (r, w1)" by (cases "get_client w") auto
  from get_client_configured [OF Suc.prems(1)] g obtain c where r: "r = Inr c" by auto
  from get_client_frame [of w] g
  have fr: "jobs w1 = jobs w" "next_job_id w1 = next_job_id w" "faults w1 = faults w"
    "configured w1" "clock w1 = clock w" "ticks w1 = ticks w"
    using Suc.prems(1) by simp_all
  have att: "attempt < 3" using Suc.prems(3) by simp
  show ?case
  proof (cases "faults w")
    case Nil
    with Suc.prems(2) have fs: "fs = []" by simp
    have "request q w = (Inr (fst (q w1)), snd (q w1))"
      using g r fr(3) Nil by (simp add: request_def split: prod.splits)
    then have "retry_from (request q) 3 1 attempt w = (Inr (Some (fst (q w1))), snd (q w1))"
      using att by (subst retry_from.simps) (simp del: retry_from.simps)
    with fr fs Nil show ?thesis by (auto simp del: retry_from.simps)
  next
    case (Cons x fs0)
    show ?thesis
    proof (cases x)
      case None
      with Suc.prems(2) Cons have fs: "fs = fs0" by simp
      let ?w' = "w1\<lparr>faults := fs0\<rparr>"
      have "request q w = (Inr (fst (q ?w')), snd (q ?w'))"
        using g r fr(3) Cons None by (simp add: request_def split: prod.splits)
      then have "retry_from (request q) 3 1 attempt w = (Inr (Some (fst (q ?w'))), snd (q ?w'))"
        using att by (subst retry_from.simps) (simp del: retry_from.simps)
      moreover have "jobs ?w' = jobs w \<and> next_job_id ?w' = next_job_id w \<and> configured ?w'
          \<and> faults ?w' = fs \<and> clock ?w' = clock w \<and> ticks ?w' = ticks w"
        using fr fs by simp
      ultimately show ?thesis by blast
    next
      case (Some m)
      with Suc.prems(2) Cons have ce: "is_connection_error (Exception m)"
        and st: "settle_from k fs0 = Some fs"
        by (simp_all split: if_splits)
      from st have "k \<noteq> 0" by (cases k) auto
      with Suc.prems(3) have a2: "attempt < 2" and a3: "Suc attempt + k = 3" by simp_all
      let ?w2 = "w1\<lparr>faults := fs0\<rparr>"
      let ?w3 = "?w2\<lparr>slept := slept ?w2 @ [1 * real (attempt + 1)],
                      request_count := MAX_REQUESTS_BEFORE_RESET\<rparr>"
      have rq: "request q w = (Inl (Exception m), ?w2)"
        using g r fr(3) Cons Some by (simp add: request_def)
      have step: "retry_from (request q) 3 1 attempt w = retry_from (request q) 3 1 (Suc attempt) ?w3"
        using rq ce a2 by (subst retry_from.simps) (simp del: retry_from.simps)
      have c3: "configured ?w3" "settle_from k (faults ?w3) = Some fs"
        using fr(4) st by simp_all
      from Suc.IH [OF c3 a3] obtain w' where
        "retry_from (request q) 3 1 (Suc attempt) ?w3 = (Inr (Some (fst (q w'))), snd (q w'))"
        "jobs w' = jobs ?w3" "next_job_id w' = next_job_id ?w3" "configured w'" "faults w' = fs"
        "clock w' = clock ?w3" "ticks w' = ticks ?w3"
        by blast
      with step fr show ?thesis by (auto simp del: retry_from.simps)
    qed
  qed
qed

lemma retry_request_settled:
  assumes "configured w" "settle (faults w) = Some fs"
  obtains w' where "retry (request q) w = (Inr (Some (fst (q w'))), snd (q w'))"
    "jobs w' = jobs w" "next_job_id w' = next_job_id w" "configured w'" "faults w' = fs"
    "clock w' = clock w" "ticks w' = ticks w"
  using retry_from_settled [OF assms(1) assms(2) [unfolded settle_def], of 0 q]
  unfolding retry_def by (auto simp del: retry_from.simps)

text \<open>The first application of a record whose key is not stored yet inserts a row.\<close>

lemma upsert_job_insert:
  assumes c: "configured w" and s1: "settle (faults w) = Some f1" and s2: "settle f1 = Some f2"
      and h: "hash_url (a_url a) = Inr k"
      and fresh: "filter (\<lambda>r. j_url_hash r = k) (jobs w) = []"
  defines "row \<equiv> (new_row a k (clock w (ticks w)))\<lparr>j_id := next_job_id w\<rparr>"
  shows "fst (upsert_job a w) = Inr (Some row, True)"
    and "jobs (snd (upsert_job a w)) = jobs w @ [row]"
    and "next_job_id (snd (upsert_job a w)) = next_job_id w + 1"
    and "configured (snd (upsert_job a w))" and "faults (snd (upsert_job a w)) = f2"
    and "clock (snd (upsert_job a w)) = clock w" and "ticks (snd (upsert_job a w)) = ticks w + 1"
proof -
  let ?w1 = "w\<lparr>ticks := ticks w + 1\<rparr>"
  let ?row0 = "new_row a k (clock w (ticks w))"
  have c1: "configured ?w1" "settle (faults ?w1) = Some f1" using c s1 by simp_all
  from retry_request_settled [OF c1, of "select_job_ids k"] obtain wa where
    sel: "retry (request (select_job_ids k)) ?w1
            = (Inr (Some (fst (select_job_ids k wa))), snd (select_job_ids k wa))"
    and wa: "jobs wa = jobs ?w1" "next_job_id wa = next_job_id ?w1" "configured wa" "faults wa = f1"
      "clock wa = clock ?w1" "ticks wa = ticks ?w1"
    by blast
  have sel': "retry (request (select_job_ids k)) ?w1 = (Inr (Some []), wa)"
    using sel wa(1) fresh by (simp add: select_job_ids_def)
  have c2: "configured wa" "settle (faults wa) = Some f2" using wa s2 by simp_all
  from retry_request_settled [OF c2, of "insert_job ?row0"] obtain wb where
    ins: "retry (request (insert_job ?row0)) wa
            = (Inr (Some (fst (insert_job ?row0 wb))), snd (insert_job ?row0 wb))"
    and wb: "jobs wb = jobs wa" "next_job_id wb = next_job_id wa" "configured wb" "faults wb = f2"
      "clock wb = clock wa" "ticks wb = ticks wa"
    by blast
  have ins': "retry (request (insert_job ?row0)) wa
            = (Inr (Some [row]), wb\<lparr>jobs := jobs w @ [row], next_job_id := next_job_id w + 1\<rparr>)"
    using ins wa(1,2) wb(1,2) by (simp add: insert_job_def Let_def row_def)
  have u: "upsert_job a w =
             (Inr (Some row, True), wb\<lparr>jobs := jobs w @ [row], next_job_id := next_job_id w + 1\<rparr>)"
    using h sel' ins' by (simp add: upsert_job_def now_def first_row_def)
  show "fst (upsert_job a w) = Inr (Some row, True)" using u by simp
  show "jobs (snd (upsert_job a w)) = jobs w @ [row]" using u by simp
  show "next_job_id (snd (upsert_job a w)) = next_job_id w + 1" using u by simp
  show "configured (snd (upsert_job a w))" using u wb by simp
  show "faults (snd (upsert_job a w)) = f2" using u wb by simp
  show "clock (snd (upsert_job a w)) = clock w" using u wa wb by simp
  show "ticks (snd (upsert_job a w)) = ticks w + 1" using u wa wb by simp
qed

text \<open>An application of a record whose key is stored refreshes that row and no other.\<close>

lemma upsert_job_update:
  assumes c: "configured w" and s1: "settle (faults w) = Some f1" and s2: "settle f1 = Some f2"
      and h: "hash_url (a_url b) = Inr k"
      and js: "jobs w = js0 @ r0 # js1"
      and others: "filter (\<lambda>r. j_url_hash r = k) (js0 @ js1) = []"
      and key: "j_url_hash r0 = k"
      and ids: "list_all (\<lambda>r. j_id r \<noteq> j_id r0) (js0 @ js1)"
  defines "r1 \<equiv> apply_updates (new_updates b (clock w (ticks w))) r0"
  shows "fst (upsert_job b w) = Inr (Some r1, False)"
    and "jobs (snd (upsert_job b w)) = js0 @ r1 # js1"
    and "next_job_id (snd (upsert_job b w)) = next_job_id w"
    and "configured (snd (upsert_job b w))" and "faults (snd (upsert_job b w)) = f2"
    and "clock (snd (upsert_job b w)) = clock w" and "ticks (snd (upsert_job b w)) = ticks w + 1"
proof -
  let ?w1 = "w\<lparr>ticks := ticks w + 1\<rparr>"
  let ?u = "new_updates b (clock w (ticks w))"
  have c1: "configured ?w1" "settle (faults ?w1) = Some f1" using c s1 by simp_all
  from retry_request_settled [OF c1, of "select_job_ids k"] obtain wa where
    sel: "retry (request (select_job_ids k)) ?w1
            = (Inr (Some (fst (select_job_ids k wa))), snd (select_job_ids k wa))"
    and wa: "jobs wa = jobs ?w1" "next_job_id wa = next_job_id ?w1" "configured wa" "faults wa = f1"
      "clock wa = clock ?w1" "ticks wa = ticks ?w1"
    by blast
  have sel': "retry (request (select_job_ids k)) ?w1 = (Inr (Some [j_id r0]), wa)"
    using sel wa(1) js others key by (simp add: select_job_ids_def)
  have c2: "configured wa" "settle (faults wa) = Some f2" using wa s2 by simp_all
  from retry_request_settled [OF c2, of "update_job ?u (j_id r0)"] obtain wb where
    upd: "retry (request (update_job ?u (j_id r0))) wa
            = (Inr (Some (fst (update_job ?u (j_id r0) wb))), snd (update_job ?u (j_id r0) wb))"
    and wb: "jobs wb = jobs wa" "next_job_id wb = next_job_id wa" "configured wb" "faults wb = f2"
      "clock wb = clock wa" "ticks wb = ticks wa"
    by blast
  have same: "map (\<lambda>r. if j_id r = j_id r0 then apply_updates ?u r else r) xs = xs"
    if "list_all (\<lambda>r. j_id r \<noteq> j_id r0) xs" for xs
    using that by (induction xs) simp_all
  have none: "filter (\<lambda>r. j_id r = j_id r0) xs = []"
    if "list_all (\<lambda>r. j_id r \<noteq> j_id r0) xs" for xs
    using that by (induction xs) simp_all
  have i0: "list_all (\<lambda>r. j_id r \<noteq> j_id r0) js0" "list_all (\<lambda>r. j_id r \<noteq> j_id r0) js1"
    using ids by simp_all
  have id1: "j_id r1 = j_id r0" by (simp add: r1_def apply_updates_def)
  have jb: "jobs wb = js0 @ r0 # js1" using wb(1) wa(1) js by simp
  have upd': "retry (request (update_job ?u (j_id r0))) wa
               = (Inr (Some [r1]), wb\<lparr>jobs := js0 @ r1 # js1\<rparr>)"
    using upd jb same [OF i0(1)] same [OF i0(2)] none [OF i0(1)] none [OF i0(2)] id1
    by (simp add: update_job_def Let_def r1_def)
  have u: "upsert_job b w = (Inr (Some r1, False), wb\<lparr>jobs := js0 @ r1 # js1\<rparr>)"
    using h sel' upd' by (simp add: upsert_job_def now_def first_row_def)
  show "fst (upsert_job b w) = Inr (Some r1, False)" using u by simp
  show "jobs (snd (upsert_job b w)) = js0 @ r1 # js1" using u by simp
  show "next_job_id (snd (upsert_job b w)) = next_job_id w" using u wa wb by simp
  show "configured (snd (upsert_job b w))" using u wb by simp
  show "faults (snd (upsert_job b w)) = f2" using u wb by simp
  show "clock (snd (upsert_job b w)) = clock w" using u wa wb by simp
  show "ticks (snd (upsert_job b w)) = ticks w + 1" using u wa wb by simp
qed

text \<open>The updated row, field by field.\<close>

lemma apply_new_updates:
  "apply_updates (new_updates b t) r0 =
     r0\<lparr>j_last_seen := t, j_is_active := True,
        j_company_id := (if a_company_id b = None \<or> a_company_id b = Some [] then j_company_id r0
                         else a_company_id b),
        j_salary_min := (if a_salary_min b = None then j_salary_min r0 else a_salary_min b),
        j_salary_max := (if a_salary_max b = None then j_salary_max r0 else a_salary_max b)\<rparr>"
  by (cases "a_company_id b" rule: truthy.cases; cases "a_salary_min b"; cases "a_salary_max b")
     (simp_all add: apply_updates_def new_updates_def)

lemma refresh_stored_row:
  "apply_updates (new_updates a t) (stored_row a k w i) = (stored_row a k w i)\<lparr>j_last_seen := t\<rparr>"
  by (cases "a_company_id a" rule: truthy.cases; cases "a_salary_min a"; cases "a_salary_max a")
     (simp_all add: apply_updates_def new_updates_def stored_row_def new_row_def)

lemma stored_row_key: "j_url_hash (stored_row a k w i) = k" "j_id (stored_row a k w i) = next_job_id w"
  by (simp_all add: stored_row_def new_row_def)

lemma answered_two:
  "answered (Suc (Suc m)) fs \<Longrightarrow> \<exists>f1 f2. settle fs = Some f1 \<and> settle f1 = Some f2 \<and> answered m f2"
  by (auto split: option.splits)

lemma upsert_times_refresh:
  assumes "configured w'" "answered (2 * n) (faults w')" "hash_url (a_url a) = Inr k"
      and "jobs w' = js0 @ [stored_row a k w i]"
      and "filter (\<lambda>r. j_url_hash r = k) js0 = []"
      and "list_all (\<lambda>r. j_id r \<noteq> next_job_id w) js0"
      and "clock w' = clock w" "ticks w' = Suc (ticks w + i)"
  shows "fst (upsert_times n a w') = map (\<lambda>j. Inr (Some (stored_row a k w j), False)) [Suc i ..< Suc (i + n)]
       \<and> jobs (snd (upsert_times n a w')) = js0 @ [stored_row a k w (i + n)]"
  using assms
proof (induction n arbitrary: w' i)
  case 0
  then show ?case by simp
next
  case (Suc n)
  let ?r0 = "stored_row a k w i"
  from Suc.prems(2) have "answered (Suc (Suc (2 * n))) (faults w')" by simp
  from answered_two [OF this] obtain f1 f2 where
    st: "settle (faults w') = Some f1" "settle f1 = Some f2" and an: "answered (2 * n) f2"
    by blast
  have ids: "list_all (\<lambda>r. j_id r \<noteq> j_id ?r0) (js0 @ [])"
    using Suc.prems(6) by (simp add: stored_row_key)
  have oth: "filter (\<lambda>r. j_url_hash r = k) (js0 @ []) = []" using Suc.prems(5) by simp
  have jw: "jobs w' = js0 @ ?r0 # []" using Suc.prems(4) by simp
  have r1: "apply_updates (new_updates a (clock w' (ticks w'))) ?r0 = stored_row a k w (Suc i)"
    using Suc.prems(7,8) by (simp add: refresh_stored_row) (simp add: stored_row_def)
  note up = upsert_job_update [OF Suc.prems(1) st Suc.prems(3) jw oth stored_row_key(1) ids]
  obtain r w'' where u: "upsert_job a w' = (r, w'')" by (cases "upsert_job a w'") auto
  from up u r1 have r: "r = Inr (Some (stored_row a k w (Suc i)), False)" by simp
  from up u r1 Suc.prems(7,8) an
  have p: "configured w''" "answered (2 * n) (faults w'')" "jobs w'' = js0 @ [stored_row a k w (Suc i)]"
          "clock w'' = clock w" "ticks w'' = Suc (ticks w + Suc i)"
    by simp_all
  obtain rs w3 where t: "upsert_times n a w'' = (rs, w3)" by (cases "upsert_times n a w''") auto
  from Suc.IH [OF p(1,2) Suc.prems(3) p(3) Suc.prems(5,6) p(4,5)] t
  have ih: "rs = map (\<lambda>j. Inr (Some (stored_row a k w j), False)) [Suc (Suc i) ..< Suc (Suc i + n)]"
           "jobs w3 = js0 @ [stored_row a k w (Suc i + n)]"
    by simp_all
  have upt: "[Suc i ..< Suc (i + Suc n)] = Suc i # [Suc (Suc i) ..< Suc (Suc i + n)]"
    by (simp add: upt_conv_Cons)
  have "upsert_times (Suc n) a w' = (r # rs, w3)" using u t by simp
  with r ih upt show ?case by simp
qed

lemma upsert_times_same_record:
  assumes "configured w" and "answered (2 * Suc n) (faults w)" and "hash_url (a_url a) = Inr k"
      and "list_all (\<lambda>r. j_url_hash r \<noteq> k \<and> j_id r \<noteq> next_job_id w) (jobs w)"
  shows "fst (upsert_times (Suc n) a w)
           = Inr (Some (stored_row a k w 0), True)
             # map (\<lambda>i. Inr (Some (stored_row a k w i), False)) [1 ..< Suc n]"
    and "jobs (snd (upsert_times (Suc n) a w)) = jobs w @ [stored_row a k w n]"
    and "filter (\<lambda>r. j_url_hash r = k) (jobs (snd (upsert_times (Suc n) a w))) = [stored_row a k w n]"
proof -
  have none: "filter (\<lambda>r. j_url_hash r = k) (jobs w) = []"
    using assms(4) by (auto simp: list_all_iff filter_empty_conv)
  have ids: "list_all (\<lambda>r. j_id r \<noteq> next_job_id w) (jobs w)"
    using assms(4) by (simp add: list_all_iff)
  have row0: "(new_row a k (clock w (ticks w)))\<lparr>j_id := next_job_id w\<rparr> = stored_row a k w 0"
    by (simp add: stored_row_def new_row_def)
  from assms(2) have "answered (Suc (Suc (2 * n))) (faults w)" by simp
  from answered_two [OF this] obtain f1 f2 where
    st: "settle (faults w) = Some f1" "settle f1 = Some f2" and an: "answered (2 * n) f2"
    by blast
  note ins = upsert_job_insert [OF assms(1) st assms(3) none]
  obtain r w' where u: "upsert_job a w = (r, w')" by (cases "upsert_job a w") auto
  from ins u row0 have r: "r = Inr (Some (stored_row a k w 0), True)" by simp
  from ins u row0 an
  have p: "configured w'" "answered (2 * n) (faults w')" "jobs w' = jobs w @ [stored_row a k w 0]"
          "clock w' = clock w" "ticks w' = Suc (ticks w + 0)"
    by simp_all
  obtain rs w3 where t: "upsert_times n a w' = (rs, w3)" by (cases "upsert_times n a w'") auto
  from upsert_times_refresh [OF p(1,2) assms(3) p(3) none ids p(4,5)] t
  have rest: "rs = map (\<lambda>j. Inr (Some (stored_row a k w j), False)) [Suc 0 ..< Suc n]"
             "jobs w3 = jobs w @ [stored_row a k w n]"
    by simp_all
  have all: "upsert_times (Suc n) a w = (r # rs, w3)" using u t by simp
  from all r rest show "fst (upsert_times (Suc n) a w)
           = Inr (Some (stored_row a k w 0), True)
             # map (\<lambda>i. Inr (Some (stored_row a k w i), False)) [1 ..< Suc n]"
    by simp
  from all rest show "jobs (snd (upsert_times (Suc n) a w)) = jobs w @ [stored_row a k w n]" by simp
  from all rest none show
    "filter (\<lambda>r. j_url_hash r = k) (jobs (snd (upsert_times (Suc n) a w))) = [stored_row a k w n]"
    by (simp add: stored_row_key)
qed

text \<open>The digests of the example URLs, computed once.\<close>

lemma hash_args1: "hash_url (a_url args1) = Inr key1"
  by code_simp

lemma hash_args1_again: "hash_url (a_url args1_again) = Inr key1"
  by code_simp

text \<open>
  Claim C1, as the code has it.  Let the record's URL have the identity key \<open>k\<close>, let no
  stored row have that key (nor the id the service assigns next), and let the service
  answer every request within the three attempts of the retry wrapper.  Then applying the
  record \<open>n + 1\<close> times with \<^verbatim>\<open>upsert_job\<close> returns \<^verbatim>\<open>is_new = True\<close> the first time and
  \<^verbatim>\<open>is_new = False\<close> every later time, and leaves exactly one row with the key \<open>k\<close>, appended
  to the rows that were there.  The first application stores it with \<^verbatim>\<open>first_seen\<close> and
  \<^verbatim>\<open>last_seen\<close> the time of that application, \<^verbatim>\<open>is_active\<close> true, and title and URL
  stripped; after \<open>n\<close> further applications it is that row with \<^verbatim>\<open>last_seen\<close> moved to the
  time of the latest application, and nothing else changed.  In general an application of a
  record \<open>b\<close> whose key is held by one stored row \<open>r0\<close> returns \<^verbatim>\<open>is_new = False\<close> and
  replaces \<open>r0\<close> by \<open>r0\<close> with \<^verbatim>\<open>last_seen\<close> set to the time of the application, \<^verbatim>\<open>is_active\<close>
  set to true, and the company reference and the two salary bounds set to those of \<open>b\<close>
  where \<open>b\<close> has them; every other field and every other row stay as they are.
\<close>

theorem C1_repeated_upsert:
  assumes "configured w" and "answered (2 * Suc n) (faults w)" and "hash_url (a_url a) = Inr k"
      and "list_all (\<lambda>r. j_url_hash r \<noteq> k \<and> j_id r \<noteq> next_job_id w) (jobs w)"
  shows "fst (upsert_times (Suc n) a w)
           = Inr (Some (stored_row a k w 0), True)
             # map (\<lambda>i. Inr (Some (stored_row a k w i), False)) [1 ..< Suc n]
       \<and> jobs (snd (upsert_times (Suc n) a w)) = jobs w @ [stored_row a k w n]
       \<and> filter (\<lambda>r. j_url_hash r = k) (jobs (snd (upsert_times (Suc n) a w))) = [stored_row a k w n]
       \<and> j_url_hash (stored_row a k w 0) = k
       \<and> j_first_seen (stored_row a k w 0) = clock w (ticks w)
       \<and> j_last_seen (stored_row a k w 0) = clock w (ticks w)
       \<and> j_is_active (stored_row a k w 0)
       \<and> j_title (stored_row a k w 0) = py_strip (a_title a)
       \<and> j_url (stored_row a k w 0) = py_strip (a_url a)
       \<and> stored_row a k w n = (stored_row a k w 0)\<lparr>j_last_seen := clock w (ticks w + n)\<rparr>
       \<and> (configured v \<and> answered 2 (faults v) \<and> hash_url (a_url b) = Inr k
            \<and> jobs v = js0 @ r0 # js1 \<and> j_url_hash r0 = k
            \<and> list_all (\<lambda>r. j_url_hash r \<noteq> k \<and> j_id r \<noteq> j_id r0) (js0 @ js1) \<longrightarrow>
            fst (upsert_job b v)
              = Inr (Some (r0\<lparr>j_last_seen := clock v (ticks v), j_is_active := True,
                              j_company_id :=
                                (if a_company_id b = None \<or> a_company_id b = Some []
                                 then j_company_id r0 else a_company_id b),
                              j_salary_min :=
                                (if a_salary_min b = None then j_salary_min r0 else a_salary_min b),
                              j_salary_max :=
                                (if a_salary_max b = None then j_salary_max r0 else a_salary_max b)\<rparr>),
                     False)
          \<and> jobs (snd (upsert_job b v))
              = js0 @ r0\<lparr>j_last_seen := clock v (ticks v), j_is_active := True,
                          j_company_id :=
                            (if a_company_id b = None \<or> a_company_id b = Some []
                             then j_company_id r0 else a_company_id b),
                          j_salary_min :=
                            (if a_salary_min b = None then j_salary_min r0 else a_salary_min b),
                          j_salary_max :=
                            (if a_salary_max b = None then j_salary_max r0 else a_salary_max b)\<rparr>
                    # js1)"
proof -
  note same = upsert_times_same_record [OF assms, of]
  have fields: "j_url_hash (stored_row a k w 0) = k"
    "j_first_seen (stored_row a k w 0) = clock w (ticks w)"
    "j_last_seen (stored_row a k w 0) = clock w (ticks w)"
    "j_is_active (stored_row a k w 0)"
    "j_title (stored_row a k w 0) = py_strip (a_title a)"
    "j_url (stored_row a k w 0) = py_strip (a_url a)"
    "stored_row a k w n = (stored_row a k w 0)\<lparr>j_last_seen := clock w (ticks w + n)\<rparr>"
    by (simp_all add: stored_row_def new_row_def)
  have other: "fst (upsert_job b v)
              = Inr (Some (apply_updates (new_updates b (clock v (ticks v))) r0), False)
          \<and> jobs (snd (upsert_job b v))
              = js0 @ apply_updates (new_updates b (clock v (ticks v))) r0 # js1"
    if h: "configured v \<and> answered 2 (faults v) \<and> hash_url (a_url b) = Inr k
            \<and> jobs v = js0 @ r0 # js1 \<and> j_url_hash r0 = k
            \<and> list_all (\<lambda>r. j_url_hash r \<noteq> k \<and> j_id r \<noteq> j_id r0) (js0 @ js1)"
  proof -
    from h have "answered (Suc (Suc 0)) (faults v)" by (simp add: numeral_2_eq_2)
    from answered_two [OF this] obtain f1 f2 where
      st: "settle (faults v) = Some f1" "settle f1 = Some f2" by blast
    from h have oth: "filter (\<lambda>r. j_url_hash r = k) (js0 @ js1) = []"
      by (auto simp: list_all_iff filter_empty_conv)
    from h have ids: "list_all (\<lambda>r. j_id r \<noteq> j_id r0) (js0 @ js1)"
      by (auto simp: list_all_iff)
    from h have c: "configured v" and hb: "hash_url (a_url b) = Inr k"
      and jv: "jobs v = js0 @ r0 # js1" and key: "j_url_hash r0 = k"
      by blast+
    from upsert_job_update [OF c st hb jv oth key ids] show ?thesis by simp
  qed
  from same fields other show ?thesis unfolding apply_new_updates by blast
qed

theorem C1_repeated_upsert_witness:
  "configured world_hiccup \<and> answered 6 (faults world_hiccup) \<and> jobs world_hiccup = []
 \<and> hash_url (a_url args1) = Inr key1 \<and> hash_url (a_url args1_again) = Inr key1
 \<and> jobs (snd (upsert_times 3 args1 world_hiccup)) = [stored_row args1 key1 world_hiccup 2]
 \<and> j_first_seen (stored_row args1 key1 world_hiccup 2) = 100
 \<and> j_last_seen (stored_row args1 key1 world_hiccup 2) = 102
 \<and> jobs (snd (upsert_job args1 world0)) = [stored_row args1 key1 world0 0]
 \<and> j_salary_min (stored_row args1 key1 world0 0) = None
 \<and> fst (upsert_job args1_again (snd (upsert_job args1 world0)))
      = Inr (Some ((stored_row args1 key1 world0 0)\<lparr>j_last_seen := 101, j_salary_min := Some 90000\<rparr>),
             False)
 \<and> j_title ((stored_row args1 key1 world0 0)\<lparr>j_last_seen := 101, j_salary_min := Some 90000\<rparr>)
      = ''Engineer''"
proof -
  have c: "configured world_hiccup" and j: "jobs world_hiccup = []"
    by (simp_all add: world_hiccup_def world0_def)
  have an: "answered 6 (faults world_hiccup)" by code_simp
  then have an': "answered (2 * Suc 2) (faults world_hiccup)" by simp
  have l: "list_all (\<lambda>r. j_url_hash r \<noteq> key1 \<and> j_id r \<noteq> next_job_id world_hiccup) (jobs world_hiccup)"
    by (simp add: j)
  have t: "clock world_hiccup (ticks world_hiccup) = 100"
          "clock world_hiccup (ticks world_hiccup + 2) = 102"
    by (simp_all add: world_hiccup_def world0_def clock0_def)
  note three = C1_repeated_upsert [OF c an' hash_args1 l]
  from three j have s1: "jobs (snd (upsert_times 3 args1 world_hiccup)) = [stored_row args1 key1 world_hiccup 2]"
    by (simp add: numeral_3_eq_3 del: upsert_times.simps)
  have s2: "j_first_seen (stored_row args1 key1 world_hiccup 2) = 100"
    "j_last_seen (stored_row args1 key1 world_hiccup 2) = 102"
    using t by (simp_all add: stored_row_def new_row_def)
  have c0: "configured world0" and j0: "jobs world0 = []" and f0: "faults world0 = []"
    by (simp_all add: world0_def)
  have st0: "settle (faults world0) = Some []" "settle [] = Some []"
    by (simp_all add: f0 settle_def numeral_3_eq_3)
  have fresh0: "filter (\<lambda>r. j_url_hash r = key1) (jobs world0) = []" by (simp add: j0)
  note ins = upsert_job_insert [OF c0 st0 hash_args1 fresh0]
  have row0: "(new_row args1 key1 (clock world0 (ticks world0)))\<lparr>j_id := next_job_id world0\<rparr>
                = stored_row args1 key1 world0 0"
    by (simp add: stored_row_def new_row_def)
  let ?v = "snd (upsert_job args1 world0)"
  from ins row0 j0 have v: "configured ?v" "faults ?v = []"
    "jobs ?v = [] @ stored_row args1 key1 world0 0 # []" "clock ?v = clock0" "ticks ?v = 1"
    by (simp_all add: world0_def)
  have av: "answered 2 (faults ?v)" by (simp add: v(2) numeral_2_eq_2 settle_def numeral_3_eq_3)
  have hyp: "configured ?v \<and> answered 2 (faults ?v) \<and> hash_url (a_url args1_again) = Inr key1
      \<and> jobs ?v = [] @ stored_row args1 key1 world0 0 # []
      \<and> j_url_hash (stored_row args1 key1 world0 0) = key1
      \<and> list_all (\<lambda>r. j_url_hash r \<noteq> key1 \<and> j_id r \<noteq> j_id (stored_row args1 key1 world0 0)) ([] @ [])"
    using v av hash_args1_again by (simp add: stored_row_key)
  have c00: "configured world0" and a00: "answered (2 * Suc 0) (faults world0)"
    and l00: "list_all (\<lambda>r. j_url_hash r \<noteq> key1 \<and> j_id r \<noteq> next_job_id world0) (jobs world0)"
    by (simp_all add: world0_def numeral_2_eq_2 settle_def numeral_3_eq_3)
  from C1_repeated_upsert [OF c00 a00 hash_args1 l00, of ?v args1_again "[]"
      "stored_row args1 key1 world0 0" "[]"] hyp
  have "fst (upsert_job args1_again ?v)
      = Inr (Some ((stored_row args1 key1 world0 0)
               \<lparr>j_last_seen := clock ?v (ticks ?v), j_is_active := True,
                j_company_id :=
                  (if a_company_id args1_again = None \<or> a_company_id args1_again = Some []
                   then j_company_id (stored_row args1 key1 world0 0) else a_company_id args1_again),
                j_salary_min :=
                  (if a_salary_min args1_again = None then j_salary_min (stored_row args1 key1 world0 0)
                   else a_salary_min args1_again),
                j_salary_max :=
                  (if a_salary_max args1_again = None then j_salary_max (stored_row args1 key1 world0 0)
                   else a_salary_max args1_again)\<rparr>), False)"
    by blast
  moreover have "clock ?v (ticks ?v) = 101" by (simp add: v(4,5) clock0_def)
  moreover have "(stored_row args1 key1 world0 0)
               \<lparr>j_last_seen := 101, j_is_active := True,
                j_company_id :=
                  (if a_company_id args1_again = None \<or> a_company_id args1_again = Some []
                   then j_company_id (stored_row args1 key1 world0 0) else a_company_id args1_again),
                j_salary_min :=
                  (if a_salary_min args1_again = None then j_salary_min (stored_row args1 key1 world0 0)
                   else a_salary_min args1_again),
                j_salary_max :=
                  (if a_salary_max args1_again = None then j_salary_max (stored_row args1 key1 world0 0)
                   else a_salary_max args1_again)\<rparr>
      = (stored_row args1 key1 world0 0)\<lparr>j_last_seen := 101, j_salary_min := Some 90000\<rparr>"
    by (simp add: args1_again_def args1_def job_args_of_def job1_def stored_row_def new_row_def)
  ultimately have s3: "fst (upsert_job args1_again ?v)
      = Inr (Some ((stored_row args1 key1 world0 0)\<lparr>j_last_seen := 101, j_salary_min := Some 90000\<rparr>),
             False)"
    by (simp only:)
  have s4: "jobs ?v = [stored_row args1 key1 world0 0]" using v(3) by simp
  have s5: "j_salary_min (stored_row args1 key1 world0 0) = None"
    "j_title ((stored_row args1 key1 world0 0)\<lparr>j_last_seen := 101, j_salary_min := Some 90000\<rparr>)
      = ''Engineer''"
    by (simp_all add: stored_row_def new_row_def args1_def job_args_of_def job1_def) code_simp
  from c an j hash_args1 hash_args1_again s1 s2 s3 s4 s5 show ?thesis by blast
qed

text \<open>The claim as stated fails when the store does not answer: over \<open>world_dropping\<close> the
  lookup is answered and the insert fails on all three attempts.  The first application
  returns \<^verbatim>\<open>(None, False)\<close> and stores nothing; the second application is the one that
  inserts and returns \<^verbatim>\<open>is_new = True\<close>, and \<^verbatim>\<open>first_seen\<close> is its time.\<close>

lemma dropping_value:
  "(let X = upsert_job args1 world_dropping; Y = upsert_job args1 (snd X)
    in (fst X, jobs (snd X), slept (snd X), map_sum id snd (fst Y), map j_first_seen (jobs (snd Y))))
   = (Inr (None, False), [], [1, 2], Inr True, [101])"
  by code_simp

theorem C1_failed_insert_is_not_new:
  "fst (upsert_job args1 world_dropping) = Inr (None, False)
 \<and> jobs (snd (upsert_job args1 world_dropping)) = []
 \<and> map_sum id snd (fst (upsert_job args1 (snd (upsert_job args1 world_dropping)))) = Inr True
 \<and> map j_first_seen (jobs (snd (upsert_job args1 (snd (upsert_job args1 world_dropping))))) = [101]"
  using dropping_value by (simp add: Let_def)

text \<open>A record whose URL the parser rejects has no key: \<^verbatim>\<open>upsert_job\<close> raises.\<close>

lemma upsert_job_without_key:
  "fst (upsert_job (args1\<lparr>a_url := ''http://[::1''\<rparr>) world0) = Inl ValueError"
  by code_simp

subsection \<open>The loop over the results\<close>

lemmas res_defs = raised_of_def progress_of_def world_of_def disk_of_def

lemma apply_result_cases [consumes 0, case_names err empty dry writes]:
  obtains
    (err) "truthy (f_error r) \<noteq> None"
      "apply_result dr rem rid r p w d =
         (None, p\<lparr>error_count := error_count p + 1,
                  completed_ids := insert (f_company_id r) (completed_ids p)\<rparr>, w, d)"
  | (empty) "truthy (f_error r) = None" "f_jobs r = []"
      "apply_result dr rem rid r p w d =
         (None, p\<lparr>completed_ids := insert (f_company_id r) (completed_ids p)\<rparr>, w, d)"
  | (dry) "truthy (f_error r) = None" "f_jobs r \<noteq> []" "dr"
      "apply_result dr rem rid r p w d =
         (None, (entered p r)\<lparr>new_jobs := new_jobs p + int (length (f_jobs r)),
                  completed_ids := insert (f_company_id r) (completed_ids p)\<rparr>, w, d)"
  | (writes) args where "truthy (f_error r) = None" "f_jobs r \<noteq> []" "\<not> dr"
      "apply_result dr rem rid r p w d = write_jobs rid r args (entered p r) w d"
      "length args = length (f_jobs r)"
proof (cases "truthy (f_error r) \<noteq> None")
  case True
  then show ?thesis using err by (simp add: apply_result_def)
next
  case noerr: False
  show ?thesis
  proof (cases "f_jobs r = []")
    case True
    with noerr show ?thesis using empty by (simp add: apply_result_def)
  next
    case nonempty: False
    show ?thesis
    proof (cases dr)
      case True
      with noerr nonempty show ?thesis using dry by (simp add: apply_result_def Let_def entered_def)
    next
      case False
      with noerr nonempty show ?thesis using writes by (simp add: apply_result_def Let_def entered_def)
    qed
  qed
qed


lemma write_jobs_cases [consumes 0, case_names raised written checkpointed]:
  obtains
    (raised) e nj w1 where "upsert_all args (new_jobs p1) w = ((Some e, nj), w1)"
      "write_jobs rid r args p1 w d =
         (Some e, p1\<lparr>new_jobs := nj, error_count := error_count p1 + 1\<rparr>,
          w1\<lparr>ticks := ticks w1 + 1\<rparr>,
          save_checkpoint
            (checkpoint_of (p1\<lparr>new_jobs := nj, error_count := error_count p1 + 1\<rparr>) rid
               (clock w1 (ticks w1))) d)"
  | (written) nj w1 where "upsert_all args (new_jobs p1) w = ((None, nj), w1)"
      "card (insert (f_company_id r) (completed_ids p1)) mod 10 \<noteq> 0"
      "write_jobs rid r args p1 w d =
         (None, p1\<lparr>new_jobs := nj, completed_ids := insert (f_company_id r) (completed_ids p1)\<rparr>,
          update_company (f_company_id r) (clock w1 (ticks w1)) (int (length (f_jobs r)))
            (w1\<lparr>ticks := ticks w1 + 1\<rparr>), d)"
  | (checkpointed) nj w1 w3 where "upsert_all args (new_jobs p1) w = ((None, nj), w1)"
      "card (insert (f_company_id r) (completed_ids p1)) mod 10 = 0"
      "w3 = update_company (f_company_id r) (clock w1 (ticks w1)) (int (length (f_jobs r)))
              (w1\<lparr>ticks := ticks w1 + 1\<rparr>)"
      "write_jobs rid r args p1 w d =
         (None, p1\<lparr>new_jobs := nj, completed_ids := insert (f_company_id r) (completed_ids p1)\<rparr>,
          w3\<lparr>ticks := ticks w3 + 1\<rparr>,
          save_checkpoint
            (checkpoint_of
               (p1\<lparr>new_jobs := nj, completed_ids := insert (f_company_id r) (completed_ids p1)\<rparr>)
               rid (clock w3 (ticks w3))) d)"
proof -
  obtain eo nj w1 where u: "upsert_all args (new_jobs p1) w = ((eo, nj), w1)"
    by (cases "upsert_all args (new_jobs p1) w") auto
  show ?thesis
  proof (cases eo)
    case (Some e)
    with u show ?thesis using raised by (simp add: write_jobs_def now_def Let_def)
  next
    case None
    show ?thesis
    proof (cases "card (insert (f_company_id r) (completed_ids p1)) mod 10 = 0")
      case True
      with u None show ?thesis using checkpointed by (simp add: write_jobs_def now_def Let_def)
    next
      case False
      with u None show ?thesis using written by (simp add: write_jobs_def now_def Let_def)
    qed
  qed
qed


lemma write_jobs_disk_free:
  "raised_of (write_jobs rid r args p w d) = raised_of (write_jobs rid r args p w d')
 \<and> progress_of (write_jobs rid r args p w d) = progress_of (write_jobs rid r args p w d')
 \<and> world_of (write_jobs rid r args p w d) = world_of (write_jobs rid r args p w d')"
proof -
  obtain eo nj w1 where u: "upsert_all args (new_jobs p) w = ((eo, nj), w1)"
    by (cases "upsert_all args (new_jobs p) w") auto
  show ?thesis
    by (cases eo) (simp_all add: write_jobs_def u now_def Let_def res_defs)
qed

lemma apply_result_disk_free:
  "raised_of (apply_result dr rem rid r p w d) = raised_of (apply_result dr rem rid r p w d')
 \<and> progress_of (apply_result dr rem rid r p w d) = progress_of (apply_result dr rem rid r p w d')
 \<and> world_of (apply_result dr rem rid r p w d) = world_of (apply_result dr rem rid r p w d')"
  using write_jobs_disk_free [of rid r _ "entered p r" w d d']
  by (simp add: apply_result_def Let_def) (simp add: res_defs)

lemma apply_results_disk_free:
  "raised_of (apply_results dr rem rid rs p w d) = raised_of (apply_results dr rem rid rs p w d')
 \<and> progress_of (apply_results dr rem rid rs p w d) = progress_of (apply_results dr rem rid rs p w d')
 \<and> world_of (apply_results dr rem rid rs p w d) = world_of (apply_results dr rem rid rs p w d')"
proof (induction rs arbitrary: p w d d')
  case Nil
  show ?case by (simp add: res_defs)
next
  case (Cons r rs)
  obtain e1 p1 w1 d1 where a: "apply_result dr rem rid r p w d = (e1, p1, w1, d1)"
    by (cases "apply_result dr rem rid r p w d") auto
  obtain e2 p2 w2 d2 where b: "apply_result dr rem rid r p w d' = (e2, p2, w2, d2)"
    by (cases "apply_result dr rem rid r p w d'") auto
  from apply_result_disk_free [of dr rem rid r p w d d'] a b
  have eq: "e2 = e1" "p2 = p1" "w2 = w1" by (simp_all add: res_defs)
  show ?case
  proof (cases e1)
    case None
    with a b eq Cons.IH [of p1 w1 d1 d2] show ?thesis by simp
  next
    case (Some e)
    with a b eq show ?thesis by (simp add: res_defs)
  qed
qed

lemma upsert_all_new_jobs_mono: "nj \<le> snd (fst (upsert_all as nj w))"
proof (induction as arbitrary: nj w)
  case Nil
  show ?case by simp
next
  case (Cons a as)
  show ?case
  proof (cases "upsert_job a w")
    case (Pair r w')
    show ?thesis
    proof (cases r)
      case (Inl e)
      with Pair show ?thesis by simp
    next
      case (Inr v)
      obtain row b where v: "v = (row, b)" by (cases v)
      from Cons.IH [of "if b then nj + 1 else nj" w'] Pair Inr v
      show ?thesis by (simp split: if_splits)
    qed
  qed
qed

lemma write_jobs_mono:
  "completed_ids p \<subseteq> completed_ids (progress_of (write_jobs rid r args p w d))
 \<and> total_jobs p \<le> total_jobs (progress_of (write_jobs rid r args p w d))
 \<and> new_jobs p \<le> new_jobs (progress_of (write_jobs rid r args p w d))
 \<and> error_count p \<le> error_count (progress_of (write_jobs rid r args p w d))"
proof (cases rule: write_jobs_cases [of args p w rid r d])
  case (raised e nj w1)
  from upsert_all_new_jobs_mono [of "new_jobs p" args w] raised(1) have "new_jobs p \<le> nj" by simp
  with raised(2) show ?thesis by (simp add: res_defs)
next
  case (written nj w1)
  from upsert_all_new_jobs_mono [of "new_jobs p" args w] written(1) have "new_jobs p \<le> nj" by simp
  with written(3) show ?thesis by (auto simp: res_defs)
next
  case (checkpointed nj w1 w3)
  from upsert_all_new_jobs_mono [of "new_jobs p" args w] checkpointed(1) have "new_jobs p \<le> nj" by simp
  with checkpointed(4) show ?thesis by (auto simp: res_defs)
qed

lemma apply_result_mono:
  "completed_ids p \<subseteq> completed_ids (progress_of (apply_result dr rem rid r p w d))
 \<and> total_jobs p \<le> total_jobs (progress_of (apply_result dr rem rid r p w d))
 \<and> new_jobs p \<le> new_jobs (progress_of (apply_result dr rem rid r p w d))
 \<and> error_count p \<le> error_count (progress_of (apply_result dr rem rid r p w d))"
proof (cases rule: apply_result_cases [of r dr rem rid p w d])
  case err
  then show ?thesis by (auto simp: res_defs)
next
  case empty
  then show ?thesis by (auto simp: res_defs)
next
  case dry
  then show ?thesis by (auto simp: res_defs entered_def)
next
  case (writes args)
  from write_jobs_mono [of "entered p r" rid r args w d] writes(4)
  show ?thesis by (auto simp: entered_def)
qed

lemma save_checkpoint_lags:
  "disk_lags p d \<Longrightarrow> disk_lags p (save_checkpoint (checkpoint_of p rid t) d)"
  by (cases "disk_events d"; cases "hd (disk_events d)")
     (auto simp: disk_lags_def save_checkpoint_def checkpoint_of_def split: ckfile.splits)

lemma disk_lags_mono:
  "disk_lags p d \<Longrightarrow> completed_ids p \<subseteq> completed_ids p' \<Longrightarrow> total_jobs p \<le> total_jobs p'
     \<Longrightarrow> new_jobs p \<le> new_jobs p' \<Longrightarrow> error_count p \<le> error_count p' \<Longrightarrow> disk_lags p' d"
  by (cases "on_disk d") (auto simp: disk_lags_def)

lemma write_jobs_disk:
  "disk_of (write_jobs rid r args p w d) = d
 \<or> (\<exists>t. disk_of (write_jobs rid r args p w d)
          = save_checkpoint (checkpoint_of (progress_of (write_jobs rid r args p w d)) rid t) d)"
  by (cases rule: write_jobs_cases [of args p w rid r d]) (auto simp: res_defs)

lemma apply_result_disk:
  "disk_of (apply_result dr rem rid r p w d) = d
 \<or> (\<exists>t. disk_of (apply_result dr rem rid r p w d)
          = save_checkpoint (checkpoint_of (progress_of (apply_result dr rem rid r p w d)) rid t) d)"
proof (cases rule: apply_result_cases [of r dr rem rid p w d])
  case (writes args)
  with write_jobs_disk [of rid r args "entered p r" w d] show ?thesis by simp
qed (simp_all add: res_defs)

lemma apply_result_lags:
  assumes "disk_lags p d"
  shows "disk_lags (progress_of (apply_result dr rem rid r p w d)) (disk_of (apply_result dr rem rid r p w d))"
proof -
  let ?x = "apply_result dr rem rid r p w d"
  have m: "completed_ids p \<subseteq> completed_ids (progress_of ?x)" "total_jobs p \<le> total_jobs (progress_of ?x)"
          "new_jobs p \<le> new_jobs (progress_of ?x)" "error_count p \<le> error_count (progress_of ?x)"
    using apply_result_mono [of p dr rem rid r w d] by simp_all
  have l: "disk_lags (progress_of ?x) d"
    by (rule disk_lags_mono [OF assms m])
  from apply_result_disk [of dr rem rid r p w d] show ?thesis
  proof
    assume "disk_of ?x = d"
    with l show ?thesis by simp
  next
    assume "\<exists>t. disk_of ?x = save_checkpoint (checkpoint_of (progress_of ?x) rid t) d"
    then obtain t where "disk_of ?x = save_checkpoint (checkpoint_of (progress_of ?x) rid t) d" ..
    with save_checkpoint_lags [OF l, of rid t] show ?thesis by simp
  qed
qed

lemma apply_results_lags:
  "disk_lags p d \<Longrightarrow>
     disk_lags (progress_of (apply_results dr rem rid rs p w d)) (disk_of (apply_results dr rem rid rs p w d))"
proof (induction rs arbitrary: p w d)
  case Nil
  then show ?case by (simp add: res_defs)
next
  case (Cons r rs)
  obtain e1 p1 w1 d1 where a: "apply_result dr rem rid r p w d = (e1, p1, w1, d1)"
    by (cases "apply_result dr rem rid r p w d") auto
  from apply_result_lags [OF Cons.prems, of dr rem rid r w] a
  have l: "disk_lags p1 d1" by (simp add: res_defs)
  show ?case
  proof (cases e1)
    case None
    with a Cons.IH [OF l, of w1] show ?thesis by simp
  next
    case (Some e)
    with a l show ?thesis by (simp add: res_defs)
  qed
qed

lemma write_jobs_totals:
  assumes "raised_of (write_jobs rid r args p w d) = None"
  shows "total_jobs (progress_of (write_jobs rid r args p w d)) = total_jobs p
       \<and> error_count (progress_of (write_jobs rid r args p w d)) = error_count p
       \<and> completed_ids (progress_of (write_jobs rid r args p w d)) = insert (f_company_id r) (completed_ids p)"
  using assms
  by (cases rule: write_jobs_cases [of args p w rid r d]) (auto simp: res_defs)

lemma write_jobs_raised:
  assumes "raised_of (write_jobs rid r args p w d) = Some e"
  shows "total_jobs (progress_of (write_jobs rid r args p w d)) = total_jobs p
       \<and> error_count (progress_of (write_jobs rid r args p w d)) = error_count p + 1
       \<and> completed_ids (progress_of (write_jobs rid r args p w d)) = completed_ids p
       \<and> (\<exists>t. disk_of (write_jobs rid r args p w d)
              = save_checkpoint (checkpoint_of (progress_of (write_jobs rid r args p w d)) rid t) d)
       \<and> (\<exists>nj w1. upsert_all args (new_jobs p) w = ((Some e, nj), w1))"
  using assms
  by (cases rule: write_jobs_cases [of args p w rid r d]) (auto simp: res_defs)

lemma apply_result_totals:
  assumes "raised_of (apply_result dr rem rid r p w d) = None"
  shows "total_jobs (progress_of (apply_result dr rem rid r p w d)) = total_jobs p + jobs_found [r]
       \<and> error_count (progress_of (apply_result dr rem rid r p w d)) = error_count p + errors_found [r]
       \<and> completed_ids (progress_of (apply_result dr rem rid r p w d)) = insert (f_company_id r) (completed_ids p)"
proof (cases rule: apply_result_cases [of r dr rem rid p w d])
  case err
  then show ?thesis by (auto simp: res_defs jobs_found_def errors_found_def)
next
  case empty
  then show ?thesis by (simp add: res_defs jobs_found_def errors_found_def)
next
  case dry
  then show ?thesis by (simp add: res_defs jobs_found_def errors_found_def entered_def)
next
  case (writes args)
  with assms write_jobs_totals [of rid r args "entered p r" w d]
  show ?thesis by (simp add: jobs_found_def errors_found_def entered_def)
qed

lemma apply_result_raised:
  assumes "raised_of (apply_result dr rem rid r p w d) = Some e"
  shows "error_count (progress_of (apply_result dr rem rid r p w d)) = error_count p + 1
       \<and> completed_ids (progress_of (apply_result dr rem rid r p w d)) = completed_ids p
       \<and> (\<exists>t. disk_of (apply_result dr rem rid r p w d)
              = save_checkpoint (checkpoint_of (progress_of (apply_result dr rem rid r p w d)) rid t) d)
       \<and> \<not> dr \<and> truthy (f_error r) = None \<and> f_jobs r \<noteq> []"
proof (cases rule: apply_result_cases [of r dr rem rid p w d])
  case err
  with assms show ?thesis by (simp add: res_defs)
next
  case empty
  with assms show ?thesis by (simp add: res_defs)
next
  case dry
  with assms show ?thesis by (simp add: res_defs)
next
  case (writes args)
  with assms write_jobs_raised [of rid r args "entered p r" w d e]
  show ?thesis by (simp add: entered_def)
qed

lemma jobs_found_Cons: "jobs_found (r # rs) = jobs_found [r] + jobs_found rs"
  by (simp add: jobs_found_def)

lemma errors_found_Cons: "errors_found (r # rs) = errors_found [r] + errors_found rs"
  by (simp add: errors_found_def)

lemma apply_results_totals:
  "raised_of (apply_results dr rem rid rs p w d) = None \<Longrightarrow>
     total_jobs (progress_of (apply_results dr rem rid rs p w d)) = total_jobs p + jobs_found rs
   \<and> error_count (progress_of (apply_results dr rem rid rs p w d)) = error_count p + errors_found rs
   \<and> completed_ids (progress_of (apply_results dr rem rid rs p w d))
        = completed_ids p \<union> f_company_id ` set rs"
proof (induction rs arbitrary: p w d)
  case Nil
  show ?case by (simp add: res_defs jobs_found_def errors_found_def)
next
  case (Cons r rs)
  obtain e1 p1 w1 d1 where a: "apply_result dr rem rid r p w d = (e1, p1, w1, d1)"
    by (cases "apply_result dr rem rid r p w d") auto
  show ?case
  proof (cases e1)
    case None
    with a Cons.prems have n: "raised_of (apply_results dr rem rid rs p1 w1 d1) = None" by simp
    from a None apply_result_totals [of dr rem rid r p w d]
    have s: "total_jobs p1 = total_jobs p + jobs_found [r]"
            "error_count p1 = error_count p + errors_found [r]"
            "completed_ids p1 = insert (f_company_id r) (completed_ids p)"
      by (simp_all add: res_defs)
    from Cons.IH [OF n] a None s show ?thesis
      by (auto simp: jobs_found_Cons [of r rs] errors_found_Cons [of r rs])
  next
    case (Some e)
    with a Cons.prems show ?thesis by (simp add: res_defs)
  qed
qed

lemma apply_results_mono:
  "completed_ids p \<subseteq> completed_ids (progress_of (apply_results dr rem rid rs p w d))
 \<and> total_jobs p \<le> total_jobs (progress_of (apply_results dr rem rid rs p w d))
 \<and> new_jobs p \<le> new_jobs (progress_of (apply_results dr rem rid rs p w d))
 \<and> error_count p \<le> error_count (progress_of (apply_results dr rem rid rs p w d))"
proof (induction rs arbitrary: p w d)
  case Nil
  show ?case by (simp add: res_defs)
next
  case (Cons r rs)
  obtain e1 p1 w1 d1 where a: "apply_result dr rem rid r p w d = (e1, p1, w1, d1)"
    by (cases "apply_result dr rem rid r p w d") auto
  from apply_result_mono [of p dr rem rid r w d] a
  have m: "completed_ids p \<subseteq> completed_ids p1" "total_jobs p \<le> total_jobs p1"
          "new_jobs p \<le> new_jobs p1" "error_count p \<le> error_count p1"
    by (simp_all add: res_defs)
  show ?case
  proof (cases e1)
    case None
    from Cons.IH [of p1 w1 d1] a None m show ?thesis by auto
  next
    case (Some e)
    with a m show ?thesis by (simp add: res_defs)
  qed
qed

lemmas run_defs = outcome_of_def final_progress_def requested_urls_def final_world_def final_disk_def

lemma get_client_tables:
  "companies (snd (get_client w)) = companies w \<and> jobs (snd (get_client w)) = jobs w
 \<and> runs (snd (get_client w)) = runs w \<and> faults (snd (get_client w)) = faults w"
  by (simp add: get_client_def split: option.splits)

lemma get_verified_companies_result:
  "fst (get_verified_companies ats w) = Inr cs \<Longrightarrow> cs = verified_companies ats w"
proof -
  assume a: "fst (get_verified_companies ats w) = Inr cs"
  obtain r w1 where g: "get_client w = (r, w1)" by (cases "get_client w") auto
  with get_client_tables [of w] have c: "companies w1 = companies w" by simp
  from a g c show ?thesis
    by (cases r; cases "faults w1"; cases "hd (faults w1)")
       (auto simp: get_verified_companies_def request_def verified_companies_def)
qed

lemma scrape_company_requests:
  "u \<in> set (snd (scrape_company net parse_jobs c)) \<Longrightarrow> c_api_url c = Some u"
  by (cases "c_api_url c" rule: truthy.cases)
     (auto simp: scrape_company_def split: if_splits)

lemma initial_progress_resume:
  "resume opts \<Longrightarrow> \<not> fresh opts \<Longrightarrow> on_disk d = Stored ck \<Longrightarrow>
     initial_progress opts d =
       (\<lparr>completed_ids = ck_completed_ids ck, total_jobs = ck_total_jobs ck,
         new_jobs = ck_new_jobs ck, error_count = ck_errors ck, companies_with_jobs = 0\<rparr>,
        ck_run_id ck)"
  by (simp add: initial_progress_def load_checkpoint_def)

lemma close_run_disk_free:
  "fst (close_run opts rid p w d) = fst (close_run opts rid p w d')
 \<and> fst (snd (close_run opts rid p w d)) = fst (snd (close_run opts rid p w d'))"
  by (simp add: close_run_def split: prod.splits sum.splits)

lemma run_scraper_cases [consumes 0, case_names query_failed nothing start_failed looped]:
  fixes opts net parse_jobs w0 d0
  defines "p0 \<equiv> fst (initial_progress opts d0)"
  defines "d1 \<equiv> (if fresh opts then clear_checkpoint d0 else d0)"
  obtains
    (query_failed) e w1 where
      "get_verified_companies (ats_filter opts) w0 = (Inl e, w1)"
      "run_scraper opts net parse_jobs w0 d0 = (Raised e, p0, [], w1, d1)"
  | (nothing) w1 where
      "get_verified_companies (ats_filter opts) w0 = (Inr (verified_companies (ats_filter opts) w0), w1)"
      "select_companies opts (verified_companies (ats_filter opts) w0) = []"
      "run_scraper opts net parse_jobs w0 d0 = (NothingToScrape, p0, [], w1, d1)"
  | (start_failed) e w1 w2 where
      "get_verified_companies (ats_filter opts) w0 = (Inr (verified_companies (ats_filter opts) w0), w1)"
      "select_companies opts (verified_companies (ats_filter opts) w0) \<noteq> []"
      "open_run opts (snd (initial_progress opts d0)) w1 = (Inl e, w2)"
      "run_scraper opts net parse_jobs w0 d0 = (Raised e, p0, [], w2, d1)"
  | (looped) w1 w2 rid rem where
      "get_verified_companies (ats_filter opts) w0 = (Inr (verified_companies (ats_filter opts) w0), w1)"
      "select_companies opts (verified_companies (ats_filter opts) w0) \<noteq> []"
      "open_run opts (snd (initial_progress opts d0)) w1 = (Inr rid, w2)"
      "rem = filter (\<lambda>c. c_id c \<notin> completed_ids p0)
                (select_companies opts (verified_companies (ats_filter opts) w0))"
      "run_scraper opts net parse_jobs w0 d0 =
         (case apply_results (dry_run opts) rem rid
                 (map fst (map (scrape_company net parse_jobs) rem)) p0 w2 d1 of
            (Some e, p, w3, d2) \<Rightarrow>
              (Raised e, p, concat (map snd (map (scrape_company net parse_jobs) rem)), w3, d2)
          | (None, p, w3, d2) \<Rightarrow>
              (case close_run opts rid p w3 d2 of
                 (res, w4, d3) \<Rightarrow>
                   (res, p, concat (map snd (map (scrape_company net parse_jobs) rem)), w4, d3)))"
proof -
  obtain pp rid0 where ip: "initial_progress opts d0 = (pp, rid0)"
    by (cases "initial_progress opts d0") auto
  then have pp: "pp = p0" by (simp add: p0_def)
  obtain r w1 where g: "get_verified_companies (ats_filter opts) w0 = (r, w1)"
    by (cases "get_verified_companies (ats_filter opts) w0") auto
  show ?thesis
  proof (cases r)
    case (Inl e)
    show ?thesis
      by (rule query_failed [of e w1])
         (use g Inl ip pp in \<open>simp_all add: run_scraper_def d1_def\<close>)
  next
    case (Inr cs)
    with g get_verified_companies_result [of "ats_filter opts" w0 cs]
    have cs: "cs = verified_companies (ats_filter opts) w0" by simp
    show ?thesis
    proof (cases "select_companies opts cs = []")
      case True
      show ?thesis
        by (rule nothing [of w1])
           (use g Inr cs ip pp True in \<open>simp_all add: run_scraper_def d1_def\<close>)
    next
      case ne: False
      obtain r2 w2 where o: "open_run opts rid0 w1 = (r2, w2)"
        by (cases "open_run opts rid0 w1") auto
      show ?thesis
      proof (cases r2)
        case (Inl e)
        show ?thesis
          by (rule start_failed [of w1 e w2])
             (use g Inr Inl cs ip pp ne o in \<open>simp_all add: run_scraper_def d1_def Let_def\<close>)
      next
        case r2: (Inr rid)
        show ?thesis
          by (rule looped [of w1 rid w2])
             (use g Inr r2 cs ip pp ne o in \<open>simp_all add: run_scraper_def d1_def Let_def\<close>)
      qed
    qed
  qed
qed

lemma run_scraper_disk_free:
  assumes same: "on_disk d = on_disk d'"
  shows "outcome_of (run_scraper opts net pj w0 d) = outcome_of (run_scraper opts net pj w0 d')
       \<and> final_progress (run_scraper opts net pj w0 d) = final_progress (run_scraper opts net pj w0 d')
       \<and> requested_urls (run_scraper opts net pj w0 d) = requested_urls (run_scraper opts net pj w0 d')
       \<and> final_world (run_scraper opts net pj w0 d) = final_world (run_scraper opts net pj w0 d')"
proof -
  from same have ip: "initial_progress opts d' = initial_progress opts d"
    by (simp add: initial_progress_def load_checkpoint_def)
  obtain p0 rid0 where i: "initial_progress opts d = (p0, rid0)"
    by (cases "initial_progress opts d") auto
  obtain r w1 where g: "get_verified_companies (ats_filter opts) w0 = (r, w1)"
    by (cases "get_verified_companies (ats_filter opts) w0") auto
  show ?thesis
  proof (cases r)
    case (Inl e)
    with g i ip show ?thesis by (simp add: run_scraper_def run_defs)
  next
    case (Inr cs)
    show ?thesis
    proof (cases "select_companies opts cs = []")
      case True
      with g i ip Inr show ?thesis by (simp add: run_scraper_def run_defs)
    next
      case ne: False
      obtain r2 w2 where o: "open_run opts rid0 w1 = (r2, w2)"
        by (cases "open_run opts rid0 w1") auto
      show ?thesis
      proof (cases r2)
        case (Inl e)
        with g i ip Inr ne o show ?thesis by (simp add: run_scraper_def run_defs Let_def)
      next
        case r2: (Inr rid)
        let ?rem = "filter (\<lambda>c. c_id c \<notin> completed_ids p0) (select_companies opts cs)"
        let ?rs = "map fst (map (scrape_company net pj) ?rem)"
        let ?d1 = "if fresh opts then clear_checkpoint d else d"
        let ?d1' = "if fresh opts then clear_checkpoint d' else d'"
        obtain e p w3 d2 where x: "apply_results (dry_run opts) ?rem rid ?rs p0 w2 ?d1 = (e, p, w3, d2)"
          by (cases "apply_results (dry_run opts) ?rem rid ?rs p0 w2 ?d1") auto
        obtain e' p' w3' d2' where x': "apply_results (dry_run opts) ?rem rid ?rs p0 w2 ?d1' = (e', p', w3', d2')"
          by (cases "apply_results (dry_run opts) ?rem rid ?rs p0 w2 ?d1'") auto
        from apply_results_disk_free [of "dry_run opts" ?rem rid ?rs p0 w2 ?d1 ?d1'] x x'
        have eq: "e' = e" "p' = p" "w3' = w3" by (simp_all add: res_defs)
        show ?thesis
        proof (cases e)
          case (Some ex)
          with g i ip Inr ne o r2 x x' eq show ?thesis
            by (simp add: run_scraper_def run_defs Let_def)
        next
          case None
          obtain res w4 d3 where c: "close_run opts rid p w3 d2 = (res, w4, d3)"
            by (cases "close_run opts rid p w3 d2") auto
          obtain res' w4' d3' where c': "close_run opts rid p w3 d2' = (res', w4', d3')"
            by (cases "close_run opts rid p w3 d2'") auto
          from close_run_disk_free [of opts rid p w3 d2 d2'] c c'
          have "res' = res" "w4' = w4" by simp_all
          with g i ip Inr ne o r2 x x' eq None c c' show ?thesis
            by (simp add: run_scraper_def run_defs Let_def)
        qed
      qed
    qed
  qed
qed


lemma retry_not_None: "fst (retry fn w) \<noteq> Inr None"
  unfolding retry_def
  by (simp split: prod.splits sum.splits)

lemma upsert_job_raises:
  assumes "fst (upsert_job a w) = Inl e"
  shows "hash_url (a_url a) = Inl e
       \<or> (\<exists>k. hash_url (a_url a) = Inr k
              \<and> fst (retry (request (select_job_ids k)) (snd (now w))) = Inl e)"
proof (cases "hash_url (a_url a)")
  case (Inl e')
  with assms show ?thesis by (simp add: upsert_job_def)
next
  case (Inr k)
  obtain t w1 where n: "now w = (t, w1)" by (cases "now w") auto
  obtain r w2 where s: "retry (request (select_job_ids k)) w1 = (r, w2)"
    by (cases "retry (request (select_job_ids k)) w1") auto
  from retry_not_None [of "request (select_job_ids k)" w1] s have nn: "r \<noteq> Inr None" by simp
  show ?thesis
  proof (cases r)
    case (Inl e')
    with assms Inr n s show ?thesis by (simp add: upsert_job_def)
  next
    case r: (Inr v)
    with nn obtain ids where v: "v = Some ids" by (cases v) auto
    from assms Inr n s r v have False
      by (cases ids) (simp_all add: upsert_job_def split: prod.splits sum.splits)
    then show ?thesis ..
  qed
qed

lemma upsert_job_swallows:
  assumes "hash_url (a_url a) = Inr k"
      and "fst (retry (request (select_job_ids k)) (snd (now w))) = Inr (Some ids)"
  shows "\<exists>row b. fst (upsert_job a w) = Inr (row, b)"
proof -
  obtain t w1 where n: "now w = (t, w1)" by (cases "now w") auto
  obtain r w2 where s: "retry (request (select_job_ids k)) w1 = (r, w2)"
    by (cases "retry (request (select_job_ids k)) w1") auto
  with assms(2) n have r: "r = Inr (Some ids)" by simp
  from assms(1) n s r show ?thesis
    by (cases ids) (auto simp: upsert_job_def split: prod.splits sum.splits)
qed

lemma upsert_all_raised:
  "fst (fst (upsert_all as nj w)) = Some e \<Longrightarrow> \<exists>a w'. a \<in> set as \<and> fst (upsert_job a w') = Inl e"
proof (induction as arbitrary: nj w)
  case Nil
  then show ?case by simp
next
  case (Cons a as)
  obtain r w1 where u: "upsert_job a w = (r, w1)" by (cases "upsert_job a w") auto
  show ?case
  proof (cases r)
    case (Inl e')
    with u Cons.prems have "e' = e" by simp
    with u Inl have "fst (upsert_job a w) = Inl e" by simp
    then show ?thesis by auto
  next
    case (Inr v)
    obtain row b where v: "v = (row, b)" by (cases v)
    from Cons.prems u Inr v
    have "fst (fst (upsert_all as (if b then nj + 1 else nj) w1)) = Some e" by simp
    from Cons.IH [OF this] show ?thesis by auto
  qed
qed

lemma write_jobs_raised_upsert:
  assumes "raised_of (write_jobs rid r args p w d) = Some e"
  shows "\<exists>a w'. a \<in> set args \<and> fst (upsert_job a w') = Inl e"
proof -
  from write_jobs_raised [OF assms]
  obtain nj w1 where "upsert_all args (new_jobs p) w = ((Some e, nj), w1)" by auto
  then have "fst (fst (upsert_all args (new_jobs p) w)) = Some e" by simp
  from upsert_all_raised [OF this] show ?thesis .
qed

lemma apply_result_raised_upsert:
  assumes "raised_of (apply_result dr rem rid r p w d) = Some e"
  shows "\<exists>a w'. a_url a \<in> pj_url ` set (f_jobs r) \<and> fst (upsert_job a w') = Inl e"
proof (cases rule: apply_result_cases [of r dr rem rid p w d])
  case err
  with assms show ?thesis by (simp add: res_defs)
next
  case empty
  with assms show ?thesis by (simp add: res_defs)
next
  case dry
  with assms show ?thesis by (simp add: res_defs)
next
  case (writes args)
  from assms have "raised_of (apply_result dr rem rid r p w d) = Some e" .
  moreover have "apply_result dr rem rid r p w d =
      write_jobs rid r
        (map (job_args_of
               (case find (\<lambda>c. c_id c = f_company_id r) rem of Some c \<Rightarrow> c_ats c | None \<Rightarrow> ''unknown'')
               (case find (\<lambda>c. c_id c = f_company_id r) rem of Some c \<Rightarrow> c_name c | None \<Rightarrow> None)
               (f_company_id r)) (f_jobs r)) (entered p r) w d"
    using writes(1,2,3) by (simp add: apply_result_def Let_def)
  ultimately obtain a w' where
    a: "a \<in> set (map (job_args_of
               (case find (\<lambda>c. c_id c = f_company_id r) rem of Some c \<Rightarrow> c_ats c | None \<Rightarrow> ''unknown'')
               (case find (\<lambda>c. c_id c = f_company_id r) rem of Some c \<Rightarrow> c_name c | None \<Rightarrow> None)
               (f_company_id r)) (f_jobs r))" "fst (upsert_job a w') = Inl e"
    using write_jobs_raised_upsert by metis
  from a(1) have "a_url a \<in> pj_url ` set (f_jobs r)" by (auto simp: job_args_of_def)
  with a(2) show ?thesis by blast
qed

lemma run_scraper_raised:
  assumes "get_verified_companies (ats_filter opts) w0 = (Inr cs, w1)"
      and "select_companies opts cs \<noteq> []"
      and "open_run opts (snd (initial_progress opts d0)) w1 = (Inr rid, w2)"
      and "raised_of
             (apply_results (dry_run opts)
                (filter (\<lambda>c. c_id c \<notin> completed_ids (fst (initial_progress opts d0))) (select_companies opts cs))
                rid
                (map fst (map (scrape_company net pj)
                   (filter (\<lambda>c. c_id c \<notin> completed_ids (fst (initial_progress opts d0))) (select_companies opts cs))))
                (fst (initial_progress opts d0)) w2 (if fresh opts then clear_checkpoint d0 else d0)) = Some e"
  shows "outcome_of (run_scraper opts net pj w0 d0) = Raised e
       \<and> final_disk (run_scraper opts net pj w0 d0) =
           disk_of (apply_results (dry_run opts)
                (filter (\<lambda>c. c_id c \<notin> completed_ids (fst (initial_progress opts d0))) (select_companies opts cs))
                rid
                (map fst (map (scrape_company net pj)
                   (filter (\<lambda>c. c_id c \<notin> completed_ids (fst (initial_progress opts d0))) (select_companies opts cs))))
                (fst (initial_progress opts d0)) w2 (if fresh opts then clear_checkpoint d0 else d0))"
proof -
  obtain p0 rid0 where i: "initial_progress opts d0 = (p0, rid0)"
    by (cases "initial_progress opts d0") auto
  let ?rem = "filter (\<lambda>c. c_id c \<notin> completed_ids p0) (select_companies opts cs)"
  let ?d1 = "if fresh opts then clear_checkpoint d0 else d0"
  obtain ex p w3 d2 where
    x: "apply_results (dry_run opts) ?rem rid (map fst (map (scrape_company net pj) ?rem)) p0 w2 ?d1
          = (ex, p, w3, d2)"
    by (cases "apply_results (dry_run opts) ?rem rid (map fst (map (scrape_company net pj) ?rem)) p0 w2 ?d1")
       auto
  with assms(4) i have ex: "ex = Some e" by (simp add: res_defs)
  from assms(1,2,3) i x ex show ?thesis
    by (simp add: run_scraper_def run_defs res_defs Let_def)
qed


lemma upsert_all_new_jobs_le: "snd (fst (upsert_all as nj w)) \<le> nj + int (length as)"
proof (induction as arbitrary: nj w)
  case Nil
  show ?case by simp
next
  case (Cons a as)
  obtain r w1 where u: "upsert_job a w = (r, w1)" by (cases "upsert_job a w") auto
  show ?case
  proof (cases r)
    case (Inl e)
    with u show ?thesis by simp
  next
    case (Inr v)
    obtain row b where v: "v = (row, b)" by (cases v)
    from Cons.IH [of "if b then nj + 1 else nj" w1] u Inr v
    show ?thesis by (simp split: if_splits)
  qed
qed

lemma write_jobs_new_jobs_le:
  "new_jobs (progress_of (write_jobs rid r args p w d)) \<le> new_jobs p + int (length args)"
proof (cases rule: write_jobs_cases [of args p w rid r d])
  case (raised e nj w1)
  from upsert_all_new_jobs_le [of args "new_jobs p" w] raised(1) have "nj \<le> new_jobs p + int (length args)" by simp
  with raised(2) show ?thesis by (simp add: res_defs)
next
  case (written nj w1)
  from upsert_all_new_jobs_le [of args "new_jobs p" w] written(1) have "nj \<le> new_jobs p + int (length args)" by simp
  with written(3) show ?thesis by (simp add: res_defs)
next
  case (checkpointed nj w1 w3)
  from upsert_all_new_jobs_le [of args "new_jobs p" w] checkpointed(1) have "nj \<le> new_jobs p + int (length args)" by simp
  with checkpointed(4) show ?thesis by (simp add: res_defs)
qed

lemma apply_result_new_jobs_le:
  "new_jobs (progress_of (apply_result dr rem rid r p w d)) \<le> new_jobs p + jobs_found [r]"
proof (cases rule: apply_result_cases [of r dr rem rid p w d])
  case err
  then show ?thesis by (auto simp: res_defs jobs_found_def)
next
  case empty
  then show ?thesis by (simp add: res_defs jobs_found_def)
next
  case dry
  then show ?thesis by (simp add: res_defs jobs_found_def entered_def)
next
  case (writes args)
  with write_jobs_new_jobs_le [of rid r args "entered p r" w d]
  show ?thesis by (simp add: jobs_found_def entered_def)
qed

lemma jobs_found_nonneg: "0 \<le> jobs_found rs"
  by (induction rs) (simp_all add: jobs_found_def)

lemma apply_results_new_jobs_le:
  "new_jobs (progress_of (apply_results dr rem rid rs p w d)) \<le> new_jobs p + jobs_found rs"
proof (induction rs arbitrary: p w d)
  case Nil
  show ?case by (simp add: res_defs jobs_found_def)
next
  case (Cons r rs)
  obtain e1 p1 w1 d1 where a: "apply_result dr rem rid r p w d = (e1, p1, w1, d1)"
    by (cases "apply_result dr rem rid r p w d") auto
  from apply_result_new_jobs_le [of dr rem rid r p w d] a
  have s: "new_jobs p1 \<le> new_jobs p + jobs_found [r]" by (simp add: res_defs)
  show ?case
  proof (cases e1)
    case None
    from Cons.IH [of p1 w1 d1] a None s show ?thesis
      by (simp add: jobs_found_Cons [of r rs])
  next
    case (Some e)
    with a s jobs_found_nonneg [of rs] show ?thesis
      by (simp add: res_defs jobs_found_Cons [of r rs])
  qed
qed

lemma requested_subset:
  "u \<in> set (concat (map snd (map (scrape_company net pj) cs))) \<Longrightarrow> \<exists>c\<in>set cs. c_api_url c = Some u"
  using scrape_company_requests by fastforce

lemma close_run_outcome:
  "fst (close_run opts rid p w d) = Finished \<or> (\<exists>e. fst (close_run opts rid p w d) = Raised e)"
  by (simp add: close_run_def split: prod.splits sum.splits)


subsection \<open>The example runs, evaluated\<close>

text \<open>Each example is run once; the claims below read the components off.\<close>

lemma after_ten_value:
  "(let X = after_ten
    in (raised_of X, card (completed_ids (progress_of X)), total_jobs (progress_of X),
        error_count (progress_of X), length (jobs (world_of X)), on_disk (disk_of X)))
   = (None, 10, 1, 0, 1, Absent)"
  by code_simp

lemma after_ten_last_value:
  "(let X = after_ten_last
    in (raised_of X, card (completed_ids (progress_of X)),
        map_option ck_completed_ids (load_checkpoint (disk_of X)),
        map_option ck_total_jobs (load_checkpoint (disk_of X))))
   = (None, 10, Some (c_id ` set ten_targets), Some 1)"
  by code_simp

lemma tenth_value:
  "(let X = tenth_unsaved; Y = tenth_saved
    in (card (completed_ids (progress_of X)), on_disk (disk_of X),
        map_option ck_completed_ids (load_checkpoint (disk_of Y))))
   = (10, Absent, Some (insert ''c10'' (ck_completed_ids ck9)))"
  by code_simp

lemma fifth_rejected_value:
  "raised_of fifth_rejected = Some (Exception ''permission denied for table jobs'')"
  by code_simp

lemma resumed_run_value:
  "(let R = resumed_run
    in (outcome_of R, requested_urls R, total_jobs (final_progress R), new_jobs (final_progress R),
        error_count (final_progress R), card (completed_ids (final_progress R)),
        on_disk (final_disk R)))
   = (Finished, [board_url ''c10''], 4, 2, 1, 10, Absent)"
  by code_simp

lemma lossy_run_value:
  "(let R = lossy_run
    in (outcome_of R, jobs (final_world R), total_jobs (final_progress R), new_jobs (final_progress R),
        error_count (final_progress R), completed_ids (final_progress R),
        slept (final_world R), faults (final_world R), on_disk (final_disk R)))
   = (Finished, [], 1, 0, 0, {''c05'', ''c06''}, [1, 2], [], Absent)"
  by code_simp


lemma fifth_upsert_rejected:
  "fst (upsert_job args1 world_rejecting) = Inl (Exception ''permission denied for table jobs'')"
  by code_simp

lemma lookup_in_empty_store:
  "fst (retry (request (select_job_ids key1)) (snd (now world0))) = Inr (Some [])"
  by code_simp

subsection \<open>Failures of the checkpoint write\<close>

text \<open>
  Claim C10.  An \<^verbatim>\<open>OSError\<close> while the checkpoint is written never aborts or alters the run:
  whatever the file system does (any two disks \<open>d\<close> and \<open>d'\<close>, with any scripts of failing
  and succeeding writes), the loop raises the same exception or none, reaches the same
  counters and the same completed set, and leaves the same store; and the whole run ends the
  same way with the same counters, requests and store on two disks that hold the same
  checkpoint file at the start.  The only trace is on the disk, where the checkpoint lags: a
  checkpoint found there lists only completed targets and counters that are not ahead of the
  loop's.  So the bound on how far the checkpoint lags is best effort: nothing in the loop
  notices a write that failed.
\<close>

theorem C10_checkpoint_write_failure_is_swallowed:
  "raised_of (apply_results dr rem rid rs p w d) = raised_of (apply_results dr rem rid rs p w d')
 \<and> progress_of (apply_results dr rem rid rs p w d) = progress_of (apply_results dr rem rid rs p w d')
 \<and> world_of (apply_results dr rem rid rs p w d) = world_of (apply_results dr rem rid rs p w d')
 \<and> (disk_lags p d \<longrightarrow>
       disk_lags (progress_of (apply_results dr rem rid rs p w d))
                 (disk_of (apply_results dr rem rid rs p w d)))
 \<and> (on_disk d = on_disk d' \<longrightarrow>
       outcome_of (run_scraper opts net pj w0 d) = outcome_of (run_scraper opts net pj w0 d')
     \<and> final_progress (run_scraper opts net pj w0 d) = final_progress (run_scraper opts net pj w0 d')
     \<and> requested_urls (run_scraper opts net pj w0 d) = requested_urls (run_scraper opts net pj w0 d')
     \<and> final_world (run_scraper opts net pj w0 d) = final_world (run_scraper opts net pj w0 d'))"
  using apply_results_disk_free [of dr rem rid rs p w d d']
        apply_results_lags [of p d dr rem rid rs w]
        run_scraper_disk_free [of d d' opts net pj w0]
  by blast

theorem C10_checkpoint_write_failure_is_swallowed_witness:
  "disk_lags progress9 disk_full
 \<and> on_disk disk_full = on_disk disk0
 \<and> raised_of tenth_unsaved = raised_of tenth_saved
 \<and> progress_of tenth_unsaved = progress_of tenth_saved
 \<and> world_of tenth_unsaved = world_of tenth_saved
 \<and> disk_lags (progress_of tenth_unsaved) (disk_of tenth_unsaved)
 \<and> card (completed_ids (progress_of tenth_unsaved)) = 10
 \<and> on_disk (disk_of tenth_unsaved) = Absent
 \<and> map_option ck_completed_ids (load_checkpoint (disk_of tenth_saved))
      = Some (insert ''c10'' (ck_completed_ids ck9))
 \<and> outcome_of (run_scraper plain_run net_fifth adapter1 world_lossy disk_full)
      = outcome_of (run_scraper plain_run net_fifth adapter1 world_lossy disk0)"
proof -
  have l: "disk_lags progress9 disk_full"
    by (simp add: disk_lags_def disk_full_def)
  have s: "on_disk disk_full = on_disk disk0"
    by (simp add: disk_full_def disk0_def)
  have v: "card (completed_ids (progress_of tenth_unsaved)) = 10"
          "on_disk (disk_of tenth_unsaved) = Absent"
          "map_option ck_completed_ids (load_checkpoint (disk_of tenth_saved))
             = Some (insert ''c10'' (ck_completed_ids ck9))"
    using tenth_value by (simp_all add: Let_def)
  note inst = C10_checkpoint_write_failure_is_swallowed
    [of False "[target ''c10'']" "Some 0" "[tenth_result]" progress9 world0 disk_full disk0
        plain_run net_fifth adapter1 world_lossy]
  have i: "raised_of tenth_unsaved = raised_of tenth_saved"
          "progress_of tenth_unsaved = progress_of tenth_saved"
          "world_of tenth_unsaved = world_of tenth_saved"
          "disk_lags (progress_of tenth_unsaved) (disk_of tenth_unsaved)"
          "outcome_of (run_scraper plain_run net_fifth adapter1 world_lossy disk_full)
             = outcome_of (run_scraper plain_run net_fifth adapter1 world_lossy disk0)"
    unfolding tenth_unsaved_def tenth_saved_def using inst l s by blast+
  from l s v i show ?thesis by blast
qed

subsection \<open>Failures of the store\<close>

lemma upsert_job_write_fails:
  assumes "hash_url (a_url a) = Inr k"
      and "retry (request (select_job_ids k)) (snd (now w)) = (Inr (Some ids), w2)"
      and "(case ids of
              [] \<Rightarrow> fst (retry (request (insert_job (new_row a k (fst (now w))))) w2)
            | i # rest \<Rightarrow> fst (retry (request (update_job (new_updates a (fst (now w))) i)) w2))
           = Inl e'"
  shows "fst (upsert_job a w) = Inr (None, False)"
proof -
  obtain t w1 where n: "now w = (t, w1)" by (cases "now w") auto
  show ?thesis
  proof (cases ids)
    case Nil
    with assms n show ?thesis
      by (cases "retry (request (insert_job (new_row a k t))) w2")
         (simp add: upsert_job_def)
  next
    case (Cons i rest)
    with assms n show ?thesis
      by (cases "retry (request (update_job (new_updates a t) i)) w2")
         (simp add: upsert_job_def)
  qed
qed

lemma upsert_all_raises:
  assumes "\<forall>i<length pre. \<exists>v. fst (upsert_job (pre ! i) (after_upserts (take i pre) w)) = Inr v"
      and "upsert_job a (after_upserts pre w) = (Inl e, w')"
  shows "\<exists>nj'. upsert_all (pre @ a # post) nj w = ((Some e, nj'), w')"
  using assms
proof (induction pre arbitrary: w nj)
  case Nil
  then show ?case by simp
next
  case (Cons x pre)
  from Cons.prems(1) [rule_format, of 0] obtain v where "fst (upsert_job x w) = Inr v" by auto
  then obtain row b w1 where u: "upsert_job x w = (Inr (row, b), w1)"
    by (cases "upsert_job x w"; cases v) auto
  have 1: "\<forall>i<length pre. \<exists>v. fst (upsert_job (pre ! i) (after_upserts (take i pre) w1)) = Inr v"
  proof (intro allI impI)
    fix i assume "i < length pre"
    with Cons.prems(1) [rule_format, of "Suc i"] u
    show "\<exists>v. fst (upsert_job (pre ! i) (after_upserts (take i pre) w1)) = Inr v" by simp
  qed
  have 2: "upsert_job a (after_upserts pre w1) = (Inl e, w')" using Cons.prems(2) u by simp
  from Cons.IH [OF 1 2, of "if b then nj + 1 else nj"] u show ?case by simp
qed

lemma write_jobs_raises:
  assumes "upsert_all args (new_jobs p) w = ((Some e, nj), w')"
  shows "raised_of (write_jobs rid r args p w d) = Some e"
    and "world_of (write_jobs rid r args p w d) = snd (now w')"
    and "disk_of (write_jobs rid r args p w d)
           = save_checkpoint (checkpoint_of (progress_of (write_jobs rid r args p w d)) rid (fst (now w'))) d"
  using assms by (simp_all add: write_jobs_def res_defs Let_def split: prod.splits)

lemma apply_result_raises:
  fixes r :: fetched and rem :: "company list"
  defines "arg \<equiv> job_args_of
      (case find (\<lambda>c. c_id c = f_company_id r) rem of Some c \<Rightarrow> c_ats c | None \<Rightarrow> ''unknown'')
      (case find (\<lambda>c. c_id c = f_company_id r) rem of Some c \<Rightarrow> c_name c | None \<Rightarrow> None)
      (f_company_id r)"
  assumes "truthy (f_error r) = None" "\<not> dr" "f_jobs r = earlier @ j # later"
      and "\<forall>i<length earlier. \<exists>v. fst (upsert_job (arg (earlier ! i)) (after_upserts (map arg (take i earlier)) w)) = Inr v"
      and "upsert_job (arg j) (after_upserts (map arg earlier) w) = (Inl e, w')"
  shows "raised_of (apply_result dr rem rid r p w d) = Some e"
    and "world_of (apply_result dr rem rid r p w d) = snd (now w')"
    and "disk_of (apply_result dr rem rid r p w d)
           = save_checkpoint (checkpoint_of (progress_of (apply_result dr rem rid r p w d)) rid (fst (now w'))) d"
proof -
  have ar: "apply_result dr rem rid r p w d = write_jobs rid r (map arg (f_jobs r)) (entered p r) w d"
    using assms(2,3,4) by (simp add: apply_result_def Let_def arg_def)
  have pre: "\<forall>i<length (map arg earlier). \<exists>v.
      fst (upsert_job (map arg earlier ! i) (after_upserts (take i (map arg earlier)) w)) = Inr v"
    using assms(5) by (simp add: take_map)
  from upsert_all_raises [OF pre assms(6), of "map arg later" "new_jobs (entered p r)"]
  obtain nj where ua: "upsert_all (map arg (f_jobs r)) (new_jobs (entered p r)) w = ((Some e, nj), w')"
    using assms(4) by auto
  note wj = write_jobs_raises [OF ua, of rid r d]
  from wj(1) show "raised_of (apply_result dr rem rid r p w d) = Some e" unfolding ar .
  from wj(2) show "world_of (apply_result dr rem rid r p w d) = snd (now w')" unfolding ar .
  from wj(3) show "disk_of (apply_result dr rem rid r p w d)
           = save_checkpoint (checkpoint_of (progress_of (apply_result dr rem rid r p w d)) rid (fst (now w'))) d"
    unfolding ar .
qed

lemma second_rejected_value:
  "(let X = second_rejected
    in (raised_of X, error_count (progress_of X), new_jobs (progress_of X), total_jobs (progress_of X),
        completed_ids (progress_of X), map j_title (jobs (world_of X)),
        map_option ck_completed_ids (load_checkpoint (disk_of X)),
        map_option ck_errors (load_checkpoint (disk_of X)),
        map_option ck_new_jobs (load_checkpoint (disk_of X))))
   = (Some (Exception ''permission denied for table jobs''), 1, 1, 2, {}, [''Engineer''],
      Some {}, Some 1, Some 1)"
  by code_simp

text \<open>
  Claim C6, as the code has it.  An exception leaves \<^verbatim>\<open>upsert_job\<close> only when the URL cannot
  be hashed or when the lookup of the key fails (after the retries, or at once for an error
  that is not retried).  When the insert or the update fails after the lookup has answered,
  \<^verbatim>\<open>upsert_job\<close> catches the exception and returns \<^verbatim>\<open>(None, False)\<close>.  When an exception does
  leave \<^verbatim>\<open>upsert_job\<close> for a job of a target, the jobs before it having been applied, the
  run aborts: the loop over the results raises that exception, the error counter goes up by
  one, the failing target is not added to the completed set, the checkpoint is handed to
  \<^verbatim>\<open>save_checkpoint\<close> with the counters reached and the time read after the failure, and no
  later result is applied.
\<close>

theorem C6_abort_when_upsert_raises:
  fixes r :: fetched and rem :: "company list"
  defines "arg \<equiv> job_args_of
      (case find (\<lambda>c. c_id c = f_company_id r) rem of Some c \<Rightarrow> c_ats c | None \<Rightarrow> ''unknown'')
      (case find (\<lambda>c. c_id c = f_company_id r) rem of Some c \<Rightarrow> c_name c | None \<Rightarrow> None)
      (f_company_id r)"
  shows
   "(fst (upsert_job a w) = Inl e \<longrightarrow>
       hash_url (a_url a) = Inl e
     \<or> (\<exists>k. hash_url (a_url a) = Inr k
            \<and> fst (retry (request (select_job_ids k)) (snd (now w))) = Inl e))
  \<and> (hash_url (a_url a) = Inr k
       \<and> retry (request (select_job_ids k)) (snd (now w)) = (Inr (Some ids), w2)
       \<and> (case ids of
             [] \<Rightarrow> fst (retry (request (insert_job (new_row a k (fst (now w))))) w2)
           | i # rest \<Rightarrow> fst (retry (request (update_job (new_updates a (fst (now w))) i)) w2))
          = Inl e' \<longrightarrow>
       fst (upsert_job a w) = Inr (None, False))
  \<and> (truthy (f_error r) = None \<and> \<not> dr \<and> f_jobs r = earlier @ j # later
       \<and> (\<forall>i<length earlier.
             \<exists>v. fst (upsert_job (arg (earlier ! i)) (after_upserts (map arg (take i earlier)) ws)) = Inr v)
       \<and> upsert_job (arg j) (after_upserts (map arg earlier) ws) = (Inl ex, w') \<longrightarrow>
       raised_of (apply_result dr rem rid r p ws d) = Some ex
     \<and> apply_results dr rem rid (r # rs) p ws d = apply_result dr rem rid r p ws d
     \<and> error_count (progress_of (apply_result dr rem rid r p ws d)) = error_count p + 1
     \<and> completed_ids (progress_of (apply_result dr rem rid r p ws d)) = completed_ids p
     \<and> world_of (apply_result dr rem rid r p ws d) = snd (now w')
     \<and> disk_of (apply_result dr rem rid r p ws d)
          = save_checkpoint
              (checkpoint_of (progress_of (apply_result dr rem rid r p ws d)) rid (fst (now w'))) d)"
proof (intro conjI impI)
  assume "fst (upsert_job a w) = Inl e"
  from upsert_job_raises [OF this]
  show "hash_url (a_url a) = Inl e
     \<or> (\<exists>k. hash_url (a_url a) = Inr k
            \<and> fst (retry (request (select_job_ids k)) (snd (now w))) = Inl e)" .
next
  assume "hash_url (a_url a) = Inr k
       \<and> retry (request (select_job_ids k)) (snd (now w)) = (Inr (Some ids), w2)
       \<and> (case ids of
             [] \<Rightarrow> fst (retry (request (insert_job (new_row a k (fst (now w))))) w2)
           | i # rest \<Rightarrow> fst (retry (request (update_job (new_updates a (fst (now w))) i)) w2))
          = Inl e'"
  then show "fst (upsert_job a w) = Inr (None, False)"
    using upsert_job_write_fails [of a k w ids w2 e'] by blast
next
  assume h: "truthy (f_error r) = None \<and> \<not> dr \<and> f_jobs r = earlier @ j # later
       \<and> (\<forall>i<length earlier.
             \<exists>v. fst (upsert_job (arg (earlier ! i)) (after_upserts (map arg (take i earlier)) ws)) = Inr v)
       \<and> upsert_job (arg j) (after_upserts (map arg earlier) ws) = (Inl ex, w')"
  then have h1: "truthy (f_error r) = None" and h2: "\<not> dr" and h3: "f_jobs r = earlier @ j # later"
    and h4: "\<forall>i<length earlier.
             \<exists>v. fst (upsert_job (arg (earlier ! i)) (after_upserts (map arg (take i earlier)) ws)) = Inr v"
    and h5: "upsert_job (arg j) (after_upserts (map arg earlier) ws) = (Inl ex, w')"
    by blast+
  note fw = apply_result_raises [OF h1 h2 h3 h4 [unfolded arg_def] h5 [unfolded arg_def], of rid p d]
  from fw(1) show r: "raised_of (apply_result dr rem rid r p ws d) = Some ex" .
  obtain e1 p1 w1 d1 where x: "apply_result dr rem rid r p ws d = (e1, p1, w1, d1)"
    by (cases "apply_result dr rem rid r p ws d") auto
  with r have "e1 = Some ex" by (simp add: res_defs)
  with x show "apply_results dr rem rid (r # rs) p ws d = apply_result dr rem rid r p ws d" by simp
  note ar = apply_result_raised [OF r]
  from ar show "error_count (progress_of (apply_result dr rem rid r p ws d)) = error_count p + 1"
    by blast
  from ar show "completed_ids (progress_of (apply_result dr rem rid r p ws d)) = completed_ids p"
    by blast
  from fw(2) show "world_of (apply_result dr rem rid r p ws d) = snd (now w')" .
  from fw(3) show "disk_of (apply_result dr rem rid r p ws d)
          = save_checkpoint
              (checkpoint_of (progress_of (apply_result dr rem rid r p ws d)) rid (fst (now w'))) d" .
qed

lemma first_of_two_applied:
  "map_sum id snd (fst (upsert_job args1 world_rejecting_second)) = Inr True"
  by code_simp

lemma second_of_two_rejected:
  "fst (upsert_job args2 (after_upserts [args1] world_rejecting_second))
     = Inl (Exception ''permission denied for table jobs'')"
  by code_simp

lemma hash_args2:
  "hash_url (a_url args2) = Inr ''08b8571c3fb8cd251e2902c5fede72c532832ddd8f8461d219850f3baf1fa802''"
  by code_simp

lemma dropped_insert:
  "fst (retry (request (select_job_ids key1)) (snd (now world_dropping))) = Inr (Some [])
 \<and> fst (retry (request (insert_job (new_row args1 key1 (fst (now world_dropping)))))
        (snd (retry (request (select_job_ids key1)) (snd (now world_dropping)))))
     = Inl (Exception ''[Errno 32] Broken pipe'')"
  by code_simp

theorem C6_abort_when_upsert_raises_witness:
  "hash_url (a_url args2) = Inr ''08b8571c3fb8cd251e2902c5fede72c532832ddd8f8461d219850f3baf1fa802''
 \<and> fst (upsert_job args2 (after_upserts [args1] world_rejecting_second))
      = Inl (Exception ''permission denied for table jobs'')
 \<and> fst (retry (request (select_job_ids ''08b8571c3fb8cd251e2902c5fede72c532832ddd8f8461d219850f3baf1fa802''))
          (snd (now (after_upserts [args1] world_rejecting_second))))
      = Inl (Exception ''permission denied for table jobs'')
 \<and> hash_url (a_url args1) = Inr key1
 \<and> fst (retry (request (select_job_ids key1)) (snd (now world_dropping))) = Inr (Some [])
 \<and> fst (upsert_job args1 world_dropping) = Inr (None, False)
 \<and> truthy (f_error two_jobs) = None \<and> f_jobs two_jobs = [job1] @ job2 # []
 \<and> raised_of second_rejected = Some (Exception ''permission denied for table jobs'')
 \<and> error_count (progress_of second_rejected) = 1
 \<and> completed_ids (progress_of second_rejected) = {}
 \<and> map j_title (jobs (world_of second_rejected)) = [''Engineer'']
 \<and> map_option ck_errors (load_checkpoint (disk_of second_rejected)) = Some 1"
proof -
  let ?e = "Exception ''permission denied for table jobs''"
  let ?bp = "Exception ''[Errno 32] Broken pipe''"
  let ?k2 = "''08b8571c3fb8cd251e2902c5fede72c532832ddd8f8461d219850f3baf1fa802''"
  let ?wm = "after_upserts [args1] world_rejecting_second"
  let ?w2 = "snd (retry (request (select_job_ids key1)) (snd (now world_dropping)))"
  let ?A = "job_args_of ''greenhouse'' (Some ''Company c05'') ''c05''"
  have arg: "job_args_of
      (case find (\<lambda>c. c_id c = f_company_id two_jobs) [target ''c05''] of
         Some c \<Rightarrow> c_ats c | None \<Rightarrow> ''unknown'')
      (case find (\<lambda>c. c_id c = f_company_id two_jobs) [target ''c05''] of
         Some c \<Rightarrow> c_name c | None \<Rightarrow> None)
      (f_company_id two_jobs) = ?A"
    by (simp add: two_jobs_def target_def)
  have a: "?A job1 = args1" "?A job2 = args2" by (simp_all add: args1_def args2_def)
  from C6_abort_when_upsert_raises [where a = args2 and w = ?wm and e = ?e, THEN conjunct1]
    second_of_two_rejected hash_args2
  have c1: "fst (retry (request (select_job_ids ?k2)) (snd (now ?wm))) = Inl ?e" by auto
  have lk: "retry (request (select_job_ids key1)) (snd (now world_dropping)) = (Inr (Some []), ?w2)"
    using dropped_insert by (simp add: prod_eq_iff)
  from C6_abort_when_upsert_raises [where a = args1 and w = world_dropping and k = key1
      and ids = "[]" and ?w2.0 = ?w2 and e' = ?bp, THEN conjunct2, THEN conjunct1]
    hash_args1 lk dropped_insert
  have c2: "fst (upsert_job args1 world_dropping) = Inr (None, False)" by simp
  have tj: "truthy (f_error two_jobs) = None" "f_jobs two_jobs = [job1] @ job2 # []"
    by (simp_all add: two_jobs_def)
  from first_of_two_applied obtain v where
    v: "fst (upsert_job args1 world_rejecting_second) = Inr v"
    by (cases "fst (upsert_job args1 world_rejecting_second)") auto
  have h4: "\<forall>i<length [job1]. \<exists>v.
      fst (upsert_job (?A ([job1] ! i)) (after_upserts (map ?A (take i [job1])) world_rejecting_second))
        = Inr v"
    using v a by simp
  have h5: "upsert_job (?A job2) (after_upserts (map ?A [job1]) world_rejecting_second)
              = (Inl ?e, snd (upsert_job args2 ?wm))"
    using second_of_two_rejected a by (simp add: prod_eq_iff)
  note c3 = C6_abort_when_upsert_raises [where r = two_jobs and rem = "[target ''c05'']"
      and dr = False and earlier = "[job1]" and j = job2 and later = "[]"
      and ws = world_rejecting_second and ex = ?e and w' = "snd (upsert_job args2 ?wm)"
      and rid = "Some 0" and p = progress0 and d = disk0 and rs = ten_results,
      unfolded arg, THEN conjunct2, THEN conjunct2, rule_format]
  have hyp: "truthy (f_error two_jobs) = None \<and> \<not> False \<and> f_jobs two_jobs = [job1] @ job2 # []
       \<and> (\<forall>i<length [job1]. \<exists>v.
             fst (upsert_job (?A ([job1] ! i))
                    (after_upserts (map ?A (take i [job1])) world_rejecting_second)) = Inr v)
       \<and> upsert_job (?A job2) (after_upserts (map ?A [job1]) world_rejecting_second)
            = (Inl ?e, snd (upsert_job args2 ?wm))"
    using tj h4 h5 by blast
  from c3 [OF hyp]
  have r: "raised_of second_rejected = Some ?e"
          "error_count (progress_of second_rejected) = error_count progress0 + 1"
          "completed_ids (progress_of second_rejected) = completed_ids progress0"
    unfolding second_rejected_def by simp_all
  have vals: "map j_title (jobs (world_of second_rejected)) = [''Engineer'']"
    "map_option ck_errors (load_checkpoint (disk_of second_rejected)) = Some 1"
    using second_rejected_value by (simp_all add: Let_def)
  from r have r': "error_count (progress_of second_rejected) = 1"
    "completed_ids (progress_of second_rejected) = {}"
    by (simp_all add: progress0_def)
  from hash_args2 second_of_two_rejected c1 hash_args1 dropped_insert c2 tj r(1) r' vals
  show ?thesis by blast
qed

text \<open>The claim as stated fails: in the run over \<open>world_lossy\<close> the insert of the one job
  of company \<open>c05\<close> fails on all three attempts (two sleeps), yet the run does not abort.  It
  counts no error, applies the result of company \<open>c06\<close>, runs to the end and removes the
  checkpoint; the job is in no table.\<close>

theorem C6_failed_insert_does_not_abort:
  "outcome_of lossy_run = Finished
 \<and> jobs (final_world lossy_run) = []
 \<and> total_jobs (final_progress lossy_run) = 1
 \<and> new_jobs (final_progress lossy_run) = 0
 \<and> error_count (final_progress lossy_run) = 0
 \<and> completed_ids (final_progress lossy_run) = {''c05'', ''c06''}
 \<and> slept (final_world lossy_run) = [1, 2]
 \<and> on_disk (final_disk lossy_run) = Absent"
  using lossy_run_value by (simp add: Let_def)

subsection \<open>Resuming\<close>

text \<open>
  Claim C7.  On a resume invocation (\<^verbatim>\<open>resume\<close> set, \<^verbatim>\<open>fresh\<close> not set) with a checkpoint on
  disk, the targets are the verified companies after filter and limit, and only those whose
  id is not in the checkpoint's completed set are fetched: every URL requested belongs to
  such a target.  The counters start from the checkpoint's: the final completed set contains
  the checkpoint's, no final counter is below the checkpoint's, and when the run finishes
  the completed set is the checkpoint's plus the remaining targets, the jobs seen and the
  errors are the checkpoint's counters plus what the remaining targets' results contribute,
  and the new jobs are at most the checkpoint's count plus the jobs of those results.
\<close>

theorem C7_resume_from_checkpoint:
  fixes ck :: checkpoint
  defines "targets \<equiv> \<lambda>opts w0. select_companies opts (verified_companies (ats_filter opts) w0)"
  assumes "resume opts" and "\<not> fresh opts" and "on_disk d0 = Stored ck"
  shows "(\<forall>u\<in>set (requested_urls (run_scraper opts net pj w0 d0)).
            \<exists>c\<in>set (targets opts w0). c_id c \<notin> ck_completed_ids ck \<and> c_api_url c = Some u)
       \<and> ck_completed_ids ck \<subseteq> completed_ids (final_progress (run_scraper opts net pj w0 d0))
       \<and> ck_total_jobs ck \<le> total_jobs (final_progress (run_scraper opts net pj w0 d0))
       \<and> ck_new_jobs ck \<le> new_jobs (final_progress (run_scraper opts net pj w0 d0))
       \<and> ck_errors ck \<le> error_count (final_progress (run_scraper opts net pj w0 d0))
       \<and> (outcome_of (run_scraper opts net pj w0 d0) = Finished \<longrightarrow>
            completed_ids (final_progress (run_scraper opts net pj w0 d0))
              = ck_completed_ids ck
                \<union> c_id ` set (filter (\<lambda>c. c_id c \<notin> ck_completed_ids ck) (targets opts w0))
          \<and> total_jobs (final_progress (run_scraper opts net pj w0 d0))
              = ck_total_jobs ck
                + jobs_found (map fst (map (scrape_company net pj)
                    (filter (\<lambda>c. c_id c \<notin> ck_completed_ids ck) (targets opts w0))))
          \<and> error_count (final_progress (run_scraper opts net pj w0 d0))
              = ck_errors ck
                + errors_found (map fst (map (scrape_company net pj)
                    (filter (\<lambda>c. c_id c \<notin> ck_completed_ids ck) (targets opts w0))))
          \<and> new_jobs (final_progress (run_scraper opts net pj w0 d0))
              \<le> ck_new_jobs ck
                + jobs_found (map fst (map (scrape_company net pj)
                    (filter (\<lambda>c. c_id c \<notin> ck_completed_ids ck) (targets opts w0)))))"
proof -
  let ?p0 = "\<lparr>completed_ids = ck_completed_ids ck, total_jobs = ck_total_jobs ck,
              new_jobs = ck_new_jobs ck, error_count = ck_errors ck, companies_with_jobs = 0\<rparr>"
  have ip: "initial_progress opts d0 = (?p0, ck_run_id ck)"
    using assms(2,3,4) by (rule initial_progress_resume)
  let ?R = "run_scraper opts net pj w0 d0"
  show ?thesis
  proof (cases rule: run_scraper_cases [of opts w0 net pj d0])
    case (query_failed e w1)
    with ip show ?thesis by (simp add: run_defs)
  next
    case (nothing w1)
    with ip show ?thesis by (simp add: run_defs)
  next
    case (start_failed e w1 w2)
    with ip show ?thesis by (simp add: run_defs)
  next
    case (looped w1 w2 rid rem)
    from looped(4) ip have rem: "rem = filter (\<lambda>c. c_id c \<notin> ck_completed_ids ck) (targets opts w0)"
      by (simp add: targets_def)
    let ?rs = "map fst (map (scrape_company net pj) rem)"
    let ?X = "apply_results (dry_run opts) rem rid ?rs ?p0 w2 d0"
    obtain ex p w3 d2 where x: "?X = (ex, p, w3, d2)" by (cases ?X) auto
    from apply_results_mono [of ?p0 "dry_run opts" rem rid ?rs w2 d0] x
    have mono: "ck_completed_ids ck \<subseteq> completed_ids p" "ck_total_jobs ck \<le> total_jobs p"
               "ck_new_jobs ck \<le> new_jobs p" "ck_errors ck \<le> error_count p"
      by (simp_all add: res_defs)
    have req: "\<forall>u\<in>set (concat (map snd (map (scrape_company net pj) rem))).
                 \<exists>c\<in>set (targets opts w0). c_id c \<notin> ck_completed_ids ck \<and> c_api_url c = Some u"
    proof
      fix u assume "u \<in> set (concat (map snd (map (scrape_company net pj) rem)))"
      from requested_subset [OF this] obtain c where "c \<in> set rem" "c_api_url c = Some u" by auto
      with rem show "\<exists>c\<in>set (targets opts w0). c_id c \<notin> ck_completed_ids ck \<and> c_api_url c = Some u"
        by auto
    qed
    show ?thesis
    proof (cases ex)
      case (Some e)
      with looped(5) ip x assms(3) have
        "outcome_of ?R = Raised e" "final_progress ?R = p"
        "requested_urls ?R = concat (map snd (map (scrape_company net pj) rem))"
        by (simp_all add: run_defs)
      with mono req show ?thesis by simp
    next
      case None
      obtain res w4 d3 where c: "close_run opts rid p w3 d2 = (res, w4, d3)"
        by (cases "close_run opts rid p w3 d2") auto
      with looped(5) ip x assms(3) None have
        o: "outcome_of ?R = res" "final_progress ?R = p"
        "requested_urls ?R = concat (map snd (map (scrape_company net pj) rem))"
        by (simp_all add: run_defs)
      from x None have n: "raised_of ?X = None" by (simp add: res_defs)
      from apply_results_totals [OF n] x
      have tot: "total_jobs p = ck_total_jobs ck + jobs_found ?rs"
                "error_count p = ck_errors ck + errors_found ?rs"
                "completed_ids p = ck_completed_ids ck \<union> f_company_id ` set ?rs"
        by (simp_all add: res_defs)
      have ids: "f_company_id ` set ?rs = c_id ` set rem"
        by (auto simp: scrape_company_def image_iff split: option.splits if_splits get_outcome.splits
              body.splits sum.splits)
      from apply_results_new_jobs_le [of "dry_run opts" rem rid ?rs ?p0 w2 d0] x
      have nj: "new_jobs p \<le> ck_new_jobs ck + jobs_found ?rs" by (simp add: res_defs)
      from o mono req tot ids nj rem show ?thesis by simp
    qed
  qed
qed

theorem C7_resume_from_checkpoint_witness:
  "resume resumed \<and> \<not> fresh resumed \<and> on_disk disk_ck9 = Stored ck9
 \<and> ck_completed_ids ck9 \<subseteq> completed_ids (final_progress resumed_run)
 \<and> outcome_of resumed_run = Finished
 \<and> requested_urls resumed_run = [board_url ''c10'']
 \<and> total_jobs (final_progress resumed_run) = 4
 \<and> new_jobs (final_progress resumed_run) = 2
 \<and> error_count (final_progress resumed_run) = 1
 \<and> card (completed_ids (final_progress resumed_run)) = 10"
proof -
  have h: "resume resumed" "\<not> fresh resumed" "on_disk disk_ck9 = Stored ck9"
    by (simp_all add: resumed_def plain_run_def disk_ck9_def)
  from C7_resume_from_checkpoint [OF h, of net_fifth adapter1 world_ten]
  have s: "ck_completed_ids ck9 \<subseteq> completed_ids (final_progress resumed_run)"
    unfolding resumed_run_def by blast
  have v: "outcome_of resumed_run = Finished"
          "requested_urls resumed_run = [board_url ''c10'']"
          "total_jobs (final_progress resumed_run) = 4"
          "new_jobs (final_progress resumed_run) = 2"
          "error_count (final_progress resumed_run) = 1"
          "card (completed_ids (final_progress resumed_run)) = 10"
    using resumed_run_value by (simp_all add: Let_def)
  from h s v show ?thesis by blast
qed

subsection \<open>Checkpoint cadence\<close>

text \<open>
  Claim C5.  After the tenth target processed, failures counted like successes, the
  checkpoint on disk reflects the completed set and the totals.  The code tests the size of
  the completed set only at the end of the branch that wrote a target's jobs to the store;
  the branches for a result with an error and for a result without jobs \<^verbatim>\<open>continue\<close> before
  the test.  Of ten targets applied from zero, with the one board that has a job in fifth
  place and 404 from the others, all ten are completed and none raised, and no checkpoint
  has been written.  With the same board in tenth place the checkpoint is written and lists
  the ten.
\<close>

theorem C5_tenth_target_without_checkpoint:
  "raised_of after_ten = None
 \<and> card (completed_ids (progress_of after_ten)) = 10
 \<and> total_jobs (progress_of after_ten) = 1
 \<and> on_disk (disk_of after_ten) = Absent
 \<and> card (completed_ids (progress_of after_ten_last)) = 10
 \<and> map_option ck_completed_ids (load_checkpoint (disk_of after_ten_last)) = Some (c_id ` set ten_targets)"
  using after_ten_value after_ten_last_value by (simp add: Let_def)

subsection \<open>Normalising ordinary URLs\<close>





































text \<open>Outside the ordinary URLs a second pass can change the result once more: a space
  before the query, a \<^verbatim>\<open>;\<close> in the last path segment, a bracketed host.\<close>

lemma normalize_url_outside_ordinary:
  "normalize_url ''https://x.com/a/ ?q=1'' = Inr ''https://x.com/a/ ''
 \<and> normalize_url ''https://x.com/a/ '' = Inr ''https://x.com/a''
 \<and> normalize_url ''https://x.com/a;b/'' = Inr ''https://x.com/a;b''
 \<and> normalize_url ''https://x.com/a;b'' = Inr ''https://x.com/a''
 \<and> normalize_url ''http://[::1]/x'' = Inr ''http://::1/x''
 \<and> normalize_url ''http://::1/x'' = Inr ''http:///x''"
  by code_simp







subsection \<open>The error counter\<close>

lemma run_scraper_finished_totals:
  fixes opts net pj w0 d0
  defines "todo \<equiv> filter (\<lambda>c. c_id c \<notin> completed_ids (fst (initial_progress opts d0)))
                     (select_companies opts (verified_companies (ats_filter opts) w0))"
  assumes "outcome_of (run_scraper opts net pj w0 d0) = Finished"
  shows "error_count (final_progress (run_scraper opts net pj w0 d0))
           = error_count (fst (initial_progress opts d0))
             + errors_found (map fst (map (scrape_company net pj) todo))"
proof (cases rule: run_scraper_cases [of opts w0 net pj d0])
  case (query_failed e w1)
  with assms(2) show ?thesis by (simp add: run_defs)
next
  case (nothing w1)
  with assms(2) show ?thesis by (simp add: run_defs)
next
  case (start_failed e w1 w2)
  with assms(2) show ?thesis by (simp add: run_defs)
next
  case (looped w1 w2 rid rem)
  have rem: "rem = todo" using looped(4) by (simp add: todo_def)
  let ?p0 = "fst (initial_progress opts d0)"
  let ?d1 = "if fresh opts then clear_checkpoint d0 else d0"
  let ?rs = "map fst (map (scrape_company net pj) rem)"
  let ?X = "apply_results (dry_run opts) rem rid ?rs ?p0 w2 ?d1"
  obtain ex p w3 d2 where x: "?X = (ex, p, w3, d2)" by (cases ?X) auto
  show ?thesis
  proof (cases ex)
    case (Some e)
    with looped(5) x assms(2) show ?thesis by (simp add: run_defs)
  next
    case None
    obtain res w4 d3 where c: "close_run opts rid p w3 d2 = (res, w4, d3)"
      by (cases "close_run opts rid p w3 d2") auto
    with looped(5) x None have o: "final_progress (run_scraper opts net pj w0 d0) = p"
      by (simp add: run_defs)
    from x None have n: "raised_of ?X = None" by (simp add: res_defs)
    from apply_results_totals [OF n] x
    have "error_count p = error_count ?p0 + errors_found ?rs" by (simp add: res_defs)
    with o rem show ?thesis by simp
  qed
qed

lemma verified_has_endpoint:
  "c \<in> set (select_companies opts (verified_companies ats w)) \<Longrightarrow> c_api_url c \<noteq> None"
proof -
  have sub: "set (select_companies opts cs) \<subseteq> set cs" for cs
    by (auto simp: select_companies_def py_take_def Let_def split: option.splits dest: in_set_takeD)
  assume "c \<in> set (select_companies opts (verified_companies ats w))"
  with sub have "c \<in> set (verified_companies ats w)" by blast
  then show ?thesis by (simp add: verified_companies_def)
qed

lemma errors_found_sum:
  "errors_found (map fst (map g cs)) = sum_list (map (\<lambda>c. errors_found [fst (g c)]) cs)"
  by (induction cs) (simp_all add: errors_found_def)

text \<open>
  Claim C4, as the code has it.  The loop adds one to the error counter for every result
  that carries an error text, so that a run that finishes ends with its initial counter plus
  one for each such target.  A target whose board answered 404 carries none and adds nothing.
  A target whose source type has no adapter and a target whose endpoint is the empty string
  carry the texts \<^verbatim>\<open>no parser for ...\<close> and \<^verbatim>\<open>no api_url\<close> and add one each.  A company whose
  endpoint is null is no target of any run: \<^verbatim>\<open>get_verified_companies\<close> leaves it out.
\<close>

theorem C4_error_counter:
  fixes opts net pj w0 d0
  defines "todo \<equiv> filter (\<lambda>c. c_id c \<notin> completed_ids (fst (initial_progress opts d0)))
                     (select_companies opts (verified_companies (ats_filter opts) w0))"
  shows "(outcome_of (run_scraper opts net pj w0 d0) = Finished \<longrightarrow>
            error_count (final_progress (run_scraper opts net pj w0 d0))
              = error_count (fst (initial_progress opts d0))
                + sum_list (map (\<lambda>c. errors_found [fst (scrape_company net pj c)]) todo))
       \<and> (\<forall>c\<in>set todo.
            c_api_url c \<noteq> None
          \<and> (c_api_url c = Some [] \<or> c_ats c \<notin> set PARSERS \<longrightarrow>
               errors_found [fst (scrape_company net pj c)] = 1
             \<and> error_count (progress_of
                  (apply_result dr rem rid (fst (scrape_company net pj c)) p w d)) = error_count p + 1)
          \<and> (c_api_url c = Some u \<and> u \<noteq> [] \<and> c_ats c \<in> set PARSERS \<and> net u = Responds 404 b \<longrightarrow>
               errors_found [fst (scrape_company net pj c)] = 0
             \<and> error_count (progress_of
                  (apply_result dr rem rid (fst (scrape_company net pj c)) p w d)) = error_count p))"
proof (intro conjI impI ballI)
  assume "outcome_of (run_scraper opts net pj w0 d0) = Finished"
  from run_scraper_finished_totals [OF this]
  show "error_count (final_progress (run_scraper opts net pj w0 d0))
          = error_count (fst (initial_progress opts d0))
            + sum_list (map (\<lambda>c. errors_found [fst (scrape_company net pj c)]) todo)"
    unfolding todo_def errors_found_sum .
next
  fix c assume "c \<in> set todo"
  then have "c \<in> set (select_companies opts (verified_companies (ats_filter opts) w0))"
    by (simp add: todo_def)
  then show "c_api_url c \<noteq> None" by (rule verified_has_endpoint)
next
  fix c :: company assume "c \<in> set todo" and "c_api_url c = Some [] \<or> c_ats c \<notin> set PARSERS"
  then have e: "truthy (f_error (fst (scrape_company net pj c))) \<noteq> None"
    by (cases "c_api_url c" rule: truthy.cases) (auto simp: scrape_company_def)
  then show "errors_found [fst (scrape_company net pj c)] = 1" by (simp add: errors_found_def)
  from e show "error_count (progress_of
      (apply_result dr rem rid (fst (scrape_company net pj c)) p w d)) = error_count p + 1"
    by (simp add: apply_result_def res_defs)
next
  fix c :: company assume "c \<in> set todo"
    and "c_api_url c = Some u \<and> u \<noteq> [] \<and> c_ats c \<in> set PARSERS \<and> net u = Responds 404 b"
  then have r: "fst (scrape_company net pj c)
      = \<lparr>f_company_id = c_id c, f_slug = c_slug c, f_jobs = [], f_error = None\<rparr>"
    by (cases u) (simp_all add: scrape_company_def)
  then show "errors_found [fst (scrape_company net pj c)] = 0" by (simp add: errors_found_def)
  from r show "error_count (progress_of
      (apply_result dr rem rid (fst (scrape_company net pj c)) p w d)) = error_count p"
    by (simp add: apply_result_def res_defs)
qed

lemma skips_run_value:
  "(let R = skips_run
    in (outcome_of R, requested_urls R, completed_ids (final_progress R)))
   = (Finished, [board_url ''c04''], {''c02'', ''c03'', ''c04''})"
  by code_simp

lemma skips_run_targets:
  "filter (\<lambda>c. c_id c \<notin> completed_ids (fst (initial_progress plain_run disk0)))
     (select_companies plain_run (verified_companies (ats_filter plain_run) world_skips))
   = [blank_endpoint, no_adapter, target ''c04'']"
  by code_simp

theorem C4_error_counter_witness:
  "outcome_of skips_run = Finished
 \<and> companies world_skips = [null_endpoint, blank_endpoint, no_adapter, target ''c04'']
 \<and> requested_urls skips_run = [board_url ''c04'']
 \<and> c_api_url null_endpoint = None
 \<and> c_api_url blank_endpoint = Some []
 \<and> c_ats no_adapter \<notin> set PARSERS
 \<and> c_api_url (target ''c04'') = Some (board_url ''c04'') \<and> c_ats (target ''c04'') \<in> set PARSERS
 \<and> net_fifth (board_url ''c04'') = Responds 404 (Decoded JNull)
 \<and> errors_found [fst (scrape_company net_fifth adapter1 blank_endpoint)] = 1
 \<and> errors_found [fst (scrape_company net_fifth adapter1 no_adapter)] = 1
 \<and> errors_found [fst (scrape_company net_fifth adapter1 (target ''c04''))] = 0
 \<and> error_count (final_progress skips_run) = 2"
proof -
  note c4 = C4_error_counter [of plain_run net_fifth adapter1 world_skips disk0 _ _ _ _ _ _
      "board_url ''c04''" "Decoded JNull", unfolded skips_run_targets, folded skips_run_def]
  have fin: "outcome_of skips_run = Finished" and req: "requested_urls skips_run = [board_url ''c04'']"
    using skips_run_value by (simp_all add: Let_def)
  have facts: "companies world_skips = [null_endpoint, blank_endpoint, no_adapter, target ''c04'']"
    "c_api_url null_endpoint = None" "c_api_url blank_endpoint = Some []"
    "c_ats no_adapter \<notin> set PARSERS"
    "c_api_url (target ''c04'') = Some (board_url ''c04'')" "c_ats (target ''c04'') \<in> set PARSERS"
    "net_fifth (board_url ''c04'') = Responds 404 (Decoded JNull)"
    "board_url ''c04'' \<noteq> []"
    by (simp_all add: world_skips_def null_endpoint_def blank_endpoint_def no_adapter_def
          target_def PARSERS_def net_fifth_def board_url_def)
  have p0: "error_count (fst (initial_progress plain_run disk0)) = 0"
    by (simp add: initial_progress_def plain_run_def)
  from c4 facts have each:
    "errors_found [fst (scrape_company net_fifth adapter1 blank_endpoint)] = 1"
    "errors_found [fst (scrape_company net_fifth adapter1 no_adapter)] = 1"
    "errors_found [fst (scrape_company net_fifth adapter1 (target ''c04''))] = 0"
    by simp_all
  from c4 fin p0 each have "error_count (final_progress skips_run) = 2" by simp
  with fin req facts each show ?thesis by simp
qed

text \<open>The claim as stated fails: the run over a store whose one verified company has an
  empty endpoint finishes with one error, and so does the run over a store whose one
  verified company has a source type without adapter; no request is made in either.\<close>

theorem C4_skipped_targets_are_counted:
  "outcome_of blank_run = Finished
 \<and> requested_urls blank_run = []
 \<and> error_count (final_progress blank_run) = 1
 \<and> outcome_of unadapted_run = Finished
 \<and> requested_urls unadapted_run = []
 \<and> error_count (final_progress unadapted_run) = 1"
  by code_simp

end
